theory Spec2Isabelle
  imports Complex_Main
begin

section \<open>Data model of the fitting core\<close>

text \<open>
  The C++ type \<open>double\<close> is modelled by \<^typ>\<open>real\<close>: rounding, infinities and NaN are
  outside the model. \<open>QVector<double>\<close> is a \<^typ>\<open>real list\<close>, \<open>QMap<QString,double>\<close> a
  partial map from strings, and the tuple \<open>ModelCurveData\<close> a triple of lists.
\<close>

type_synonym param_map = "string \<rightharpoonup> real"

type_synonym ModelCurveData = "real list \<times> real list \<times> real list"

text \<open>
  \<open>struct FitParameter\<close> of fittingparameterchart.h. The fields \<open>value\<close>, \<open>min\<close> and \<open>max\<close>
  carry a prime, their names being taken in HOL.
\<close>

record FitParameter =
  name :: string
  displayName :: string
  value' :: real
  isFit :: bool
  min' :: real
  max' :: real
  isVisible :: bool
  step :: real

text \<open>
  The class \<open>ModelManager\<close> is an external collaborator. Its method
  \<open>calculateTheoreticalCurve(type, params, t)\<close> is a parameter of the model: a function of
  the precision flag set by \<open>setHighPrecision\<close>, the model type, the parameter map and
  the optional time grid. The pointer \<open>m_modelManager\<close> may be null, hence the
  \<^typ>\<open>'a option\<close> wherever the source tests or dereferences it.
\<close>

type_synonym 'mt ModelManager =
  "bool \<Rightarrow> 'mt \<Rightarrow> param_map \<Rightarrow> real list option \<Rightarrow> ModelCurveData"


section \<open>Reading a \<open>QMap\<close>\<close>

text \<open>
  \<open>QMap::contains\<close>, \<open>QMap::value\<close> (the default \<open>0.0\<close> for an absent key) and the
  side effect of the non-const \<open>operator[]\<close>, which inserts the default for an absent key
  before it returns the reference.
\<close>

definition qmap_contains :: "param_map \<Rightarrow> string \<Rightarrow> bool" where
  "qmap_contains m k = (m k \<noteq> None)"

definition qmap_value :: "param_map \<Rightarrow> string \<Rightarrow> real" where
  "qmap_value m k = (case m k of None \<Rightarrow> 0 | Some v \<Rightarrow> v)"

definition qmap_index :: "param_map \<Rightarrow> string \<Rightarrow> param_map" where
  "qmap_index m k = (if qmap_contains m k then m else m(k \<mapsto> 0))"

section \<open>Projections onto the physical constraints\<close>

text \<open>
  The lambda \<open>updateDeps\<close> of \<open>computeJacobian\<close>; the driver repeats the same two lines
  inline for the initial map and for every trial map. All its \<open>operator[]\<close> reads are
  guarded by \<open>contains\<close>, so none inserts.
\<close>

definition updateDeps :: "param_map \<Rightarrow> param_map" where
  "updateDeps m =
    (if qmap_contains m ''L'' \<and> qmap_contains m ''Lf'' \<and> qmap_value m ''L'' > 1 / 10 ^ 9
     then m(''LfD'' \<mapsto> qmap_value m ''Lf'' / qmap_value m ''L'')
     else m)"

text \<open>The inline blocks on \<open>kf\<close>, \<open>km\<close> and on \<open>omega1\<close>, \<open>omega2\<close> of the driver.\<close>

definition constrain_kf :: "param_map \<Rightarrow> param_map" where
  "constrain_kf m =
    (if qmap_contains m ''kf'' \<and> qmap_contains m ''km''
     then (if qmap_value m ''kf'' \<le> qmap_value m ''km''
           then m(''kf'' \<mapsto> qmap_value m ''km'' * 1.01) else m)
     else m)"

definition constrain_omega :: "param_map \<Rightarrow> param_map" where
  "constrain_omega m =
    (if qmap_contains m ''omega1'' \<and> qmap_contains m ''omega2''
     then (if qmap_value m ''omega1'' \<le> qmap_value m ''omega2''
           then m(''omega1'' \<mapsto> qmap_value m ''omega2'' * 1.01) else m)
     else m)"

section \<open>Residual builder\<close>


text \<open>\<open>FittingCore::calculateResiduals\<close>: two concatenated blocks of weighted log-residuals.\<close>

definition calculateResiduals ::
  "'mt ModelManager option \<Rightarrow> bool \<Rightarrow> param_map \<Rightarrow> 'mt \<Rightarrow> real \<Rightarrow>
   real list \<Rightarrow> real list \<Rightarrow> real list \<Rightarrow> real list" where
  "calculateResiduals m_modelManager hp params modelType weight t obsP obsD =
    (case m_modelManager of
       None \<Rightarrow> []
     | Some calc \<Rightarrow>
        if t = [] then []
        else
          let res = calc hp modelType params (Some t);
              pCal = fst (snd res);
              dpCal = snd (snd res);
              wp = weight;
              wd = 1 - weight;
              count = min (length obsP) (length pCal);
              r1 = map (\<lambda>i. if obsP ! i > 1 / 10 ^ 10 \<and> pCal ! i > 1 / 10 ^ 10
                              then (ln (obsP ! i) - ln (pCal ! i)) * wp else 0) [0..<count];
              dCount = min (min (length obsD) (length dpCal)) count;
              r2 = map (\<lambda>i. if obsD ! i > 1 / 10 ^ 10 \<and> dpCal ! i > 1 / 10 ^ 10
                              then (ln (obsD ! i) - ln (dpCal ! i)) * wd else 0) [0..<dCount]
          in r1 @ r2)"

text \<open>\<open>FittingCore::calculateSumSquaredError\<close>.\<close>

definition calculateSumSquaredError :: "real list \<Rightarrow> real" where
  "calculateSumSquaredError residuals = foldl (\<lambda>sse v. sse + v * v) 0 residuals"


section \<open>Jacobian engine\<close>

text \<open>
  The lambda \<open>computeColumn\<close> of \<open>FittingCore::computeJacobian\<close>: the central difference
  of the residual vector in the parameter \<open>fitIndices[j]\<close>. \<open>pow(10.0, x)\<close> is
  \<^term>\<open>10 powr x\<close> and \<open>log10\<close> is \<^term>\<open>log 10\<close>.
\<close>

definition computeColumn ::
  "'mt ModelManager option \<Rightarrow> bool \<Rightarrow> param_map \<Rightarrow> real list \<Rightarrow> nat list \<Rightarrow> 'mt \<Rightarrow>
   FitParameter list \<Rightarrow> real \<Rightarrow> real list \<Rightarrow> real list \<Rightarrow> real list \<Rightarrow> nat \<Rightarrow> real list" where
  "computeColumn m_modelManager hp params baseResiduals fitIndices modelType currentFitParams
      weight t obsP obsD j =
    (let nRes = length baseResiduals;
         idx = fitIndices ! j;
         pName = name (currentFitParams ! idx);
         val = qmap_value params pName;
         isLog = (val > 1 / 10 ^ 12 \<and> pName \<noteq> ''S'' \<and> pName \<noteq> ''nf'');
         h = (if isLog then 0.01 else 1 / 10 ^ 4);
         pPlus0 = (if isLog then params(pName \<mapsto> 10 powr (log 10 val + h))
                   else params(pName \<mapsto> val + h));
         pMinus0 = (if isLog then params(pName \<mapsto> 10 powr (log 10 val - h))
                    else params(pName \<mapsto> val - h));
         pPlus = (if pName = ''L'' \<or> pName = ''Lf'' then updateDeps pPlus0 else pPlus0);
         pMinus = (if pName = ''L'' \<or> pName = ''Lf'' then updateDeps pMinus0 else pMinus0);
         rPlus = calculateResiduals m_modelManager hp pPlus modelType weight t obsP obsD;
         rMinus = calculateResiduals m_modelManager hp pMinus modelType weight t obsP obsD
     in if length rPlus = nRes \<and> length rMinus = nRes
        then map (\<lambda>i. (rPlus ! i - rMinus ! i) / (2 * h)) [0..<nRes]
        else replicate nRes 0)"

text \<open>
  \<open>FittingCore::computeJacobian\<close>: the columns (computed by \<open>blockingMapped\<close>, which
  returns them in index order) are copied into the zero-initialised \<open>nRes \<times> nParams\<close>
  matrix \<open>J\<close>, a list of rows.
\<close>

definition computeJacobian ::
  "'mt ModelManager option \<Rightarrow> bool \<Rightarrow> param_map \<Rightarrow> real list \<Rightarrow> nat list \<Rightarrow> 'mt \<Rightarrow>
   FitParameter list \<Rightarrow> real \<Rightarrow> real list \<Rightarrow> real list \<Rightarrow> real list \<Rightarrow> real list list" where
  "computeJacobian m_modelManager hp params baseResiduals fitIndices modelType currentFitParams
      weight t obsP obsD =
    (let nRes = length baseResiduals;
         nParams = length fitIndices;
         results = map (computeColumn m_modelManager hp params baseResiduals fitIndices modelType
                          currentFitParams weight t obsP obsD) [0..<nParams]
     in map (\<lambda>i. map (\<lambda>j. if i < length (results ! j) then results ! j ! i else 0) [0..<nParams])
            [0..<nRes])"

section \<open>Resampler\<close>

text \<open>\<open>struct SamplingInterval\<close>; \<open>count\<close> is a C++ \<open>int\<close>.\<close>

record SamplingInterval =
  tStart :: real
  tEnd :: real
  count :: int

text \<open>
  The state of the class \<open>FittingCore\<close> that the algorithms read. The flag
  \<open>m_stopRequested\<close> is written by another thread (\<open>stopFit\<close>); the model records what
  the driver reads at the poll of each outer iteration.
\<close>

record 'mt FittingCore =
  m_modelManager :: "'mt ModelManager option"
  m_obsTime :: "real list"
  m_obsDeltaP :: "real list"
  m_obsDerivative :: "real list"
  m_customIntervals :: "SamplingInterval list"
  m_isCustomSamplingEnabled :: bool
  m_stopRequested :: "nat \<Rightarrow> bool"

text \<open>
  The local \<open>struct DataPoint {t, p, d}\<close> is a triple; \<open>operator<\<close> compares the times and
  \<open>operator==\<close> holds when the times differ by less than \<open>1e-9\<close>.
\<close>

type_synonym DataPoint = "real \<times> real \<times> real"

definition dataPoint :: "real list \<Rightarrow> real list \<Rightarrow> real list \<Rightarrow> nat \<Rightarrow> DataPoint" where
  "dataPoint srcT srcP srcD bestIdx =
    (srcT ! bestIdx,
     (if bestIdx < length srcP then srcP ! bestIdx else 0),
     (if bestIdx < length srcD then srcD ! bestIdx else 0))"

text \<open>
  The inner \<open>while\<close> loop of both sampling modes: the cursor advances while the distance
  to the target strictly decreases; the result is \<open>bestIdx\<close>. \<open>bound\<close> is \<open>srcT.size()\<close>
  in the default mode and \<open>idxEnd\<close> in the custom mode.
\<close>

function scan_nearest :: "real list \<Rightarrow> nat \<Rightarrow> real \<Rightarrow> nat \<Rightarrow> real \<Rightarrow> nat \<Rightarrow> nat" where
  "scan_nearest srcT bound targetT currentIndex minDiff bestIdx =
    (if currentIndex < bound
     then (let diff = \<bar>srcT ! currentIndex - targetT\<bar>
           in if diff < minDiff
              then scan_nearest srcT bound targetT (Suc currentIndex) diff currentIndex
              else bestIdx)
     else bestIdx)"
  by pat_completeness auto
termination
  by (relation "measure (\<lambda>(srcT, bound, targetT, currentIndex, minDiff, bestIdx). bound - currentIndex)")
     auto

text \<open>One pass of the \<open>for\<close> loop of the default mode, on the cursor and the chosen points.\<close>

definition default_pick ::
  "real list \<Rightarrow> real list \<Rightarrow> real list \<Rightarrow> real \<Rightarrow> real \<Rightarrow> nat \<times> DataPoint list \<Rightarrow> nat \<Rightarrow>
   nat \<times> DataPoint list" where
  "default_pick srcT srcP srcD logMin stp cp i =
    (let currentIndex = fst cp;
         targetT = 10 powr (logMin + real i * stp);
         bestIdx = scan_nearest srcT (length srcT) targetT currentIndex (10 ^ 30) currentIndex
     in (bestIdx, snd cp @ [dataPoint srcT srcP srcD bestIdx]))"

definition default_points :: "real list \<Rightarrow> real list \<Rightarrow> real list \<Rightarrow> DataPoint list" where
  "default_points srcT srcP srcD =
    (let targetCount = 200 :: nat;
         tMin = (if hd srcT \<le> 1 / 10 ^ 10 then 1 / 10 ^ 4 else hd srcT);
         tMax = last srcT;
         logMin = log 10 tMin;
         logMax = log 10 tMax;
         stp = (logMax - logMin) / real (targetCount - 1)
     in snd (foldl (default_pick srcT srcP srcD logMin stp) (0, []) [0..<targetCount]))"

text \<open>
  \<open>std::lower_bound\<close> and \<open>std::upper_bound\<close>, as indices, on a range partitioned by the
  comparison (their precondition; a non-decreasing time series meets it): the number of
  leading elements below the value, respectively not above it.
\<close>

definition lower_bound :: "real list \<Rightarrow> real \<Rightarrow> nat" where
  "lower_bound xs v = length (takeWhile (\<lambda>x. x < v) xs)"

definition upper_bound :: "real list \<Rightarrow> real \<Rightarrow> nat" where
  "upper_bound xs v = length (takeWhile (\<lambda>x. \<not> v < x) xs)"

text \<open>One pass of the inner \<open>for\<close> loop of the custom mode.\<close>

definition custom_pick ::
  "real list \<Rightarrow> real list \<Rightarrow> real list \<Rightarrow> nat \<Rightarrow> int \<Rightarrow> real \<Rightarrow> real \<Rightarrow> real \<Rightarrow>
   nat \<times> DataPoint list \<Rightarrow> nat \<Rightarrow> nat \<times> DataPoint list" where
  "custom_pick srcT srcP srcD idxEnd cnt subMin logMin stp cp i =
    (let subCurrentIdx = fst cp;
         targetT = (if cnt = 1 then subMin else 10 powr (logMin + real i * stp));
         bestIdx = scan_nearest srcT idxEnd targetT subCurrentIdx (10 ^ 30) subCurrentIdx
     in (bestIdx,
         if bestIdx < length srcT then snd cp @ [dataPoint srcT srcP srcD bestIdx] else snd cp))"

text \<open>The body of the loop over \<open>m_customIntervals\<close>: the points one interval appends.\<close>

definition interval_points ::
  "real list \<Rightarrow> real list \<Rightarrow> real list \<Rightarrow> DataPoint list \<Rightarrow> SamplingInterval \<Rightarrow> DataPoint list" where
  "interval_points srcT srcP srcD points interval =
    (let cnt = count interval in
     if cnt \<le> 0 then points
     else
       let idxStart = lower_bound srcT (tStart interval);
           idxEnd = upper_bound srcT (tEnd interval)
       in if idxStart \<ge> length srcT \<or> idxStart \<ge> idxEnd then points
          else
            let subMin0 = srcT ! idxStart;
                subMax = srcT ! (idxEnd - 1);
                subMin = (if subMin0 \<le> 1 / 10 ^ 10 then 1 / 10 ^ 4 else subMin0);
                logMin = log 10 subMin;
                logMax = log 10 subMax;
                stp = (if cnt > 1 then (logMax - logMin) / real_of_int (cnt - 1) else 0)
            in snd (foldl (custom_pick srcT srcP srcD idxEnd cnt subMin logMin stp)
                      (idxStart, points) [0..<nat cnt]))"

text \<open>
  \<open>std::unique\<close> keeps the first element and then every element that is not equal to the
  last one kept.
\<close>

fun unique_from :: "DataPoint \<Rightarrow> DataPoint list \<Rightarrow> DataPoint list" where
  "unique_from kept [] = [kept]"
| "unique_from kept (x # xs) =
    (if \<bar>fst kept - fst x\<bar> < 1 / 10 ^ 9 then unique_from kept xs
     else kept # unique_from x xs)"

fun std_unique :: "DataPoint list \<Rightarrow> DataPoint list" where
  "std_unique [] = []"
| "std_unique (x # xs) = unique_from x xs"

text \<open>
  \<open>FittingCore::getLogSampledData\<close>, returning \<open>(outT, outP, outD)\<close>. \<open>std::sort\<close> orders the
  points by time; the model sorts stably, which fixes the order of points with equal
  times that \<open>std::sort\<close> leaves open (the sequence of times is the same either way).
\<close>

definition getLogSampledData ::
  "'mt FittingCore \<Rightarrow> real list \<Rightarrow> real list \<Rightarrow> real list \<Rightarrow> real list \<times> real list \<times> real list" where
  "getLogSampledData core srcT srcP srcD =
    (if srcT = [] then ([], [], [])
     else if \<not> m_isCustomSamplingEnabled core
     then (if length srcT \<le> 200 then (srcT, srcP, srcD)
           else (let points = std_unique (sort_key fst (default_points srcT srcP srcD))
                 in (map fst points, map (fst \<circ> snd) points, map (snd \<circ> snd) points)))
     else (if m_customIntervals core = [] then (srcT, srcP, srcD)
           else (let points = std_unique (sort_key fst
                                (foldl (interval_points srcT srcP srcD) [] (m_customIntervals core)))
                 in (map fst points, map (fst \<circ> snd) points, map (snd \<circ> snd) points))))"

section \<open>Levenberg-Marquardt driver\<close>

text \<open>The signals of \<open>FittingCore\<close>, in the order in which a session emits them.\<close>

datatype event =
  sigIterationUpdated real param_map "real list" "real list" "real list"
| sigProgress int
| sigFitFinished

text \<open>
  \<open>FittingCore::solveLinearSystem\<close>. The decomposition \<open>matA.ldlt().solve(vecB)\<close> belongs to
  the Eigen library and is a parameter \<open>ldlt\<close> of the model, giving the solution vector
  as a function of the index.
\<close>

definition solveLinearSystem ::
  "(real list list \<Rightarrow> real list \<Rightarrow> nat \<Rightarrow> real) \<Rightarrow> real list list \<Rightarrow> real list \<Rightarrow> real list" where
  "solveLinearSystem ldlt A b =
    (let n = length b in
     if n = 0 then []
     else (let matA = map (\<lambda>i. map (\<lambda>j. A ! i ! j) [0..<n]) [0..<n];
               x = ldlt matA b
           in map x [0..<n]))"

text \<open>
  The values that stay fixed during the loops of
  \<open>runLevenbergMarquardtOptimization\<close>: the evaluator behind the non-null
  \<open>m_modelManager\<close>, the solver, the polled stop flag, the arguments of the call, the
  indices of the free parameters and the resampled observations.
\<close>

record 'mt lm_context =
  cx_calc :: "'mt ModelManager"
  cx_ldlt :: "real list list \<Rightarrow> real list \<Rightarrow> nat \<Rightarrow> real"
  cx_stopRequested :: "nat \<Rightarrow> bool"
  cx_modelType :: 'mt
  cx_params :: "FitParameter list"
  cx_weight :: real
  cx_fitIndices :: "nat list"
  cx_fitT :: "real list"
  cx_fitP :: "real list"
  cx_fitD :: "real list"

text \<open>The variables that the loops update.\<close>

record lm_state =
  lambda :: real
  currentSSE :: real
  currentParamMap :: param_map
  residuals :: "real list"

text \<open>\<open>currentParamMap\<close> after the loop over \<open>params\<close> that inserts every name with its value.\<close>

definition initialParamMap :: "FitParameter list \<Rightarrow> param_map" where
  "initialParamMap ps = foldl (\<lambda>m p. m(name p \<mapsto> value' p)) Map.empty ps"

text \<open>The free parameters: \<open>isFit\<close> and not named \<open>LfD\<close>.\<close>

definition freeIndices :: "FitParameter list \<Rightarrow> nat list" where
  "freeIndices ps = filter (\<lambda>i. isFit (ps ! i) \<and> name (ps ! i) \<noteq> ''LfD'') [0..<length ps]"

text \<open>The normal equations: \<open>g\<close>, and \<open>H\<close> with its lower triangle mirrored.\<close>

definition gradient :: "real list list \<Rightarrow> real list \<Rightarrow> nat \<Rightarrow> real list" where
  "gradient J res nParams =
    map (\<lambda>i. foldl (\<lambda>s k. s + J ! k ! i * res ! k) 0 [0..<length res]) [0..<nParams]"

definition hessian :: "real list list \<Rightarrow> nat \<Rightarrow> nat \<Rightarrow> real list list" where
  "hessian J nRes nParams =
    map (\<lambda>i. map (\<lambda>j. if j \<le> i then foldl (\<lambda>s k. s + J ! k ! i * J ! k ! j) 0 [0..<nRes]
                       else foldl (\<lambda>s k. s + J ! k ! j * J ! k ! i) 0 [0..<nRes])
                [0..<nParams])
        [0..<nParams]"

text \<open>\<open>H_lm\<close>: the copy of \<open>H\<close> with \<open>lambda * (1 + |H[i][i]|)\<close> added on the diagonal.\<close>

definition damped :: "real list list \<Rightarrow> real \<Rightarrow> nat \<Rightarrow> real list list" where
  "damped H lam nParams =
    foldl (\<lambda>H_lm i. H_lm[i := (H_lm ! i)[i := H_lm ! i ! i + lam * (1 + \<bar>H ! i ! i\<bar>)]])
          H [0..<nParams]"

text \<open>
  One pass of the loop that builds the trial map, on the pair
  \<open>(currentParamMap, trialMap)\<close>: the read \<open>currentParamMap[pName]\<close> is the non-const
  \<open>operator[]\<close>; \<open>qMax\<close> and \<open>qMin\<close> are \<open>max\<close> and \<open>min\<close>.
\<close>

definition trial_update ::
  "FitParameter list \<Rightarrow> nat list \<Rightarrow> real list \<Rightarrow> param_map \<times> param_map \<Rightarrow> nat \<Rightarrow>
   param_map \<times> param_map" where
  "trial_update ps idxs delta maps i =
    (let pIdx = idxs ! i;
         pName = name (ps ! pIdx);
         cur = qmap_index (fst maps) pName;
         oldVal = qmap_value cur pName;
         isLog = (oldVal > 1 / 10 ^ 12 \<and> pName \<noteq> ''S'' \<and> pName \<noteq> ''nf'');
         newVal = (if isLog then 10 powr (log 10 oldVal + delta ! i) else oldVal + delta ! i);
         clamped = max (min' (ps ! pIdx)) (min newVal (max' (ps ! pIdx)))
     in (cur, (snd maps)(pName \<mapsto> clamped)))"

text \<open>
  The first half of the body of the inner damping search, for the \<open>H\<close> and \<open>g\<close> of the
  iteration: \<open>currentParamMap\<close> after the reads of the loop, paired with \<open>trialMap\<close>
  after the update of \<open>LfD\<close> and the two projections.
\<close>

definition trialMaps ::
  "'mt lm_context \<Rightarrow> real list list \<Rightarrow> real list \<Rightarrow> lm_state \<Rightarrow> param_map \<times> param_map" where
  "trialMaps cx H g st =
    (let nParams = length (cx_fitIndices cx);
         H_lm = damped H (lambda st) nParams;
         negG = map (\<lambda>i. - (g ! i)) [0..<nParams];
         delta = solveLinearSystem (cx_ldlt cx) H_lm negG;
         maps = foldl (trial_update (cx_params cx) (cx_fitIndices cx) delta)
                  (currentParamMap st, currentParamMap st) [0..<nParams]
     in (fst maps, constrain_omega (constrain_kf (updateDeps (snd maps)))))"

text \<open>\<open>newRes\<close>, the residuals of the trial map.\<close>

definition trialResiduals ::
  "'mt lm_context \<Rightarrow> real list list \<Rightarrow> real list \<Rightarrow> lm_state \<Rightarrow> real list" where
  "trialResiduals cx H g st =
    calculateResiduals (Some (cx_calc cx)) False (snd (trialMaps cx H g st)) (cx_modelType cx)
      (cx_weight cx) (cx_fitT cx) (cx_fitP cx) (cx_fitD cx)"

text \<open>\<open>newSSE\<close>, the sum of squares of the trial residuals.\<close>

definition trialSSE ::
  "'mt lm_context \<Rightarrow> real list list \<Rightarrow> real list \<Rightarrow> lm_state \<Rightarrow> real" where
  "trialSSE cx H g st = calculateSumSquaredError (trialResiduals cx H g st)"

text \<open>
  One try of the inner damping search, for the \<open>H\<close>, \<open>g\<close> and \<open>nRes\<close> of the iteration:
  whether the step was accepted, the state after it and the signals emitted.
\<close>

definition lm_try ::
  "'mt lm_context \<Rightarrow> real list list \<Rightarrow> real list \<Rightarrow> nat \<Rightarrow> lm_state \<Rightarrow>
   bool \<times> lm_state \<times> event list" where
  "lm_try cx H g nRes st =
    (let cur = fst (trialMaps cx H g st);
         trialMap = snd (trialMaps cx H g st);
         newRes = trialResiduals cx H g st;
         newSSE = trialSSE cx H g st
     in if newSSE < currentSSE st
        then (let iterCurve = cx_calc cx False (cx_modelType cx) trialMap None
              in (True,
                  \<lparr>lambda = lambda st / 10, currentSSE = newSSE, currentParamMap = trialMap,
                   residuals = newRes\<rparr>,
                  [sigIterationUpdated (newSSE / real nRes) trialMap
                     (fst iterCurve) (fst (snd iterCurve)) (snd (snd iterCurve))]))
        else (False, st\<lparr>lambda := lambda st * 10, currentParamMap := cur\<rparr>, []))"

text \<open>The inner loop \<open>for (tryIter = 0; tryIter < 5; ++tryIter)\<close>, left by \<open>break\<close> on acceptance.\<close>

function damping_search ::
  "'mt lm_context \<Rightarrow> real list list \<Rightarrow> real list \<Rightarrow> nat \<Rightarrow> nat \<Rightarrow> lm_state \<Rightarrow>
   bool \<times> lm_state \<times> event list" where
  "damping_search cx H g nRes tryIter st =
    (if tryIter < 5
     then (case lm_try cx H g nRes st of
             (True, st', evs) \<Rightarrow> (True, st', evs)
           | (False, st', evs) \<Rightarrow>
               (case damping_search cx H g nRes (Suc tryIter) st' of
                  (accepted, st'', evs') \<Rightarrow> (accepted, st'', evs @ evs')))
     else (False, st, []))"
  by pat_completeness auto
termination
  by (relation "measure (\<lambda>(cx, H, g, nRes, tryIter, st). 5 - tryIter)") auto

text \<open>
  The Jacobian and the normal equations of one outer iteration, as the pair \<open>(H, g)\<close>.
\<close>

definition normalEquations :: "'mt lm_context \<Rightarrow> lm_state \<Rightarrow> real list list \<times> real list" where
  "normalEquations cx st =
    (let nParams = length (cx_fitIndices cx);
         J = computeJacobian (Some (cx_calc cx)) False (currentParamMap st) (residuals st)
               (cx_fitIndices cx) (cx_modelType cx) (cx_params cx) (cx_weight cx)
               (cx_fitT cx) (cx_fitP cx) (cx_fitD cx);
         nRes = length (residuals st);
         g = gradient J (residuals st) nParams;
         H = hessian J nRes nParams
     in (H, g))"

text \<open>
  The outer loop \<open>for (iter = 0; iter < maxIter; ++iter)\<close> with \<open>maxIter = 50\<close>: the state
  at its exit and the signals emitted. \<open>iter * 100 / maxIter\<close> is an \<open>int\<close> division of
  non-negative numbers.
\<close>

function lm_loop :: "'mt lm_context \<Rightarrow> nat \<Rightarrow> lm_state \<Rightarrow> lm_state \<times> event list" where
  "lm_loop cx iter st =
    (if iter < 50
     then (if cx_stopRequested cx iter then (st, [])
           else if residuals st \<noteq> [] \<and> currentSSE st / real (length (residuals st)) < 3 / 10 ^ 3
           then (st, [])
           else
             (let H = fst (normalEquations cx st);
                  g = snd (normalEquations cx st);
                  nRes = length (residuals st)
              in (case damping_search cx H g nRes 0 st of
                    (stepAccepted, st', evs) \<Rightarrow>
                      if \<not> stepAccepted \<and> lambda st' > 10 ^ 10
                      then (st', sigProgress (int iter * 100 div 50) # evs)
                      else (case lm_loop cx (Suc iter) st' of
                              (st'', evs') \<Rightarrow>
                                (st'', sigProgress (int iter * 100 div 50) # evs @ evs')))))
     else (st, []))"
  by pat_completeness auto
termination
  by (relation "measure (\<lambda>(cx, iter, st). 50 - iter)") auto

text \<open>
  \<open>currentParamMap\<close> before the first residual evaluation: the initial map after the
  projections on \<open>kf\<close> and \<open>omega1\<close> and the computation of \<open>LfD\<close>.
\<close>

definition projectedInitialMap :: "FitParameter list \<Rightarrow> param_map" where
  "projectedInitialMap ps = updateDeps (constrain_omega (constrain_kf (initialParamMap ps)))"

text \<open>
  \<open>FittingCore::runLevenbergMarquardtOptimization\<close>: the signals the call emits, or \<open>None\<close>
  when it dereferences a null \<open>m_modelManager\<close>. The evaluator runs at low precision
  during the loop and at high precision for the final curve. A mean over an empty
  residual vector (a division by zero in the source) is \<open>x / 0 = 0\<close> here.
\<close>

definition runLevenbergMarquardtOptimization ::
  "'mt FittingCore \<Rightarrow> (real list list \<Rightarrow> real list \<Rightarrow> nat \<Rightarrow> real) \<Rightarrow> 'mt \<Rightarrow>
   FitParameter list \<Rightarrow> real \<Rightarrow> event list option" where
  "runLevenbergMarquardtOptimization core solver mt ps w =
    (let idxs = freeIndices ps;
         nParams = length idxs
     in if nParams = 0 then Some [sigFitFinished]
        else
          (case m_modelManager core of
             None \<Rightarrow> None
           | Some ev \<Rightarrow>
              (let sampled = getLogSampledData core (m_obsTime core) (m_obsDeltaP core)
                               (m_obsDerivative core);
                   cx = \<lparr>cx_calc = ev, cx_ldlt = solver, cx_stopRequested = m_stopRequested core,
                         cx_modelType = mt, cx_params = ps, cx_weight = w, cx_fitIndices = idxs,
                         cx_fitT = fst sampled, cx_fitP = fst (snd sampled), cx_fitD = snd (snd sampled)\<rparr>;
                   startMap = projectedInitialMap ps;
                   res0 = calculateResiduals (Some ev) False startMap mt w
                            (cx_fitT cx) (cx_fitP cx) (cx_fitD cx);
                   sse0 = calculateSumSquaredError res0;
                   curve = ev False mt startMap None;
                   st0 = \<lparr>lambda = 0.01, currentSSE = sse0, currentParamMap = startMap,
                          residuals = res0\<rparr>
               in (case lm_loop cx 0 st0 of
                     (st, evs) \<Rightarrow>
                       (let finalCurve = ev True mt (currentParamMap st) None
                        in Some (sigIterationUpdated (sse0 / real (length res0)) startMap
                                   (fst curve) (fst (snd curve)) (snd (snd curve))
                                 # evs
                                 @ [sigIterationUpdated
                                      (currentSSE st / real (length (residuals st)))
                                      (currentParamMap st)
                                      (fst finalCurve) (fst (snd finalCurve))
                                      (snd (snd finalCurve))]))))))"

text \<open>\<open>FittingCore::runOptimizationTask\<close>.\<close>

definition runOptimizationTask ::
  "'mt FittingCore \<Rightarrow> (real list list \<Rightarrow> real list \<Rightarrow> nat \<Rightarrow> real) \<Rightarrow> 'mt \<Rightarrow>
   FitParameter list \<Rightarrow> real \<Rightarrow> event list option" where
  "runOptimizationTask core solver mt fitParams w =
    runLevenbergMarquardtOptimization core solver mt fitParams w"

text \<open>
  \<open>FittingCore::startFit\<close> together with the connection made in the constructor: the call
  is ignored while the watcher is running; otherwise the task runs, and when it has
  returned the watcher's \<open>finished\<close> signal is forwarded to \<open>sigFitFinished\<close>.
\<close>

definition startFit ::
  "bool \<Rightarrow> 'mt FittingCore \<Rightarrow> (real list list \<Rightarrow> real list \<Rightarrow> nat \<Rightarrow> real) \<Rightarrow> 'mt \<Rightarrow>
   FitParameter list \<Rightarrow> real \<Rightarrow> event list option" where
  "startFit isRunning core solver mt ps w =
    (if isRunning then Some []
     else map_option (\<lambda>evs. evs @ [sigFitFinished]) (runOptimizationTask core solver mt ps w))"

section \<open>Horner regressor\<close>

text \<open>
  The first loop of \<open>FittingChart::calculateHornerPressure\<close>: the vectors \<open>X\<close> and \<open>Y\<close>,
  which grow together, as one list of pairs.
\<close>

definition horner_samples :: "real list \<Rightarrow> real list \<Rightarrow> real \<Rightarrow> (real \<times> real) list" where
  "horner_samples obsT obsRawP producingTime =
    concat (map (\<lambda>i. let dt = obsT ! i in
                      if dt > 1 / 10 ^ 5 \<and> i < length obsRawP
                      then (let val = (producingTime + dt) / dt
                            in if val > 0 then [(log 10 val, obsRawP ! i)] else [])
                      else [])
                [0..<length obsT])"

text \<open>
  \<open>int fitCount = nPoints * 0.3\<close> truncates the product; the model takes the floor of the
  exact product, which is the same integer for every \<open>int\<close> count (the double product of
  a multiple of ten rounds to the exact integer, and every other product is at least a
  tenth away from an integer).
\<close>

definition horner_fitCount :: "nat \<Rightarrow> nat" where
  "horner_fitCount nPoints =
    (let fitCount = nat \<lfloor>real nPoints * 0.3\<rfloor>
     in if fitCount < 3 then nPoints else fitCount)"

text \<open>The summation loop, on \<open>(sumX, sumY, sumXY, sumXX, count)\<close>.\<close>

definition horner_accumulate ::
  "real list \<Rightarrow> real list \<Rightarrow> real \<times> real \<times> real \<times> real \<times> nat \<Rightarrow> nat \<Rightarrow>
   real \<times> real \<times> real \<times> real \<times> nat" where
  "horner_accumulate X Y acc i =
    (case acc of (sumX, sumY, sumXY, sumXX, cnt) \<Rightarrow>
       (sumX + X ! i, sumY + Y ! i, sumXY + X ! i * Y ! i, sumXX + X ! i * X ! i, cnt + 1))"

definition calculateHornerPressure :: "real list \<Rightarrow> real list \<Rightarrow> real \<Rightarrow> real" where
  "calculateHornerPressure obsT obsRawP producingTime =
    (if obsT = [] \<or> obsRawP = [] \<or> producingTime \<le> 0 then 0
     else
       (let XY = horner_samples obsT obsRawP producingTime;
            X = map fst XY;
            Y = map snd XY
        in if length X < 5 then 0
           else
             (let nPoints = length X;
                  fitCount = horner_fitCount nPoints
              in (case foldl (horner_accumulate X Y) (0, 0, 0, 0, 0)
                         [nPoints - fitCount..<nPoints] of
                    (sumX, sumY, sumXY, sumXX, cnt) \<Rightarrow>
                      if \<bar>real cnt * sumXX - sumX * sumX\<bar> < 1 / 10 ^ 9 then 0
                      else (let slope = (real cnt * sumXY - sumX * sumY)
                                        / (real cnt * sumXX - sumX * sumX);
                                intercept = (sumY - slope * sumX) / real cnt
                            in intercept)))))"

section \<open>The rules of the specification, for comparison\<close>

text \<open>
  The per-column rule of the Jacobian engine in the words of the specification: the
  mode \<open>is_log\<close>, the step \<open>h\<close>, the perturbed values, invariant I4 (the derived \<open>LfD\<close>)
  and the perturbed map, to which I4 is applied when the parameter is \<open>L\<close> or \<open>Lf\<close>.
\<close>

definition spec_is_log :: "real \<Rightarrow> string \<Rightarrow> bool" where
  "spec_is_log v p = (v > 1 / 10 ^ 12 \<and> p \<notin> {''S'', ''nf''})"

definition spec_h :: "real \<Rightarrow> string \<Rightarrow> real" where
  "spec_h v p = (if spec_is_log v p then 0.01 else 1 / 10 ^ 4)"

definition spec_v_plus :: "real \<Rightarrow> string \<Rightarrow> real" where
  "spec_v_plus v p = (if spec_is_log v p then 10 powr (log 10 v + 0.01) else v + 1 / 10 ^ 4)"

definition spec_v_minus :: "real \<Rightarrow> string \<Rightarrow> real" where
  "spec_v_minus v p = (if spec_is_log v p then 10 powr (log 10 v - 0.01) else v - 1 / 10 ^ 4)"

definition spec_I4 :: "param_map \<Rightarrow> param_map" where
  "spec_I4 m =
    (if m ''L'' \<noteq> None \<and> m ''Lf'' \<noteq> None \<and> the (m ''L'') > 1 / 10 ^ 9
     then m(''LfD'' \<mapsto> the (m ''Lf'') / the (m ''L'')) else m)"

definition spec_perturbed :: "param_map \<Rightarrow> string \<Rightarrow> real \<Rightarrow> param_map" where
  "spec_perturbed m p v = (if p \<in> {''L'', ''Lf''} then spec_I4 (m(p \<mapsto> v)) else m(p \<mapsto> v))"

section \<open>Example inputs\<close>

text \<open>
  A skin parameter, and an evaluator over the model type \<^typ>\<open>unit\<close> whose number of
  pressure values depends on the skin.
\<close>

definition ex_S :: FitParameter where
  "ex_S = \<lparr>name = ''S'', displayName = ''skin'', value' = 0, isFit = True, min' = - 5,
           max' = 5, isVisible = True, step = 0.1\<rparr>"

definition ex_eval :: "unit ModelManager" where
  "ex_eval hp mt m g = ([], (if qmap_value m ''S'' > 0 then [2, 2] else [3]), [])"

text \<open>An evaluator whose single pressure value is the skin plus three.\<close>

definition ex_eval_skin :: "unit ModelManager" where
  "ex_eval_skin hp mt m g = ([], [qmap_value m ''S'' + 3], [])"

text \<open>An evaluator that returns no values at all.\<close>

definition ex_eval_none :: "unit ModelManager" where
  "ex_eval_none hp mt m g = ([], [], [])"

text \<open>
  A context with the single free parameter \<open>ex_S\<close>, one resampled observation, a solver
  that returns the zero vector and no stop request; and a state with a large damping
  parameter.
\<close>

definition ex_cx :: "unit lm_context" where
  "ex_cx = \<lparr>cx_calc = ex_eval_none, cx_ldlt = (\<lambda>A b i. 0), cx_stopRequested = (\<lambda>i. False),
            cx_modelType = (), cx_params = [ex_S], cx_weight = 1, cx_fitIndices = [0],
            cx_fitT = [1], cx_fitP = [1], cx_fitD = []\<rparr>"

definition ex_st :: lm_state where
  "ex_st = \<lparr>lambda = 10 ^ 6, currentSSE = 0, currentParamMap = [''S'' \<mapsto> 0], residuals = []\<rparr>"

text \<open>
  The same context with the evaluator \<open>ex_eval_skin\<close>, and the state of the driver at
  skin \<open>0\<close>, where the single residual is \<open>ln 1 - ln 3\<close>.
\<close>

definition ex_cx_skin :: "unit lm_context" where
  "ex_cx_skin = ex_cx\<lparr>cx_calc := ex_eval_skin\<rparr>"

definition ex_st_skin :: lm_state where
  "ex_st_skin = \<lparr>lambda = 0.01, currentSSE = (ln 3)\<^sup>2, currentParamMap = [''S'' \<mapsto> 0],
                 residuals = [- ln 3]\<rparr>"

section \<open>Snapshots and their bounds\<close>

text \<open>
  The property of claim C1 for the parameter map of one snapshot: every free parameter
  (\<open>isFit\<close>, not named \<open>LfD\<close>) has a value within its bounds.
\<close>

definition free_within_bounds :: "FitParameter list \<Rightarrow> param_map \<Rightarrow> bool" where
  "free_within_bounds ps m =
    (\<forall>p \<in> set ps. isFit p \<and> name p \<noteq> ''LfD'' \<longrightarrow>
       (\<exists>v. m (name p) = Some v \<and> min' p \<le> v \<and> v \<le> max' p))"

text \<open>
  The weaker property that the driver establishes for a trial map: a free parameter is
  within its bounds, or it is \<open>kf\<close> (\<open>omega1\<close>) and was set to \<open>1.01\<close> times \<open>km\<close>
  (\<open>omega2\<close>) by the projection that follows the clamping.
\<close>

definition free_within_bounds_or_projected :: "FitParameter list \<Rightarrow> param_map \<Rightarrow> bool" where
  "free_within_bounds_or_projected ps m =
    (\<forall>p \<in> set ps. isFit p \<and> name p \<noteq> ''LfD'' \<longrightarrow>
       (\<exists>v. m (name p) = Some v \<and>
          (min' p \<le> v \<and> v \<le> max' p
           \<or> name p = ''kf'' \<and> m ''km'' \<noteq> None \<and> v = qmap_value m ''km'' * 1.01
           \<or> name p = ''omega1'' \<and> m ''omega2'' \<noteq> None \<and> v = qmap_value m ''omega2'' * 1.01)))"

text \<open>The parameter maps of the \<open>sigIterationUpdated\<close> signals of a trace, in order.\<close>

fun snapshotMaps :: "event list \<Rightarrow> param_map list" where
  "snapshotMaps [] = []"
| "snapshotMaps (sigIterationUpdated mse m ct cp cd # evs) = m # snapshotMaps evs"
| "snapshotMaps (sigProgress n # evs) = snapshotMaps evs"
| "snapshotMaps (sigFitFinished # evs) = snapshotMaps evs"

text \<open>
  The invariant of \<open>currentParamMap\<close> during a session: it holds every parameter name, and
  it is the projected initial map or a map bounded as above.
\<close>

definition lm_invariant :: "FitParameter list \<Rightarrow> param_map \<Rightarrow> bool" where
  "lm_invariant ps m =
    (name ` set ps \<subseteq> dom m \<and>
     (m = projectedInitialMap ps \<or> free_within_bounds_or_projected ps m))"

subsection \<open>Example sessions\<close>

text \<open>
  Three parameters: \<open>kf\<close> starts within its bounds but not above \<open>km\<close>, and \<open>C\<close> starts
  outside its bounds. A core whose stop flag is already set at the first poll, and a
  core with one observation and the evaluator \<open>ex_eval_skin\<close>; for the latter the context
  of the driver with a solver that always returns the step \<open>-10\<close>, and its first state.
\<close>

definition ex_kf :: FitParameter where
  "ex_kf = \<lparr>name = ''kf'', displayName = ''inner permeability'', value' = 1, isFit = True,
            min' = 0, max' = 1.5, isVisible = True, step = 0.1\<rparr>"

definition ex_km :: FitParameter where
  "ex_km = \<lparr>name = ''km'', displayName = ''matrix permeability'', value' = 2, isFit = False,
            min' = 0, max' = 10, isVisible = True, step = 0.1\<rparr>"

definition ex_C :: FitParameter where
  "ex_C = \<lparr>name = ''C'', displayName = ''wellbore storage'', value' = 5, isFit = True,
           min' = 0, max' = 1, isVisible = True, step = 0.1\<rparr>"

definition ex_core_stopped :: "unit FittingCore" where
  "ex_core_stopped = \<lparr>m_modelManager = Some ex_eval_none, m_obsTime = [], m_obsDeltaP = [],
     m_obsDerivative = [], m_customIntervals = [], m_isCustomSamplingEnabled = False,
     m_stopRequested = (\<lambda>i. True)\<rparr>"

definition ex_core_skin :: "unit FittingCore" where
  "ex_core_skin = \<lparr>m_modelManager = Some ex_eval_skin, m_obsTime = [1], m_obsDeltaP = [1],
     m_obsDerivative = [], m_customIntervals = [], m_isCustomSamplingEnabled = False,
     m_stopRequested = (\<lambda>i. False)\<rparr>"

definition ex_cx_run :: "unit lm_context" where
  "ex_cx_run = \<lparr>cx_calc = ex_eval_skin, cx_ldlt = (\<lambda>A b i. - 10), cx_stopRequested = (\<lambda>i. False),
     cx_modelType = (), cx_params = [ex_S], cx_weight = 1, cx_fitIndices = [0],
     cx_fitT = [1], cx_fitP = [1], cx_fitD = []\<rparr>"

definition ex_st_run :: lm_state where
  "ex_st_run = \<lparr>lambda = 1 / 100, currentSSE = (ln 3)\<^sup>2, currentParamMap = [''S'' \<mapsto> 0],
                residuals = [- ln 3]\<rparr>"

text \<open>
  A context whose solver divides each right-hand side by the diagonal entry of the matrix
  it is given, so that its step depends on the damping; and a state with \<open>lambda = 1\<close>.
\<close>

definition ex_cx_diag :: "unit lm_context" where
  "ex_cx_diag = \<lparr>cx_calc = ex_eval_skin, cx_ldlt = (\<lambda>A b i. b ! i / A ! i ! i),
     cx_stopRequested = (\<lambda>i. False), cx_modelType = (), cx_params = [ex_S], cx_weight = 1,
     cx_fitIndices = [0], cx_fitT = [1], cx_fitP = [1], cx_fitD = []\<rparr>"

definition ex_st_diag :: lm_state where
  "ex_st_diag = \<lparr>lambda = 1, currentSSE = (ln 3)\<^sup>2, currentParamMap = [''S'' \<mapsto> 0],
                 residuals = [- ln 3]\<rparr>"

section \<open>The resampler's contract\<close>

text \<open>
  A time sequence is strictly ascending with no duplicates within \<open>1e-9\<close> when every
  earlier element is below every later one and not within \<open>1e-9\<close> of it.
\<close>

definition strictly_ascending_apart :: "real list \<Rightarrow> bool" where
  "strictly_ascending_apart ts = sorted_wrt (\<lambda>a b. a < b \<and> \<not> \<bar>a - b\<bar> < 1 / 10 ^ 9) ts"

text \<open>
  The passthrough cases of the resampler: the default mode with at most 200 input
  points, and the custom mode with an empty interval list.
\<close>

definition is_passthrough :: "'mt FittingCore \<Rightarrow> real list \<Rightarrow> bool" where
  "is_passthrough core srcT =
    (if m_isCustomSamplingEnabled core then m_customIntervals core = [] else length srcT \<le> 200)"

subsection \<open>Example sampling plans\<close>

text \<open>
  A core in the default sampling mode, and one with the custom plan of a single interval
  \<open>[1, 4]\<close> with two points.
\<close>

definition ex_core_default :: "unit FittingCore" where
  "ex_core_default = \<lparr>m_modelManager = None, m_obsTime = [], m_obsDeltaP = [],
     m_obsDerivative = [], m_customIntervals = [], m_isCustomSamplingEnabled = False,
     m_stopRequested = (\<lambda>i. False)\<rparr>"

definition ex_core_custom :: "unit FittingCore" where
  "ex_core_custom = \<lparr>m_modelManager = None, m_obsTime = [], m_obsDeltaP = [],
     m_obsDerivative = [],
     m_customIntervals = [\<lparr>tStart = 1, tEnd = 4, count = 2\<rparr>],
     m_isCustomSamplingEnabled = True, m_stopRequested = (\<lambda>i. False)\<rparr>"

section \<open>The Horner regression of the specification\<close>

text \<open>
  Ordinary least squares on a list of points \<open>(x, y)\<close>: the denominator
  \<open>n \<Sigma>x\<^sup>2 - (\<Sigma>x)\<^sup>2\<close> and the y-intercept; and the number of tail points of the
  specification, \<open>max(\<lfloor>0.3 N\<rfloor>, 3)\<close>.
\<close>

definition ols_denominator :: "(real \<times> real) list \<Rightarrow> real" where
  "ols_denominator pts =
    real (length pts) * sum_list (map (\<lambda>p. fst p * fst p) pts)
      - sum_list (map fst pts) * sum_list (map fst pts)"

definition ols_intercept :: "(real \<times> real) list \<Rightarrow> real" where
  "ols_intercept pts =
    (let slope = (real (length pts) * sum_list (map (\<lambda>p. fst p * snd p) pts)
                   - sum_list (map fst pts) * sum_list (map snd pts)) / ols_denominator pts
     in (sum_list (map snd pts) - slope * sum_list (map fst pts)) / real (length pts))"

definition spec_fit_count :: "nat \<Rightarrow> nat" where
  "spec_fit_count N = max (nat \<lfloor>0.3 * real N\<rfloor>) 3"

subsection \<open>Example buildup data\<close>

text \<open>
  Buildup data with producing time 9 whose Horner abscissas are whole numbers: five
  points, and ten points of which the last three lie on the line \<open>y = x + 1\<close>.
\<close>

definition ex_shut_in_times :: "real list" where
  "ex_shut_in_times = [1 / 11111, 1 / 1111, 1 / 111, 1 / 11, 1]"

definition ex_pressures :: "real list" where
  "ex_pressures = [0, 0, 4, 3, 2]"

definition ex_long_times :: "real list" where
  "ex_long_times = replicate 7 (1 / 11111) @ [1 / 111, 1 / 11, 1]"

definition ex_long_pressures :: "real list" where
  "ex_long_pressures = replicate 7 7 @ [4, 3, 2]"

text \<open>The times \<open>1, 2, ..., 10000\<close>.\<close>

definition ex_times :: "real list" where
  "ex_times = map real [1..<10001]"

text \<open>
  A certificate for the picks of the default mode on the times \<open>1, ..., 10000\<close>. For the
  targets \<open>i = 1, ..., 199\<close> in order it lists the index \<open>k\<close> that the scan selects and
  two bounds \<open>L\<close> and \<open>H\<close>, in units of \<open>1e-12\<close>, of the target time \<open>10^(4 i / 199)\<close>. The
  check below follows the loop: with \<open>A\<close> and \<open>B\<close> bounds of the ratio \<open>10^(4/199)\<close> in
  units of \<open>1e-15\<close>, the bounds of a target follow from those of the previous one; the
  cursor does not move back; and the target lies within half a unit of the time \<open>k + 1\<close>
  of the selected index.
\<close>

fun certified_picks ::
  "nat \<Rightarrow> nat \<Rightarrow> nat \<Rightarrow> nat \<Rightarrow> nat \<Rightarrow> (nat \<times> nat \<times> nat) list \<Rightarrow> bool" where
  "certified_picks A B L H c [] = True"
| "certified_picks A B L H c ((k, L', H') # cert) =
    (L' * 10 ^ 15 \<le> L * A \<and> H * B \<le> H' * 10 ^ 15 \<and> c \<le> k \<and> k < 10000
     \<and> (2 * k + 1) * 10 ^ 12 < 2 * L' \<and> 2 * H' \<le> (2 * k + 3) * 10 ^ 12
     \<and> certified_picks A B L' H' k cert)"

definition ex_certificate :: "(nat \<times> nat \<times> nat) list" where
  "ex_certificate =
    [(0, 1047370897959, 1047370897960), (0, 1096985797891, 1096985797893),
     (0, 1148951000185, 1148951000188), (0, 1203377840775, 1203377840779),
     (0, 1260382929677, 1260382929682), (0, 1320088400828, 1320088400834),
     (0, 1382622173761, 1382622173768), (0, 1448118227670, 1448118227679),
     (1, 1516716888466, 1516716888476), (1, 1588565129422, 1588565129434),
     (1, 1663816886069, 1663816886083), (1, 1742633386002, 1742633386017),
     (1, 1825183494311, 1825183494327), (1, 1911644075377, 1911644075395),
     (1, 2002200371806, 2002200371826), (1, 2097046401313, 2097046401335),
     (1, 2196385372405, 2196385372429), (1, 2300430119760, 2300430119786),
     (1, 2409403560225, 2409403560254), (2, 2523539170419, 2523539170450),
     (2, 2643081486957, 2643081486991), (2, 2768286630374, 2768286630410),
     (2, 2899422853863, 2899422853902), (2, 3036771118014, 3036771118056),
     (2, 3180625692771, 3180625692816), (2, 3331294787910, 3331294787958),
     (2, 3489101213380, 3489101213432), (3, 3654383070929, 3654383070984),
     (3, 3827494478486, 3827494478545), (3, 4008806328866, 4008806328929),
     (3, 4198707084409, 4198707084476), (3, 4397603609266, 4397603609337),
     (4, 4605922041106, 4605922041182), (4, 4824108704124, 4824108704205),
     (4, 5052631065292, 5052631065378), (4, 5291978735912, 5291978736003),
     (5, 5542664520614, 5542664520710), (5, 5805225516043, 5805225516145),
     (5, 6080224261595, 6080224261702), (5, 6368249944661, 6368249944774),
     (6, 6669919662969, 6669919663089), (6, 6985879746721, 6985879746847),
     (6, 7316807143359, 7316807143492), (7, 7663410867936, 7663410868076),
     (7, 8026433522182, 8026433522329), (7, 8406652885539, 8406652885694),
     (8, 8804883581560, 8804883581723), (8, 9221978823246, 9221978823418),
     (9, 9658832241066, 9658832241247), (9, 10116379797564, 10116379797755),
     (10, 10595601792673, 10595601792874), (10, 11097524964012, 11097524964224),
     (11, 11623224686684, 11623224686907), (11, 12173827277276, 12173827277511),
     (12, 12750512407003, 12750512407250), (12, 13354515629165, 13354515629425),
     (13, 13987131026332, 13987131026605), (14, 14649713982925, 14649713983212),
     (14, 15343684089145, 15343684089446), (15, 16070528182453, 16070528182770),
     (16, 16831803533138, 16831803533471), (17, 17629141180779, 17629141181129),
     (17, 18464249428766, 18464249429133), (18, 19338917504353, 19338917504739),
     (19, 20255019392097, 20255019392503), (20, 21214517848886, 21214517849312),
     (21, 22219468609164, 22219468609611), (22, 23272024789361, 23272024789831),
     (23, 24374441500967, 24374441501460), (25, 25529080682127, 25529080682645),
     (26, 26738416158118, 26738416158662), (27, 28005038941541, 28005038942112),
     (28, 29331662783591, 29331662784190), (30, 30721129988293, 30721129988921),
     (31, 32176417502167, 32176417502826), (33, 33700643292362, 33700643293054),
     (34, 35297073026932, 35297073027658), (36, 36969127071558, 36969127072319),
     (38, 38720387817714, 38720387818512), (40, 40554607357977, 40554607358814),
     (41, 42475715524917, 42475715525794), (43, 44487828310802, 44487828311722),
     (46, 46595256686150, 46595256687115), (48, 48802515836023, 48802515837035),
     (50, 51114334833855, 51114334834916), (53, 53535666773534, 53535666774646),
     (55, 56071699381454, 56071699382619), (58, 58727866131265, 58727866132487),
     (61, 61509857885145, 61509857886426), (63, 64423635086522, 64423635087865),
     (66, 67475440530382, 67475440531790), (70, 70671812738515, 70671812739991),
     (73, 74019599968360, 74019599969907), (77, 77525974885460, 77525974887081),
     (80, 81198449930965, 81198449932664), (84, 85044893417110, 85044893418890),
     (88, 89073546385144, 89073546387009), (92, 93293040261840, 93293040263795),
     (97, 97712415352410, 97712415354459), (101, 102341140209440, 102341140211587),
     (106, 107189131919355, 107189131921604), (111, 112266777349868, 112266777352225),
     (117, 117584955403944, 117584955406414), (122, 123155060327950, 123155060330538),
     (128, 128989026123935, 128989026126646), (134, 135099352118340, 135099352121181),
     (140, 141499129741925, 141499129744902), (147, 148202070578280, 148202070581399),
     (154, 155222535741022, 155222535744290), (162, 162575566642616, 162575566646040),
     (169, 170276917220742, 170276917224330), (177, 178343087691255, 178343087695014),
     (186, 186791359900050, 186791359903988), (195, 195639834349581, 195639834353707),
     (204, 204907468979358, 204907468983681), (214, 214614119783508, 214614119788037),
     (224, 224780583352429, 224780583357174), (234, 235428641429682, 235428641434653),
     (246, 246581107579579, 246581107584786), (257, 258261876065459, 258261876070914),
     (269, 270495973043371, 270495973049086), (282, 283309610180850, 283309610186837),
     (296, 296730240815658, 296730240821930), (310, 310786618774819, 310786618781389),
     (325, 325508859979963, 325508859986845), (340, 340928506970970, 340928506978179),
     (356, 357078596486159, 357078596493710), (373, 373993730243808, 373993730251718),
     (391, 391710149076661, 391710149084947), (409, 410265810578252, 410265810586931),
     (429, 429700470427405, 429700470436496), (449, 450055767565148, 450055767574671),
     (470, 471375313406538, 471375313416513), (493, 493704785278522, 493704785288971),
     (516, 517092024284042, 517092024294988), (541, 541587137802046, 541587137813512),
     (566, 567242606843016, 567242606855027), (593, 594113398490028, 594113398502609),
     (621, 622257083666240, 622257083679419), (651, 651733960481137, 651733960494942),
     (682, 682607183419796, 682607183434257), (714, 714942898651962, 714942898667109),
     (748, 748810385750836, 748810385766703), (783, 784282206125214, 784282206141834),
     (820, 821434358482983, 821434358500392), (859, 860346441659065, 860346441677301),
     (900, 901101825156671, 901101825175773), (943, 943787827767240, 943787827787249),
     (987, 988495904651771, 988495904672730), (1034, 1035321843284363, 1035321843306317),
     (1083, 1084365968677775, 1084365968700771), (1135, 1135733358330708, 1135733358354796),
     (1189, 1189534067357334, 1189534067382565), (1245, 1245883364281406, 1245883364307835),
     (1304, 1304901978000155, 1304901978027838), (1366, 1366716356447083, 1366716356476080),
     (1430, 1431458937507847, 1431458937538220), (1498, 1499268432769672, 1499268432801486),
     (1569, 1570290124712227, 1570290124745550), (1644, 1644676177976700, 1644676178011604),
     (1722, 1722585965379970, 1722585965416530), (1803, 1804186409372363, 1804186409410658),
     (1889, 1889652339670565, 1889652339710677), (1978, 1979166867831933, 1979166867873948),
     (2072, 2072921779572721, 2072921779616730), (2170, 2171117945670779, 2171117945716876),
     (2273, 2273965752333078, 2273965752381361), (2381, 2381685551950129, 2381685552000703),
     (2494, 2494508135203052, 2494508135256025), (2612, 2612675225534771, 2612675225590257),
     (2735, 2736439997044759, 2736439997102877), (2865, 2866067616916921, 2866067616977796),
     (3001, 3001835813542773, 3001835813606536), (3143, 3144035471557127, 3144035471623914),
     (3292, 3292971255061147, 3292971255131102), (3448, 3448962260368047, 3448962260441320),
     (3611, 3612342699669932, 3612342699746680), (3782, 3783462617090556, 3783462617170945),
     (3962, 3962688638658142, 3962688638742344), (4149, 4150404757805084, 4150404757893280),
     (4346, 4347013158077480, 4347013158169859), (4552, 4552935074817150, 4552935074913910),
     (4768, 4768611697662309, 4768611697763658), (4994, 4994505115800505, 4994505115906660),
     (5230, 5231099307999036, 5231099308110226), (5478, 5478901179534002, 5478901179650466),
     (5737, 5738441648239611, 5738441648361599), (6009, 6010276782004621, 6010276782132395),
     (6294, 6294988990153007, 6294988990286841), (6592, 6593188271261400, 6593188271401581),
     (6905, 6905513520086759, 6905513520233588), (7232, 7232633896404384, 7232633896558176),
     (7574, 7575250258689008, 7575250258850093), (7933, 7934096665710654, 7934096665879378),
     (8309, 8309941949262437, 8309941949439163), (8703, 8703591361389892, 8703591361574999),
     (9115, 9115888299651034, 9115888299844919), (9547, 9547716114103538, 9547716114306617),
     (9999, 9999999999890523, 10000000000103233)]"

text \<open>The indices that the 200 targets select, in order.\<close>

definition ex_picks :: "nat list" where
  "ex_picks = 0 # map fst ex_certificate"

section \<open>Properties of the residual builder\<close>


lemma length_calculateResiduals:
  "length (calculateResiduals (Some calc) hp params modelType weight t obsP obsD) =
    (if t = [] then 0
     else min (length obsP) (length (fst (snd (calc hp modelType params (Some t))))) +
          min (min (length obsD) (length (snd (snd (calc hp modelType params (Some t))))))
              (min (length obsP) (length (fst (snd (calc hp modelType params (Some t)))))))"
  by (simp add: calculateResiduals_def Let_def)

text \<open>
  Claim C6, as stated, fails: with weight 1 and no derivative observations, an evaluator
  that returns no pressure values for a one-point grid yields an empty residual vector,
  although there is one pressure-difference sample.
\<close>

theorem C6_residual_length_counterexample:
  "length (calculateResiduals (Some (\<lambda>hp (mt::unit) ps g. ([], [], []))) False Map.empty () 1
      [1] [1] []) \<noteq> length [1::real]"
  by (simp add: calculateResiduals_def)

text \<open>
  Claim C6, amended: with weight 1 and no derivative observations, on a non-empty time
  grid and with an evaluator bound, the residual vector has as many entries as the
  smaller of the number of pressure-difference samples and the number of pressure values
  that the evaluator returns; so it has as many entries as there are samples whenever the
  evaluator returns at least that many pressure values.
\<close>

theorem C6_residual_length:
  assumes "t \<noteq> []"
  shows "length (calculateResiduals (Some calc) hp params modelType 1 t obsP []) =
           min (length obsP) (length (fst (snd (calc hp modelType params (Some t)))))
       \<and> (length obsP \<le> length (fst (snd (calc hp modelType params (Some t)))) \<longrightarrow>
           length (calculateResiduals (Some calc) hp params modelType 1 t obsP []) = length obsP)"
  using assms by (simp add: length_calculateResiduals)

text \<open>
  An evaluator that returns one pressure value: two samples give one residual, one sample
  gives one residual.
\<close>

theorem C6_residual_length_witness:
  "[1::real] \<noteq> []
   \<and> length (calculateResiduals (Some (\<lambda>hp (mt::unit) ps g. ([1], [3], [4]))) False Map.empty () 1
        [1] [2, 2] []) = 1
   \<and> length [2::real] \<le> length (fst (snd ((\<lambda>hp (mt::unit) ps g. ([1::real], [3::real], [4::real]))
        False () Map.empty (Some [1]))))
   \<and> length (calculateResiduals (Some (\<lambda>hp (mt::unit) ps g. ([1], [3], [4]))) False Map.empty () 1
        [1] [2] []) = length [2::real]"
  using C6_residual_length [of "[1]" "\<lambda>hp (mt::unit) ps g. ([1], [3], [4])" False Map.empty "()" "[2, 2]"]
    C6_residual_length [of "[1]" "\<lambda>hp (mt::unit) ps g. ([1], [3], [4])" False Map.empty "()" "[2]"]
  by simp


section \<open>Properties of the Jacobian engine\<close>

lemma updateDeps_spec_I4: "updateDeps m = spec_I4 m"
  by (auto simp: updateDeps_def spec_I4_def qmap_contains_def qmap_value_def)

lemma computeColumn_eq:
  "computeColumn mm hp pm base idxs mt ps w t obsP obsD j =
    (let p = name (ps ! (idxs ! j));
         v = qmap_value pm p;
         r_plus = calculateResiduals mm hp (spec_perturbed pm p (spec_v_plus v p)) mt w t obsP obsD;
         r_minus = calculateResiduals mm hp (spec_perturbed pm p (spec_v_minus v p)) mt w t obsP obsD
     in if length r_plus = length base \<and> length r_minus = length base
        then map (\<lambda>i. (r_plus ! i - r_minus ! i) / (2 * spec_h v p)) [0..<length base]
        else replicate (length base) 0)"
proof -
  define p where "p = name (ps ! (idxs ! j))"
  define v where "v = qmap_value pm p"
  show ?thesis
  proof (cases "v > 1 / 10 ^ 12 \<and> p \<noteq> ''S'' \<and> p \<noteq> ''nf''")
    case True
    then have il: "spec_is_log v p" by (simp add: spec_is_log_def)
    show ?thesis
      unfolding computeColumn_def Let_def p_def[symmetric] v_def[symmetric]
        spec_perturbed_def spec_v_plus_def spec_v_minus_def spec_h_def updateDeps_spec_I4
      using True il by (cases "p = ''L'' \<or> p = ''Lf''") auto
  next
    case False
    then have il: "\<not> spec_is_log v p" by (auto simp add: spec_is_log_def)
    show ?thesis
      unfolding computeColumn_def Let_def p_def[symmetric] v_def[symmetric]
        spec_perturbed_def spec_v_plus_def spec_v_minus_def spec_h_def updateDeps_spec_I4
      using False il by (cases "p = ''L'' \<or> p = ''Lf''") auto
  qed
qed

lemma spec_perturbed_frame:
  "spec_perturbed m p v |` (- {p, ''LfD''}) = m |` (- {p, ''LfD''})"
  by (rule ext) (simp add: spec_perturbed_def spec_I4_def restrict_map_def)

lemma computeJacobian_nth:
  assumes "i < length base" and "j < length idxs"
  shows "computeJacobian mm hp pm base idxs mt ps w t obsP obsD ! i ! j =
         computeColumn mm hp pm base idxs mt ps w t obsP obsD j ! i"
  using assms by (simp add: computeJacobian_def Let_def computeColumn_eq)

text \<open>
  Claim C5: the column that \<open>computeColumn\<close> returns for the parameter \<open>p\<close> with current
  value \<open>v\<close> is the central difference \<open>(r(v+) - r(v-)) / (2h)\<close> of the residuals at the
  two perturbed maps of the specification (\<open>is_log\<close> as \<open>v > 1e-12\<close> and \<open>p\<close> not \<open>S\<close> or
  \<open>nf\<close>; \<open>h = 0.01\<close> and \<open>10^(log10 v +- h)\<close> in log mode, \<open>h = 1e-4\<close> and \<open>v +- h\<close>
  otherwise; \<open>LfD := Lf / L\<close> recomputed exactly when \<open>p\<close> is \<open>L\<close> or \<open>Lf\<close>, both are
  present and \<open>L > 1e-9\<close>), provided both residual vectors have the base length (the
  column is zero otherwise). A perturbed map differs from the current map at \<open>p\<close> and
  \<open>LfD\<close> only: neither projection (\<open>kf > km\<close>, \<open>omega1 > omega2\<close>) is applied to it.
\<close>

theorem C5_jacobian_column_rule:
  "computeColumn mm hp pm base idxs mt ps w t obsP obsD j =
    (let p = name (ps ! (idxs ! j));
         v = qmap_value pm p;
         r_plus = calculateResiduals mm hp (spec_perturbed pm p (spec_v_plus v p)) mt w t obsP obsD;
         r_minus = calculateResiduals mm hp (spec_perturbed pm p (spec_v_minus v p)) mt w t obsP obsD
     in if length r_plus = length base \<and> length r_minus = length base
        then map (\<lambda>i. (r_plus ! i - r_minus ! i) / (2 * spec_h v p)) [0..<length base]
        else replicate (length base) 0)
   \<and> spec_perturbed pm q x |` (- {q, ''LfD''}) = pm |` (- {q, ''LfD''})"
  by (rule conjI [OF computeColumn_eq spec_perturbed_frame])

theorem C5_jacobian_column_rule_witness:
  "computeColumn (Some ex_eval_skin) False [''S'' \<mapsto> 0] [0] [0] () [ex_S] 1 [1] [1] [] 0
     = [(ln (3 - 1 / 10 ^ 4) - ln (3 + 1 / 10 ^ 4)) / (2 / 10 ^ 4)]"
  using C5_jacobian_column_rule [of "Some ex_eval_skin" False "[''S'' \<mapsto> 0]" "[0]" "[0]" "()"
      "[ex_S]" 1 "[1]" "[1]" "[]" 0 "''S''" 0]
  by (simp add: ex_S_def ex_eval_skin_def calculateResiduals_def qmap_value_def Let_def
      spec_perturbed_def spec_v_plus_def spec_v_minus_def spec_h_def spec_is_log_def)

text \<open>
  Claim C10: when one of the two perturbed residual vectors of a column does not have
  the length of the base residual vector, the whole column is zero, in the result of
  \<open>computeColumn\<close> and in the Jacobian; the vectors are not cut to a common prefix.
\<close>

theorem C10_length_mismatch_zero_column:
  assumes "j < length idxs"
    and "p = name (ps ! (idxs ! j))"
    and "v = qmap_value pm p"
    and "length (calculateResiduals mm hp (spec_perturbed pm p (spec_v_plus v p)) mt w t obsP obsD)
           \<noteq> length base
         \<or> length (calculateResiduals mm hp (spec_perturbed pm p (spec_v_minus v p)) mt w t obsP obsD)
           \<noteq> length base"
  shows "computeColumn mm hp pm base idxs mt ps w t obsP obsD j = replicate (length base) 0
         \<and> (\<forall>i < length base.
               computeJacobian mm hp pm base idxs mt ps w t obsP obsD ! i ! j = 0)"
proof -
  have col: "computeColumn mm hp pm base idxs mt ps w t obsP obsD j = replicate (length base) 0"
    using assms(2-4) by (auto simp: computeColumn_eq Let_def)
  moreover have "computeJacobian mm hp pm base idxs mt ps w t obsP obsD ! i ! j = 0"
    if "i < length base" for i
    using that assms(1) col by (simp add: computeJacobian_nth)
  ultimately show ?thesis by blast
qed

text \<open>
  At skin \<open>0\<close> the evaluator \<open>ex_eval\<close> returns two pressure values for the raised skin
  and one for the lowered skin, against a base residual vector of length one: the
  column is zero although the common prefix has a non-zero difference.
\<close>

theorem C10_length_mismatch_zero_column_witness:
  "length (calculateResiduals (Some ex_eval) False
             (spec_perturbed [''S'' \<mapsto> 0] ''S'' (spec_v_plus 0 ''S'')) () 1 [1] [1, 1] [])
     \<noteq> length [0::real]
   \<and> computeColumn (Some ex_eval) False [''S'' \<mapsto> 0] [0] [0] () [ex_S] 1 [1] [1, 1] [] 0 = [0]
   \<and> computeJacobian (Some ex_eval) False [''S'' \<mapsto> 0] [0] [0] () [ex_S] 1 [1] [1, 1] [] ! 0 ! 0 = 0"
proof -
  have n: "''S'' = name ([ex_S] ! ([0] ! 0))" by (simp add: ex_S_def)
  have v: "(0::real) = qmap_value [''S'' \<mapsto> 0] ''S''" by (simp add: qmap_value_def)
  have m: "length (calculateResiduals (Some ex_eval) False
             (spec_perturbed [''S'' \<mapsto> 0] ''S'' (spec_v_plus 0 ''S'')) () 1 [1] [1, 1] [])
           \<noteq> length [0::real]"
    by (simp add: calculateResiduals_def ex_eval_def spec_perturbed_def spec_v_plus_def
        spec_is_log_def qmap_value_def)
  from C10_length_mismatch_zero_column [of 0 "[0]" "''S''" "[ex_S]" 0 "[''S'' \<mapsto> 0]"
      "Some ex_eval" False "()" 1 "[1]" "[1, 1]" "[]" "[0]", OF _ n v disjI1 [OF m]] m
  show ?thesis by simp
qed

section \<open>Properties of the Levenberg-Marquardt driver\<close>

declare damping_search.simps [simp del] lm_loop.simps [simp del] scan_nearest.simps [simp del]

subsection \<open>The trial map\<close>

lemma qmap_index_present: "k \<in> dom m \<Longrightarrow> qmap_index m k = m"
  by (auto simp: qmap_index_def qmap_contains_def)

lemma fst_trial_update:
  "name (ps ! (idxs ! i)) \<in> dom (fst maps) \<Longrightarrow> fst (trial_update ps idxs delta maps i) = fst maps"
  by (simp add: trial_update_def Let_def qmap_index_present)

lemma fst_foldl_trial_update:
  assumes "\<forall>i < n. name (ps ! (idxs ! i)) \<in> dom cur"
  shows "fst (foldl (trial_update ps idxs delta) (cur, tm) [0..<n]) = cur"
  using assms
proof (induction n)
  case 0
  then show ?case by simp
next
  case (Suc n)
  then have "fst (foldl (trial_update ps idxs delta) (cur, tm) [0..<n]) = cur" by simp
  moreover have "name (ps ! (idxs ! n)) \<in> dom cur" using Suc.prems by simp
  ultimately show ?case by (simp add: fst_trial_update)
qed

lemma fst_trialMaps:
  assumes "(\<lambda>i. name (cx_params cx ! i)) ` set (cx_fitIndices cx) \<subseteq> dom (currentParamMap st)"
  shows "fst (trialMaps cx H g st) = currentParamMap st"
proof -
  have "\<forall>i < length (cx_fitIndices cx).
          name (cx_params cx ! (cx_fitIndices cx ! i)) \<in> dom (currentParamMap st)"
    using assms by (auto simp: image_subset_iff)
  then show ?thesis
    by (simp add: trialMaps_def Let_def fst_foldl_trial_update)
qed

lemma lm_try_rejected:
  assumes "(\<lambda>i. name (cx_params cx ! i)) ` set (cx_fitIndices cx) \<subseteq> dom (currentParamMap st)"
    and "\<not> trialSSE cx H g st < currentSSE st"
  shows "lm_try cx H g nRes st = (False, st\<lparr>lambda := lambda st * 10\<rparr>, [])"
  using assms(2) by (simp add: lm_try_def Let_def fst_trialMaps [OF assms(1)])

lemma lm_try_accepted:
  assumes "trialSSE cx H g st < currentSSE st"
  shows "lm_try cx H g nRes st =
    (True,
     \<lparr>lambda = lambda st / 10, currentSSE = trialSSE cx H g st,
      currentParamMap = snd (trialMaps cx H g st), residuals = trialResiduals cx H g st\<rparr>,
     [sigIterationUpdated (trialSSE cx H g st / real nRes) (snd (trialMaps cx H g st))
        (fst (cx_calc cx False (cx_modelType cx) (snd (trialMaps cx H g st)) None))
        (fst (snd (cx_calc cx False (cx_modelType cx) (snd (trialMaps cx H g st)) None)))
        (snd (snd (cx_calc cx False (cx_modelType cx) (snd (trialMaps cx H g st)) None)))])"
  using assms by (simp add: lm_try_def Let_def)

subsection \<open>The inner damping search\<close>

lemma damping_search_done:
  "\<not> tryIter < 5 \<Longrightarrow> damping_search cx H g nRes tryIter st = (False, st, [])"
  by (simp add: damping_search.simps [of cx H g nRes tryIter st])

lemma damping_search_accept:
  assumes "tryIter < 5" and "trialSSE cx H g st < currentSSE st"
  shows "damping_search cx H g nRes tryIter st = lm_try cx H g nRes st"
  using assms
  by (simp add: damping_search.simps [of cx H g nRes tryIter st] lm_try_accepted)

lemma damping_search_reject:
  assumes "tryIter < 5"
    and "(\<lambda>i. name (cx_params cx ! i)) ` set (cx_fitIndices cx) \<subseteq> dom (currentParamMap st)"
    and "\<not> trialSSE cx H g st < currentSSE st"
  shows "damping_search cx H g nRes tryIter st =
         damping_search cx H g nRes (Suc tryIter) (st\<lparr>lambda := lambda st * 10\<rparr>)"
  using assms(1)
  by (simp add: damping_search.simps [of cx H g nRes tryIter st] lm_try_rejected [OF assms(2,3)]
      split: prod.splits)

lemma damping_search_char:
  assumes "(\<lambda>i. name (cx_params cx ! i)) ` set (cx_fitIndices cx) \<subseteq> dom (currentParamMap st)"
    and "n = 5 - tryIter"
  shows "\<exists>k \<le> n.
          (\<forall>j < k. \<not> trialSSE cx H g (st\<lparr>lambda := lambda st * 10 ^ j\<rparr>) < currentSSE st) \<and>
          (if k < n
           then trialSSE cx H g (st\<lparr>lambda := lambda st * 10 ^ k\<rparr>) < currentSSE st \<and>
                damping_search cx H g nRes tryIter st =
                  lm_try cx H g nRes (st\<lparr>lambda := lambda st * 10 ^ k\<rparr>)
           else damping_search cx H g nRes tryIter st =
                  (False, st\<lparr>lambda := lambda st * 10 ^ k\<rparr>, []))"
  using assms
proof (induction n arbitrary: tryIter st)
  case 0
  then have "\<not> tryIter < 5" by simp
  then show ?case by (simp add: damping_search_done)
next
  case (Suc n)
  then have lt: "tryIter < 5" by simp
  show ?case
  proof (cases "trialSSE cx H g st < currentSSE st")
    case True
    have "damping_search cx H g nRes tryIter st = lm_try cx H g nRes st"
      by (rule damping_search_accept [OF lt True])
    with True show ?thesis by (intro exI [of _ 0]) simp
  next
    case False
    let ?st = "st\<lparr>lambda := lambda st * 10\<rparr>"
    have names: "(\<lambda>i. name (cx_params cx ! i)) ` set (cx_fitIndices cx) \<subseteq> dom (currentParamMap ?st)"
      using Suc.prems(1) by simp
    have n: "n = 5 - Suc tryIter" using Suc.prems(2) by simp
    from Suc.IH [OF names n] obtain k where k: "k \<le> n"
      and rej: "\<forall>j < k. \<not> trialSSE cx H g (?st\<lparr>lambda := lambda ?st * 10 ^ j\<rparr>) < currentSSE ?st"
      and fin: "if k < n
           then trialSSE cx H g (?st\<lparr>lambda := lambda ?st * 10 ^ k\<rparr>) < currentSSE ?st \<and>
                damping_search cx H g nRes (Suc tryIter) ?st =
                  lm_try cx H g nRes (?st\<lparr>lambda := lambda ?st * 10 ^ k\<rparr>)
           else damping_search cx H g nRes (Suc tryIter) ?st =
                  (False, ?st\<lparr>lambda := lambda ?st * 10 ^ k\<rparr>, [])"
      by blast
    have shift: "?st\<lparr>lambda := lambda ?st * 10 ^ j\<rparr> = st\<lparr>lambda := lambda st * 10 ^ Suc j\<rparr>" for j
      by simp
    have step: "damping_search cx H g nRes tryIter st = damping_search cx H g nRes (Suc tryIter) ?st"
      by (rule damping_search_reject [OF lt Suc.prems(1) False])
    have "\<forall>j < Suc k. \<not> trialSSE cx H g (st\<lparr>lambda := lambda st * 10 ^ j\<rparr>) < currentSSE st"
    proof (intro allI impI)
      fix j assume "j < Suc k"
      show "\<not> trialSSE cx H g (st\<lparr>lambda := lambda st * 10 ^ j\<rparr>) < currentSSE st"
      proof (cases j)
        case 0
        with False show ?thesis by simp
      next
        case (Suc j')
        with \<open>j < Suc k\<close> have "j' < k" by simp
        with rej have "\<not> trialSSE cx H g (?st\<lparr>lambda := lambda ?st * 10 ^ j'\<rparr>) < currentSSE ?st"
          by blast
        then show ?thesis unfolding shift Suc by simp
      qed
    qed
    moreover have "if Suc k < Suc n
           then trialSSE cx H g (st\<lparr>lambda := lambda st * 10 ^ Suc k\<rparr>) < currentSSE st \<and>
                damping_search cx H g nRes tryIter st =
                  lm_try cx H g nRes (st\<lparr>lambda := lambda st * 10 ^ Suc k\<rparr>)
           else damping_search cx H g nRes tryIter st =
                  (False, st\<lparr>lambda := lambda st * 10 ^ Suc k\<rparr>, [])"
      using fin unfolding shift step by (simp split: if_splits)
    ultimately show ?thesis using k by (intro exI [of _ "Suc k"]) simp
  qed
qed

lemma damped_prefix:
  fixes lam :: real and H :: "real list list"
  assumes "length H = n" and "\<forall>i < n. length (H ! i) = n" and "m \<le> n"
  defines "f \<equiv> \<lambda>H_lm i. H_lm[i := (H_lm ! i)[i := H_lm ! i ! i + lam * (1 + \<bar>H ! i ! i\<bar>)]]"
  shows "length (foldl f H [0..<m]) = n \<and>
         (\<forall>i < n. length (foldl f H [0..<m] ! i) = n) \<and>
         (\<forall>i < n. \<forall>j < n. foldl f H [0..<m] ! i ! j =
             (if i = j \<and> i < m then H ! i ! i + lam * (1 + \<bar>H ! i ! i\<bar>) else H ! i ! j))"
  using assms(3)
proof (induction m)
  case 0
  then show ?case using assms(1,2) by simp
next
  case (Suc m)
  then have IH: "length (foldl f H [0..<m]) = n"
    "\<forall>i < n. length (foldl f H [0..<m] ! i) = n"
    "\<forall>i < n. \<forall>j < n. foldl f H [0..<m] ! i ! j =
             (if i = j \<and> i < m then H ! i ! i + lam * (1 + \<bar>H ! i ! i\<bar>) else H ! i ! j)"
    and m: "m < n" by simp_all
  let ?A = "foldl f H [0..<m]"
  have unf: "foldl f H [0..<Suc m] = ?A[m := (?A ! m)[m := ?A ! m ! m + lam * (1 + \<bar>H ! m ! m\<bar>)]]"
    by (simp add: f_def)
  have mm: "?A ! m ! m = H ! m ! m" using IH(3) m by simp
  show ?case
    unfolding unf using IH m mm by (auto simp: nth_list_update)
qed

lemma damped_nth:
  assumes "length H = n" and "\<forall>i < n. length (H ! i) = n" and "i < n" and "j < n"
  shows "damped H lam n ! i ! j = H ! i ! j + (if i = j then lam * (1 + \<bar>H ! i ! i\<bar>) else 0)"
  using damped_prefix [OF assms(1,2) order_refl, of lam] assms(3,4)
  by (simp add: damped_def)

lemma solve_damped:
  assumes "length H = n" and "\<forall>i < n. length (H ! i) = n" and "length b = n"
  shows "solveLinearSystem ldlt (damped H lam n) b =
         map (ldlt (map (\<lambda>i. map (\<lambda>j. H ! i ! j + (if i = j then lam * (1 + \<bar>H ! i ! i\<bar>) else 0))
                                   [0..<n]) [0..<n]) b) [0..<n]"
proof -
  have eq: "map (\<lambda>i. map (\<lambda>j. damped H lam n ! i ! j) [0..<length b]) [0..<length b] =
        map (\<lambda>i. map (\<lambda>j. H ! i ! j + (if i = j then lam * (1 + \<bar>H ! i ! i\<bar>) else 0)) [0..<n]) [0..<n]"
    unfolding assms(3) by (intro map_cong refl) (simp add: damped_nth [OF assms(1,2)])
  show ?thesis unfolding solveLinearSystem_def Let_def eq using assms(3) by simp
qed

lemma trialMaps_damped:
  assumes "length H = length (cx_fitIndices cx)"
    and "\<forall>i < length (cx_fitIndices cx). length (H ! i) = length (cx_fitIndices cx)"
  shows "snd (trialMaps cx H g st) =
     constrain_omega (constrain_kf (updateDeps (snd
       (foldl (trial_update (cx_params cx) (cx_fitIndices cx)
                 (map (cx_ldlt cx
                         (map (\<lambda>i. map (\<lambda>j. H ! i ! j +
                                   (if i = j then lambda st * (1 + \<bar>H ! i ! i\<bar>) else 0))
                                 [0..<length (cx_fitIndices cx)])
                              [0..<length (cx_fitIndices cx)])
                         (map (\<lambda>i. - (g ! i)) [0..<length (cx_fitIndices cx)]))
                      [0..<length (cx_fitIndices cx)]))
              (currentParamMap st, currentParamMap st) [0..<length (cx_fitIndices cx)]))))"
  by (simp add: trialMaps_def Let_def solve_damped [OF assms])

lemma normalEquations_shape:
  "length (fst (normalEquations cx st)) = length (cx_fitIndices cx)"
  "\<forall>i < length (cx_fitIndices cx). length (fst (normalEquations cx st) ! i) = length (cx_fitIndices cx)"
  by (simp_all add: normalEquations_def Let_def hessian_def)

lemma hessian_shape:
  "length (hessian J nRes n) = n" "\<forall>i < n. length (hessian J nRes n ! i) = n"
  by (simp_all add: hessian_def)

lemma lm_loop_exit:
  assumes "iter < 50" and "\<not> cx_stopRequested cx iter"
    and "\<not> (residuals st \<noteq> [] \<and> currentSSE st / real (length (residuals st)) < 3 / 10 ^ 3)"
    and "\<not> fst (damping_search cx (fst (normalEquations cx st)) (snd (normalEquations cx st))
                 (length (residuals st)) 0 st)"
    and "lambda (fst (snd (damping_search cx (fst (normalEquations cx st))
                 (snd (normalEquations cx st)) (length (residuals st)) 0 st))) > 10 ^ 10"
  shows "lm_loop cx iter st =
          (fst (snd (damping_search cx (fst (normalEquations cx st)) (snd (normalEquations cx st))
                 (length (residuals st)) 0 st)),
           sigProgress (int iter * 100 div 50)
           # snd (snd (damping_search cx (fst (normalEquations cx st)) (snd (normalEquations cx st))
                 (length (residuals st)) 0 st)))"
proof -
  obtain acc st' evs where ds:
    "damping_search cx (fst (normalEquations cx st)) (snd (normalEquations cx st))
       (length (residuals st)) 0 st = (acc, st', evs)"
    by (cases "damping_search cx (fst (normalEquations cx st)) (snd (normalEquations cx st))
       (length (residuals st)) 0 st") auto
  from assms(4,5) have "\<not> acc" and "lambda st' > 10 ^ 10" unfolding ds by simp_all
  with assms(1-3) show ?thesis
    unfolding ds by (simp add: lm_loop.simps [of cx iter st] Let_def ds)
qed

subsection \<open>The example contexts\<close>

lemma ex_solve: "solveLinearSystem (\<lambda>A b i. 0) M [x] = [0]"
  by (simp add: solveLinearSystem_def)

lemma ex_update: "trial_update [ex_S] [0] [0] ([''S'' \<mapsto> 0], [''S'' \<mapsto> 0]) 0
   = ([''S'' \<mapsto> 0], [''S'' \<mapsto> 0])"
  by (simp add: trial_update_def ex_S_def qmap_index_def qmap_contains_def qmap_value_def Let_def)

lemma ex_project: "constrain_omega (constrain_kf (updateDeps [''S'' \<mapsto> 0])) = [''S'' \<mapsto> 0]"
  by (simp add: updateDeps_def constrain_kf_def constrain_omega_def qmap_contains_def)

lemma ex_trialMaps:
  "snd (trialMaps ex_cx_skin [[0]] [0] ex_st_skin) = [''S'' \<mapsto> 0]"
  by (simp add: trialMaps_def ex_cx_skin_def ex_cx_def ex_st_skin_def Let_def
      ex_solve ex_update ex_project)

lemma ex_trialSSE: "trialSSE ex_cx_skin [[0]] [0] ex_st_skin = (ln 3)\<^sup>2"
  by (simp add: trialSSE_def trialResiduals_def ex_trialMaps calculateResiduals_def
      calculateSumSquaredError_def qmap_value_def power2_eq_square)
     (simp add: ex_cx_skin_def ex_cx_def ex_eval_skin_def qmap_value_def calculateResiduals_def
      calculateSumSquaredError_def power2_eq_square)

lemma ex_ln3: "1 \<le> ln (3::real)"
  by (simp add: ln_ge_iff exp_le)

lemma ex_ln3_sq:
  "\<not> (ln (3::real))\<^sup>2 < 3 / 10 ^ 3" "0 < (ln (3::real))\<^sup>2"
  "\<not> (ln (3::real))\<^sup>2 * 1000 < 3"
proof -
  have "1 \<le> (ln (3::real))\<^sup>2" using ex_ln3 by (simp add: power2_eq_square mult_ge1_I)
  then show "\<not> (ln (3::real))\<^sup>2 < 3 / 10 ^ 3" "0 < (ln (3::real))\<^sup>2"
    "\<not> (ln (3::real))\<^sup>2 * 1000 < 3" by simp_all
qed

lemma ex_free_skin: "freeIndices [ex_S] = [0]"
  by (simp add: freeIndices_def ex_S_def)

lemma ex_initial_skin: "projectedInitialMap [ex_S] = [''S'' \<mapsto> 0]"
  by (simp add: projectedInitialMap_def initialParamMap_def ex_S_def
      constrain_kf_def constrain_omega_def updateDeps_def qmap_contains_def)

lemma ex_sampled_skin: "getLogSampledData ex_core_skin [1] [1] [] = ([1], [1], [])"
  by (simp add: getLogSampledData_def ex_core_skin_def)

lemma ex_residuals_skin:
  "calculateResiduals (Some ex_eval_skin) False [''S'' \<mapsto> 0] () 1 [1] [1] [] = [- ln 3]"
  "calculateResiduals (Some ex_eval_skin) False [''S'' \<mapsto> - 5] () 1 [1] [1] [] = [0]"
  by (simp_all add: calculateResiduals_def ex_eval_skin_def qmap_value_def)

lemma ex_solve_run: "solveLinearSystem (\<lambda>A b i. - 10) M [x] = [- 10]"
  by (simp add: solveLinearSystem_def)

lemma ex_update_run: "trial_update [ex_S] [0] [- 10] ([''S'' \<mapsto> 0], [''S'' \<mapsto> 0]) 0
   = ([''S'' \<mapsto> 0], [''S'' \<mapsto> - 5])"
  by (simp add: trial_update_def ex_S_def qmap_index_def qmap_contains_def qmap_value_def Let_def)

lemma ex_project_run: "constrain_omega (constrain_kf (updateDeps [''S'' \<mapsto> - 5])) = [''S'' \<mapsto> - 5]"
  by (simp add: updateDeps_def constrain_kf_def constrain_omega_def qmap_contains_def)

lemma ex_trialMaps_run:
  assumes "currentParamMap st = [''S'' \<mapsto> 0]"
  shows "snd (trialMaps ex_cx_run H g st) = [''S'' \<mapsto> - 5]"
  by (simp add: trialMaps_def ex_cx_run_def Let_def assms ex_solve_run ex_update_run
      ex_project_run)

lemma ex_trialSSE_run:
  assumes "currentParamMap st = [''S'' \<mapsto> 0]"
  shows "trialResiduals ex_cx_run H g st = [0]" "trialSSE ex_cx_run H g st = 0"
proof -
  show r: "trialResiduals ex_cx_run H g st = [0]"
    unfolding trialResiduals_def ex_trialMaps_run [OF assms]
    by (simp add: ex_cx_run_def ex_residuals_skin)
  show "trialSSE ex_cx_run H g st = 0"
    by (simp add: trialSSE_def r calculateSumSquaredError_def)
qed

lemma ex_update_diag: "trial_update [ex_S] [0] [- 2] ([''S'' \<mapsto> 0], [''S'' \<mapsto> 0]) 0
   = ([''S'' \<mapsto> 0], [''S'' \<mapsto> - 2])"
  by (simp add: trial_update_def ex_S_def qmap_index_def qmap_contains_def qmap_value_def Let_def)

lemma ex_project_diag: "constrain_omega (constrain_kf (updateDeps [''S'' \<mapsto> - 2])) = [''S'' \<mapsto> - 2]"
  by (simp add: updateDeps_def constrain_kf_def constrain_omega_def qmap_contains_def)

lemma ex_residuals_diag:
  "calculateResiduals (Some ex_eval_skin) False [''S'' \<mapsto> - 2] () 1 [1] [1] [] = [0]"
  by (simp add: calculateResiduals_def ex_eval_skin_def qmap_value_def)

lemma ex_trialSSE_none: "trialSSE ex_cx H g s = 0"
  by (simp add: trialSSE_def trialResiduals_def calculateResiduals_def ex_cx_def
      ex_eval_none_def calculateSumSquaredError_def)

subsection \<open>A rejected trial\<close>

text \<open>
  Claim C9: a rejected trial (the trial sum of squares is not strictly below the current
  one) multiplies \<open>lambda\<close> by ten and changes nothing else: the current parameter map,
  the residual vector and the current sum of squares are as before, and no signal is
  emitted. The hypothesis on the names holds in every state of a session
  (\<open>lm_loop_invariant\<close> below starts from it and keeps it): every parameter name was
  inserted into the map before the loop, so the read \<open>currentParamMap[pName]\<close> inserts
  nothing.
\<close>

theorem C9_rejected_trial_frame:
  assumes "(\<lambda>i. name (cx_params cx ! i)) ` set (cx_fitIndices cx) \<subseteq> dom (currentParamMap st)"
    and "\<not> trialSSE cx H g st < currentSSE st"
  shows "fst (lm_try cx H g nRes st) = False
       \<and> lambda (fst (snd (lm_try cx H g nRes st))) = lambda st * 10
       \<and> currentParamMap (fst (snd (lm_try cx H g nRes st))) = currentParamMap st
       \<and> residuals (fst (snd (lm_try cx H g nRes st))) = residuals st
       \<and> currentSSE (fst (snd (lm_try cx H g nRes st))) = currentSSE st
       \<and> snd (snd (lm_try cx H g nRes st)) = []"
  by (simp add: lm_try_rejected [OF assms])

text \<open>
  At skin \<open>0\<close> with the solver returning a zero step, the trial map is the current map,
  the trial is rejected and only \<open>lambda\<close> changes, from \<open>0.01\<close> to \<open>0.1\<close>.
\<close>

theorem C9_rejected_trial_frame_witness:
  "(\<lambda>i. name (cx_params ex_cx_skin ! i)) ` set (cx_fitIndices ex_cx_skin)
      \<subseteq> dom (currentParamMap ex_st_skin)
   \<and> \<not> trialSSE ex_cx_skin [[0]] [0] ex_st_skin < currentSSE ex_st_skin
   \<and> lambda (fst (snd (lm_try ex_cx_skin [[0]] [0] 1 ex_st_skin))) = 0.1
   \<and> currentParamMap (fst (snd (lm_try ex_cx_skin [[0]] [0] 1 ex_st_skin))) = [''S'' \<mapsto> 0]
   \<and> residuals (fst (snd (lm_try ex_cx_skin [[0]] [0] 1 ex_st_skin))) = [- ln 3]
   \<and> currentSSE (fst (snd (lm_try ex_cx_skin [[0]] [0] 1 ex_st_skin))) = (ln 3)\<^sup>2
   \<and> snd (snd (lm_try ex_cx_skin [[0]] [0] 1 ex_st_skin)) = []"
proof -
  have names: "(\<lambda>i. name (cx_params ex_cx_skin ! i)) ` set (cx_fitIndices ex_cx_skin)
      \<subseteq> dom (currentParamMap ex_st_skin)"
    by (simp add: ex_cx_skin_def ex_cx_def ex_st_skin_def ex_S_def)
  have rej: "\<not> trialSSE ex_cx_skin [[0]] [0] ex_st_skin < currentSSE ex_st_skin"
    by (simp add: ex_trialSSE) (simp add: ex_st_skin_def)
  from C9_rejected_trial_frame [OF names rej, of 1] names rej
  show ?thesis by (simp add: ex_st_skin_def)
qed

subsection \<open>The damping search\<close>

text \<open>
  Claim C4. For a state whose map holds every free parameter's name: the inner search
  makes \<open>k + 1 \<le> 5\<close> tries when the try after \<open>k\<close> rejections is the first accepted one,
  and \<open>5\<close> tries when none is; the try after \<open>j\<close> rejections runs with \<open>lambda * 10^j\<close>
  (each rejection multiplies \<open>lambda\<close> by ten); it is accepted exactly when its sum of
  squares is strictly below the current one, and then \<open>lambda\<close> is divided by ten and
  exactly one \<open>sigIterationUpdated\<close> with the trial map is emitted. A try with damping
  parameter \<open>lam\<close> solves with the matrix that is \<open>H\<close> with \<open>lam * (1 + |H[i][i]|)\<close> added to
  every diagonal entry: for a square \<open>H\<close> of the size of the free parameters, as the \<open>H\<close> of
  the normal equations is, its trial map is the projection of the current map updated with
  the solver's result on that matrix and \<open>-g\<close>; and its sum of squares is that of the
  residuals of this trial map. The outer loop ends, with no further iteration, when no try
  was accepted and \<open>lambda\<close> exceeds \<open>1e10\<close>.
\<close>

theorem C4_damping_search:
  assumes "(\<lambda>i. name (cx_params cx ! i)) ` set (cx_fitIndices cx) \<subseteq> dom (currentParamMap st)"
  shows
   "(\<exists>k \<le> 5.
       (\<forall>j < k. \<not> trialSSE cx H g (st\<lparr>lambda := lambda st * 10 ^ j\<rparr>) < currentSSE st) \<and>
       (if k < 5
        then trialSSE cx H g (st\<lparr>lambda := lambda st * 10 ^ k\<rparr>) < currentSSE st \<and>
             fst (damping_search cx H g nRes 0 st) \<and>
             lambda (fst (snd (damping_search cx H g nRes 0 st))) = lambda st * 10 ^ k / 10 \<and>
             currentSSE (fst (snd (damping_search cx H g nRes 0 st)))
               = trialSSE cx H g (st\<lparr>lambda := lambda st * 10 ^ k\<rparr>) \<and>
             (\<exists>mse ct cp cd. snd (snd (damping_search cx H g nRes 0 st)) =
                [sigIterationUpdated mse
                   (snd (trialMaps cx H g (st\<lparr>lambda := lambda st * 10 ^ k\<rparr>))) ct cp cd])
        else damping_search cx H g nRes 0 st = (False, st\<lparr>lambda := lambda st * 10 ^ 5\<rparr>, [])))
    \<and> (length H = length (cx_fitIndices cx)
        \<and> (\<forall>i < length (cx_fitIndices cx). length (H ! i) = length (cx_fitIndices cx))
        \<longrightarrow> (\<forall>lam. snd (trialMaps cx H g (st\<lparr>lambda := lam\<rparr>)) =
              constrain_omega (constrain_kf (updateDeps (snd
                (foldl (trial_update (cx_params cx) (cx_fitIndices cx)
                          (map (cx_ldlt cx
                                  (map (\<lambda>i. map (\<lambda>j. H ! i ! j +
                                            (if i = j then lam * (1 + \<bar>H ! i ! i\<bar>) else 0))
                                          [0..<length (cx_fitIndices cx)])
                                       [0..<length (cx_fitIndices cx)])
                                  (map (\<lambda>i. - (g ! i)) [0..<length (cx_fitIndices cx)]))
                               [0..<length (cx_fitIndices cx)]))
                       (currentParamMap st, currentParamMap st)
                       [0..<length (cx_fitIndices cx)]))))))
    \<and> (length (fst (normalEquations cx st)) = length (cx_fitIndices cx)
        \<and> (\<forall>i < length (cx_fitIndices cx).
              length (fst (normalEquations cx st) ! i) = length (cx_fitIndices cx)))
    \<and> (\<forall>lam. trialSSE cx H g (st\<lparr>lambda := lam\<rparr>) =
          calculateSumSquaredError
            (calculateResiduals (Some (cx_calc cx)) False
               (snd (trialMaps cx H g (st\<lparr>lambda := lam\<rparr>))) (cx_modelType cx) (cx_weight cx)
               (cx_fitT cx) (cx_fitP cx) (cx_fitD cx)))
    \<and> (fst (lm_try cx H g nRes st) \<longleftrightarrow> trialSSE cx H g st < currentSSE st)
    \<and> (iter < 50 \<and> \<not> cx_stopRequested cx iter
        \<and> \<not> (residuals st \<noteq> [] \<and> currentSSE st / real (length (residuals st)) < 3 / 10 ^ 3)
        \<and> \<not> fst (damping_search cx (fst (normalEquations cx st)) (snd (normalEquations cx st))
                 (length (residuals st)) 0 st)
        \<and> lambda (fst (snd (damping_search cx (fst (normalEquations cx st))
                 (snd (normalEquations cx st)) (length (residuals st)) 0 st))) > 10 ^ 10
        \<longrightarrow> lm_loop cx iter st =
          (fst (snd (damping_search cx (fst (normalEquations cx st)) (snd (normalEquations cx st))
                 (length (residuals st)) 0 st)),
           sigProgress (int iter * 100 div 50)
           # snd (snd (damping_search cx (fst (normalEquations cx st)) (snd (normalEquations cx st))
                 (length (residuals st)) 0 st))))"
proof (intro conjI)
  from damping_search_char [OF assms, of 5 0 H g nRes]
  obtain k where k: "k \<le> 5"
    and rej: "\<forall>j < k. \<not> trialSSE cx H g (st\<lparr>lambda := lambda st * 10 ^ j\<rparr>) < currentSSE st"
    and fin: "if k < 5
           then trialSSE cx H g (st\<lparr>lambda := lambda st * 10 ^ k\<rparr>) < currentSSE st \<and>
                damping_search cx H g nRes 0 st =
                  lm_try cx H g nRes (st\<lparr>lambda := lambda st * 10 ^ k\<rparr>)
           else damping_search cx H g nRes 0 st =
                  (False, st\<lparr>lambda := lambda st * 10 ^ k\<rparr>, [])"
    by auto
  show "\<exists>k \<le> 5.
       (\<forall>j < k. \<not> trialSSE cx H g (st\<lparr>lambda := lambda st * 10 ^ j\<rparr>) < currentSSE st) \<and>
       (if k < 5
        then trialSSE cx H g (st\<lparr>lambda := lambda st * 10 ^ k\<rparr>) < currentSSE st \<and>
             fst (damping_search cx H g nRes 0 st) \<and>
             lambda (fst (snd (damping_search cx H g nRes 0 st))) = lambda st * 10 ^ k / 10 \<and>
             currentSSE (fst (snd (damping_search cx H g nRes 0 st)))
               = trialSSE cx H g (st\<lparr>lambda := lambda st * 10 ^ k\<rparr>) \<and>
             (\<exists>mse ct cp cd. snd (snd (damping_search cx H g nRes 0 st)) =
                [sigIterationUpdated mse
                   (snd (trialMaps cx H g (st\<lparr>lambda := lambda st * 10 ^ k\<rparr>))) ct cp cd])
        else damping_search cx H g nRes 0 st = (False, st\<lparr>lambda := lambda st * 10 ^ 5\<rparr>, []))"
  proof (cases "k < 5")
    case True
    with fin have acc: "trialSSE cx H g (st\<lparr>lambda := lambda st * 10 ^ k\<rparr>)
                          < currentSSE (st\<lparr>lambda := lambda st * 10 ^ k\<rparr>)"
      and ds: "damping_search cx H g nRes 0 st =
                  lm_try cx H g nRes (st\<lparr>lambda := lambda st * 10 ^ k\<rparr>)" by simp_all
    show ?thesis
      using True k rej acc unfolding ds lm_try_accepted [OF acc]
      by (intro exI [of _ k]) simp
  next
    case False
    with k have "k = 5" by simp
    with fin rej show ?thesis by (intro exI [of _ 5]) simp
  qed
next
  show "length H = length (cx_fitIndices cx)
        \<and> (\<forall>i < length (cx_fitIndices cx). length (H ! i) = length (cx_fitIndices cx))
        \<longrightarrow> (\<forall>lam. snd (trialMaps cx H g (st\<lparr>lambda := lam\<rparr>)) =
              constrain_omega (constrain_kf (updateDeps (snd
                (foldl (trial_update (cx_params cx) (cx_fitIndices cx)
                          (map (cx_ldlt cx
                                  (map (\<lambda>i. map (\<lambda>j. H ! i ! j +
                                            (if i = j then lam * (1 + \<bar>H ! i ! i\<bar>) else 0))
                                          [0..<length (cx_fitIndices cx)])
                                       [0..<length (cx_fitIndices cx)])
                                  (map (\<lambda>i. - (g ! i)) [0..<length (cx_fitIndices cx)]))
                               [0..<length (cx_fitIndices cx)]))
                       (currentParamMap st, currentParamMap st)
                       [0..<length (cx_fitIndices cx)])))))"
  proof (intro impI allI, elim conjE)
    fix lam
    assume shape: "length H = length (cx_fitIndices cx)"
      "\<forall>i < length (cx_fitIndices cx). length (H ! i) = length (cx_fitIndices cx)"
    have l: "lambda (st\<lparr>lambda := lam\<rparr>) = lam"
      "currentParamMap (st\<lparr>lambda := lam\<rparr>) = currentParamMap st" by simp_all
    from trialMaps_damped [OF shape, of g "st\<lparr>lambda := lam\<rparr>"]
    show "snd (trialMaps cx H g (st\<lparr>lambda := lam\<rparr>)) =
              constrain_omega (constrain_kf (updateDeps (snd
                (foldl (trial_update (cx_params cx) (cx_fitIndices cx)
                          (map (cx_ldlt cx
                                  (map (\<lambda>i. map (\<lambda>j. H ! i ! j +
                                            (if i = j then lam * (1 + \<bar>H ! i ! i\<bar>) else 0))
                                          [0..<length (cx_fitIndices cx)])
                                       [0..<length (cx_fitIndices cx)])
                                  (map (\<lambda>i. - (g ! i)) [0..<length (cx_fitIndices cx)]))
                               [0..<length (cx_fitIndices cx)]))
                       (currentParamMap st, currentParamMap st)
                       [0..<length (cx_fitIndices cx)]))))"
      unfolding l .
  qed
next
  show "length (fst (normalEquations cx st)) = length (cx_fitIndices cx)"
    by (rule normalEquations_shape)
next
  show "\<forall>i < length (cx_fitIndices cx).
          length (fst (normalEquations cx st) ! i) = length (cx_fitIndices cx)"
    by (rule normalEquations_shape)
next
  show "\<forall>lam. trialSSE cx H g (st\<lparr>lambda := lam\<rparr>) =
          calculateSumSquaredError
            (calculateResiduals (Some (cx_calc cx)) False
               (snd (trialMaps cx H g (st\<lparr>lambda := lam\<rparr>))) (cx_modelType cx) (cx_weight cx)
               (cx_fitT cx) (cx_fitP cx) (cx_fitD cx))"
    by (simp add: trialSSE_def trialResiduals_def)
next
  show "fst (lm_try cx H g nRes st) \<longleftrightarrow> trialSSE cx H g st < currentSSE st"
    by (simp add: lm_try_def Let_def)
next
  show "iter < 50 \<and> \<not> cx_stopRequested cx iter
        \<and> \<not> (residuals st \<noteq> [] \<and> currentSSE st / real (length (residuals st)) < 3 / 10 ^ 3)
        \<and> \<not> fst (damping_search cx (fst (normalEquations cx st)) (snd (normalEquations cx st))
                 (length (residuals st)) 0 st)
        \<and> lambda (fst (snd (damping_search cx (fst (normalEquations cx st))
                 (snd (normalEquations cx st)) (length (residuals st)) 0 st))) > 10 ^ 10
        \<longrightarrow> lm_loop cx iter st =
          (fst (snd (damping_search cx (fst (normalEquations cx st)) (snd (normalEquations cx st))
                 (length (residuals st)) 0 st)),
           sigProgress (int iter * 100 div 50)
           # snd (snd (damping_search cx (fst (normalEquations cx st)) (snd (normalEquations cx st))
                 (length (residuals st)) 0 st)))"
    using lm_loop_exit by blast
qed


text \<open>
  With the evaluator that returns nothing every sum of squares is \<open>0\<close>: all five tries are
  rejected, \<open>lambda\<close> grows from \<open>1e6\<close> to \<open>1e11\<close>, and the outer loop ends after its first
  iteration. With the evaluator \<open>ex_eval_skin\<close>, the solver that divides by the diagonal,
  \<open>H = [[1]]\<close>, \<open>g = [6]\<close> and \<open>lambda = 1\<close>, the solver is given the matrix \<open>[[3]]\<close> and
  returns the step \<open>-2\<close> (the undamped matrix would give \<open>-6\<close>, clamped to the skin \<open>-5\<close>);
  the first try is accepted with the skin \<open>-2\<close>, and \<open>lambda\<close> falls to \<open>0.1\<close>.
\<close>

theorem C4_damping_search_witness:
  "(\<lambda>i. name (cx_params ex_cx ! i)) ` set (cx_fitIndices ex_cx) \<subseteq> dom (currentParamMap ex_st)
   \<and> damping_search ex_cx [[0]] [0] 0 0 ex_st = (False, ex_st\<lparr>lambda := 10 ^ 11\<rparr>, [])
   \<and> lm_loop ex_cx 0 ex_st = (ex_st\<lparr>lambda := 10 ^ 11\<rparr>, [sigProgress 0])
   \<and> (\<lambda>i. name (cx_params ex_cx_diag ! i)) ` set (cx_fitIndices ex_cx_diag)
        \<subseteq> dom (currentParamMap ex_st_diag)
   \<and> length [[1::real]] = length (cx_fitIndices ex_cx_diag)
   \<and> snd (trialMaps ex_cx_diag [[1]] [6] ex_st_diag) = [''S'' \<mapsto> - 2]
   \<and> trialSSE ex_cx_diag [[1]] [6] ex_st_diag = 0
   \<and> trialSSE ex_cx_diag [[1]] [6] ex_st_diag < currentSSE ex_st_diag
   \<and> fst (lm_try ex_cx_diag [[1]] [6] 1 ex_st_diag)
   \<and> fst (damping_search ex_cx_diag [[1]] [6] 1 0 ex_st_diag)
   \<and> lambda (fst (snd (damping_search ex_cx_diag [[1]] [6] 1 0 ex_st_diag))) = 1 / 10
   \<and> snapshotMaps (snd (snd (damping_search ex_cx_diag [[1]] [6] 1 0 ex_st_diag)))
        = [[''S'' \<mapsto> - 2]]"
proof -
  have names: "(\<lambda>i. name (cx_params ex_cx ! i)) ` set (cx_fitIndices ex_cx)
      \<subseteq> dom (currentParamMap ex_st)"
    by (simp add: ex_cx_def ex_st_def ex_S_def)
  have never: "\<not> trialSSE ex_cx H g s < currentSSE ex_st" for H g s
    by (simp add: ex_trialSSE_none ex_st_def)
  have lam: "lambda ex_st * 10 ^ 5 = 10 ^ 11" by (simp add: ex_st_def)
  have search: "damping_search ex_cx H g nRes 0 ex_st = (False, ex_st\<lparr>lambda := 10 ^ 11\<rparr>, [])"
    for H g nRes
  proof -
    from conjunct1 [OF C4_damping_search [where cx = ex_cx and st = ex_st and H = H and g = g
        and nRes = nRes and iter = 0, OF names]]
    obtain k where "if k < 5
        then trialSSE ex_cx H g (ex_st\<lparr>lambda := lambda ex_st * 10 ^ k\<rparr>) < currentSSE ex_st \<and>
             fst (damping_search ex_cx H g nRes 0 ex_st) \<and>
             lambda (fst (snd (damping_search ex_cx H g nRes 0 ex_st))) = lambda ex_st * 10 ^ k / 10 \<and>
             currentSSE (fst (snd (damping_search ex_cx H g nRes 0 ex_st)))
               = trialSSE ex_cx H g (ex_st\<lparr>lambda := lambda ex_st * 10 ^ k\<rparr>) \<and>
             (\<exists>mse ct cp cd. snd (snd (damping_search ex_cx H g nRes 0 ex_st)) =
                [sigIterationUpdated mse
                   (snd (trialMaps ex_cx H g (ex_st\<lparr>lambda := lambda ex_st * 10 ^ k\<rparr>))) ct cp cd])
        else damping_search ex_cx H g nRes 0 ex_st = (False, ex_st\<lparr>lambda := lambda ex_st * 10 ^ 5\<rparr>, [])"
      by blast
    then have "damping_search ex_cx H g nRes 0 ex_st
                 = (False, ex_st\<lparr>lambda := lambda ex_st * 10 ^ 5\<rparr>, [])"
      using never [of H g] by (cases "k < 5") simp_all
    then show ?thesis unfolding lam .
  qed
  have exit: "0 < (50::nat) \<and> \<not> cx_stopRequested ex_cx 0
        \<and> \<not> (residuals ex_st \<noteq> [] \<and> currentSSE ex_st / real (length (residuals ex_st)) < 3 / 10 ^ 3)
        \<and> \<not> fst (damping_search ex_cx (fst (normalEquations ex_cx ex_st))
                 (snd (normalEquations ex_cx ex_st)) (length (residuals ex_st)) 0 ex_st)
        \<and> lambda (fst (snd (damping_search ex_cx (fst (normalEquations ex_cx ex_st))
                 (snd (normalEquations ex_cx ex_st)) (length (residuals ex_st)) 0 ex_st))) > 10 ^ 10"
    unfolding search by (simp add: ex_st_def ex_cx_def)
  have loop: "lm_loop ex_cx 0 ex_st = (ex_st\<lparr>lambda := 10 ^ 11\<rparr>, [sigProgress 0])"
    using conjunct2 [OF conjunct2 [OF conjunct2 [OF conjunct2 [OF conjunct2 [OF
        C4_damping_search [where cx = ex_cx and st = ex_st and H = "[[0]]" and g = "[0]"
        and nRes = 0 and iter = 0, OF names]]]]], THEN mp, OF exit]
    unfolding search by simp
  have names_d: "(\<lambda>i. name (cx_params ex_cx_diag ! i)) ` set (cx_fitIndices ex_cx_diag)
      \<subseteq> dom (currentParamMap ex_st_diag)"
    by (simp add: ex_cx_diag_def ex_st_diag_def ex_S_def)
  have shape_d: "length [[1::real]] = length (cx_fitIndices ex_cx_diag)
      \<and> (\<forall>i < length (cx_fitIndices ex_cx_diag).
            length ([[1::real]] ! i) = length (cx_fitIndices ex_cx_diag))"
    by (simp add: ex_cx_diag_def)
  have st_d: "ex_st_diag\<lparr>lambda := 1\<rparr> = ex_st_diag"
    "ex_st_diag\<lparr>lambda := lambda ex_st_diag * 10 ^ 0\<rparr> = ex_st_diag"
    by (simp_all add: ex_st_diag_def)
  note c4d = C4_damping_search [where cx = ex_cx_diag and st = ex_st_diag and H = "[[1]]"
        and g = "[6]" and nRes = 1 and iter = 0, OF names_d]
  have tm: "snd (trialMaps ex_cx_diag [[1]] [6] ex_st_diag) = [''S'' \<mapsto> - 2]"
    using conjunct1 [OF conjunct2 [OF c4d], THEN mp, OF shape_d, THEN spec, of 1]
    unfolding st_d
    by (simp add: ex_cx_diag_def ex_st_diag_def ex_update_diag ex_project_diag)
  have sse: "trialSSE ex_cx_diag [[1]] [6] ex_st_diag = 0"
    using conjunct1 [OF conjunct2 [OF conjunct2 [OF conjunct2 [OF c4d]]], THEN spec, of 1]
    unfolding st_d tm
    by (simp add: ex_cx_diag_def ex_residuals_diag calculateSumSquaredError_def)
  have acc: "trialSSE ex_cx_diag [[1]] [6] ex_st_diag < currentSSE ex_st_diag"
    unfolding sse by (simp add: ex_st_diag_def ex_ln3_sq)
  have acc_try: "fst (lm_try ex_cx_diag [[1]] [6] 1 ex_st_diag)"
    using c4d acc by blast
  from conjunct1 [OF c4d]
  obtain k where rej: "\<forall>j < k. \<not> trialSSE ex_cx_diag [[1]] [6]
                           (ex_st_diag\<lparr>lambda := lambda ex_st_diag * 10 ^ j\<rparr>) < currentSSE ex_st_diag"
    and fin: "if k < 5
        then trialSSE ex_cx_diag [[1]] [6] (ex_st_diag\<lparr>lambda := lambda ex_st_diag * 10 ^ k\<rparr>)
               < currentSSE ex_st_diag \<and>
             fst (damping_search ex_cx_diag [[1]] [6] 1 0 ex_st_diag) \<and>
             lambda (fst (snd (damping_search ex_cx_diag [[1]] [6] 1 0 ex_st_diag)))
               = lambda ex_st_diag * 10 ^ k / 10 \<and>
             currentSSE (fst (snd (damping_search ex_cx_diag [[1]] [6] 1 0 ex_st_diag)))
               = trialSSE ex_cx_diag [[1]] [6] (ex_st_diag\<lparr>lambda := lambda ex_st_diag * 10 ^ k\<rparr>) \<and>
             (\<exists>mse ct cp cd. snd (snd (damping_search ex_cx_diag [[1]] [6] 1 0 ex_st_diag)) =
                [sigIterationUpdated mse
                   (snd (trialMaps ex_cx_diag [[1]] [6]
                      (ex_st_diag\<lparr>lambda := lambda ex_st_diag * 10 ^ k\<rparr>))) ct cp cd])
        else damping_search ex_cx_diag [[1]] [6] 1 0 ex_st_diag
               = (False, ex_st_diag\<lparr>lambda := lambda ex_st_diag * 10 ^ 5\<rparr>, [])"
    by blast
  have "k = 0"
  proof (rule ccontr)
    assume "k \<noteq> 0"
    then have "0 < k" by simp
    with rej have "\<not> trialSSE ex_cx_diag [[1]] [6]
                      (ex_st_diag\<lparr>lambda := lambda ex_st_diag * 10 ^ 0\<rparr>) < currentSSE ex_st_diag"
      by blast
    with acc show False unfolding st_d by simp
  qed
  with fin have fin0: "fst (damping_search ex_cx_diag [[1]] [6] 1 0 ex_st_diag)
    \<and> lambda (fst (snd (damping_search ex_cx_diag [[1]] [6] 1 0 ex_st_diag)))
        = lambda ex_st_diag * 10 ^ 0 / 10
    \<and> (\<exists>mse ct cp cd. snd (snd (damping_search ex_cx_diag [[1]] [6] 1 0 ex_st_diag)) =
          [sigIterationUpdated mse
             (snd (trialMaps ex_cx_diag [[1]] [6]
                (ex_st_diag\<lparr>lambda := lambda ex_st_diag * 10 ^ 0\<rparr>))) ct cp cd])"
    by simp
  then have acc_d: "fst (damping_search ex_cx_diag [[1]] [6] 1 0 ex_st_diag)"
    and lam_d: "lambda (fst (snd (damping_search ex_cx_diag [[1]] [6] 1 0 ex_st_diag))) = 1 / 10"
    by (simp_all add: ex_st_diag_def)
  from fin0 obtain mse ct cp cd where
    "snd (snd (damping_search ex_cx_diag [[1]] [6] 1 0 ex_st_diag)) =
       [sigIterationUpdated mse [''S'' \<mapsto> - 2] ct cp cd]"
    unfolding st_d tm by blast
  then have snap: "snapshotMaps (snd (snd (damping_search ex_cx_diag [[1]] [6] 1 0 ex_st_diag)))
        = [[''S'' \<mapsto> - 2]]"
    by simp
  from names search [of "[[0]]" "[0]" 0] loop names_d shape_d tm sse acc acc_try acc_d lam_d snap
  show ?thesis by simp
qed

subsection \<open>Bounds of the snapshots\<close>

lemma snapshotMaps_append: "snapshotMaps (xs @ ys) = snapshotMaps xs @ snapshotMaps ys"
  by (induction xs rule: snapshotMaps.induct) simp_all

lemma snd_trial_update:
  "snd (trial_update ps idxs delta maps i) =
     (snd maps)(name (ps ! (idxs ! i)) \<mapsto>
        max (min' (ps ! (idxs ! i)))
            (min (let oldVal = qmap_value (qmap_index (fst maps) (name (ps ! (idxs ! i))))
                                  (name (ps ! (idxs ! i)))
                  in if oldVal > 1 / 10 ^ 12 \<and> name (ps ! (idxs ! i)) \<noteq> ''S''
                        \<and> name (ps ! (idxs ! i)) \<noteq> ''nf''
                     then 10 powr (log 10 oldVal + delta ! i) else oldVal + delta ! i)
                 (max' (ps ! (idxs ! i)))))"
  by (simp add: trial_update_def Let_def)

lemma snd_foldl_trial_update:
  assumes "distinct (map (\<lambda>i. name (ps ! (idxs ! i))) [0..<n])"
    and "i < n"
  shows "\<exists>x. snd (foldl (trial_update ps idxs delta) (cur, tm) [0..<n]) (name (ps ! (idxs ! i)))
               = Some (max (min' (ps ! (idxs ! i))) (min x (max' (ps ! (idxs ! i)))))"
  using assms
proof (induction n)
  case 0
  then show ?case by simp
next
  case (Suc n)
  let ?maps = "foldl (trial_update ps idxs delta) (cur, tm) [0..<n]"
  have unf: "foldl (trial_update ps idxs delta) (cur, tm) [0..<Suc n]
               = trial_update ps idxs delta ?maps n" by simp
  show ?case
  proof (cases "i = n")
    case True
    then show ?thesis unfolding unf snd_trial_update by (simp add: Let_def) blast
  next
    case False
    with Suc.prems have i: "i < n" by simp
    from Suc.prems(1) have d: "distinct (map (\<lambda>i. name (ps ! (idxs ! i))) [0..<n])"
      and ne: "name (ps ! (idxs ! n)) \<noteq> name (ps ! (idxs ! i))"
      using i by (auto simp: image_iff)
    from Suc.IH [OF d i] obtain x where
      "snd ?maps (name (ps ! (idxs ! i)))
         = Some (max (min' (ps ! (idxs ! i))) (min x (max' (ps ! (idxs ! i)))))" by blast
    then show ?thesis unfolding unf snd_trial_update using ne by (simp add: Let_def) blast
  qed
qed

lemma dom_snd_foldl_trial_update:
  "dom tm \<subseteq> dom (snd (foldl (trial_update ps idxs delta) (cur, tm) [0..<n]))"
proof (induction n)
  case 0
  then show ?case by simp
next
  case (Suc n)
  have unf: "foldl (trial_update ps idxs delta) (cur, tm) [0..<Suc n]
               = trial_update ps idxs delta (foldl (trial_update ps idxs delta) (cur, tm) [0..<n]) n"
    by simp
  show ?case unfolding unf snd_trial_update using Suc.IH by auto
qed

lemma dom_updateDeps: "dom m \<subseteq> dom (updateDeps m)"
  by (auto simp: updateDeps_def)

lemma dom_constrain_kf: "dom m \<subseteq> dom (constrain_kf m)"
  by (auto simp: constrain_kf_def)

lemma dom_constrain_omega: "dom m \<subseteq> dom (constrain_omega m)"
  by (auto simp: constrain_omega_def)

lemma dom_snd_trialMaps: "dom (currentParamMap st) \<subseteq> dom (snd (trialMaps cx H g st))"
proof -
  have "dom (currentParamMap st) \<subseteq> dom (snd (foldl (trial_update (cx_params cx) (cx_fitIndices cx)
           (solveLinearSystem (cx_ldlt cx) (damped H (lambda st) (length (cx_fitIndices cx)))
              (map (\<lambda>i. - (g ! i)) [0..<length (cx_fitIndices cx)])))
           (currentParamMap st, currentParamMap st) [0..<length (cx_fitIndices cx)]))"
    by (rule dom_snd_foldl_trial_update)
  also have "\<dots> \<subseteq> dom (snd (trialMaps cx H g st))"
    unfolding trialMaps_def Let_def snd_conv
    using dom_updateDeps dom_constrain_kf dom_constrain_omega by (meson order_trans)
  finally show ?thesis .
qed


lemma projections_keep_bounds:
  assumes "\<forall>p \<in> set ps. isFit p \<and> name p \<noteq> ''LfD'' \<longrightarrow>
             (\<exists>v. m (name p) = Some v \<and> min' p \<le> v \<and> v \<le> max' p)"
  shows "free_within_bounds_or_projected ps (constrain_omega (constrain_kf (updateDeps m)))"
  unfolding free_within_bounds_or_projected_def
proof (intro ballI impI)
  fix p assume p: "p \<in> set ps" and free: "isFit p \<and> name p \<noteq> ''LfD''"
  with assms obtain v where v: "m (name p) = Some v" "min' p \<le> v" "v \<le> max' p" by blast
  let ?m1 = "updateDeps m"
  have m1: "?m1 (name p) = Some v" using v(1) free by (simp add: updateDeps_def)
  let ?m2 = "constrain_kf ?m1"
  have m2: "?m2 (name p) = Some v
            \<or> name p = ''kf'' \<and> ?m2 ''km'' \<noteq> None
               \<and> ?m2 (name p) = Some (qmap_value ?m2 ''km'' * 1.01)"
    using m1 by (auto simp: constrain_kf_def qmap_contains_def qmap_value_def)
  let ?m3 = "constrain_omega ?m2"
  have kf: "?m3 ''kf'' = ?m2 ''kf''" and km: "?m3 ''km'' = ?m2 ''km''"
    by (simp_all add: constrain_omega_def)
  have kmv: "qmap_value ?m3 ''km'' = qmap_value ?m2 ''km''"
    by (simp add: qmap_value_def km)
  show "\<exists>v. ?m3 (name p) = Some v \<and>
          (min' p \<le> v \<and> v \<le> max' p
           \<or> name p = ''kf'' \<and> ?m3 ''km'' \<noteq> None \<and> v = qmap_value ?m3 ''km'' * 1.01
           \<or> name p = ''omega1'' \<and> ?m3 ''omega2'' \<noteq> None
              \<and> v = qmap_value ?m3 ''omega2'' * 1.01)"
  proof (cases "name p = ''omega1''")
    case True
    then have m2v: "?m2 ''omega1'' = Some v" using m2 by auto
    show ?thesis
    proof (cases "?m2 ''omega2'' \<noteq> None \<and> v \<le> qmap_value ?m2 ''omega2''")
      case fires: True
      then have m3: "?m3 = ?m2(''omega1'' \<mapsto> qmap_value ?m2 ''omega2'' * 1.01)"
        using m2v by (simp add: constrain_omega_def qmap_contains_def qmap_value_def)
      have "?m3 ''omega2'' = ?m2 ''omega2''" unfolding m3 by simp
      moreover from this have "qmap_value ?m3 ''omega2'' = qmap_value ?m2 ''omega2''"
        by (simp add: qmap_value_def)
      moreover have "?m3 ''omega1'' = Some (qmap_value ?m2 ''omega2'' * 1.01)"
        unfolding m3 by simp
      ultimately show ?thesis using True fires
        by (intro exI [of _ "qmap_value ?m2 ''omega2'' * 1.01"]) simp
    next
      case False
      then have "?m3 = ?m2"
        using m2v by (auto simp: constrain_omega_def qmap_contains_def qmap_value_def)
      then show ?thesis using m2v True v(2,3) by simp
    qed
  next
    case False
    then have same: "?m3 (name p) = ?m2 (name p)" by (simp add: constrain_omega_def)
    from m2 show ?thesis
    proof
      assume "?m2 (name p) = Some v"
      with same v(2,3) show ?thesis by simp
    next
      assume a: "name p = ''kf'' \<and> ?m2 ''km'' \<noteq> None
               \<and> ?m2 (name p) = Some (qmap_value ?m2 ''km'' * 1.01)"
      then show ?thesis using same km kmv
        by (intro exI [of _ "qmap_value ?m2 ''km'' * 1.01"]) auto
    qed
  qed
qed

lemma free_parameter_index:
  assumes "p \<in> set ps" and "isFit p \<and> name p \<noteq> ''LfD''"
  shows "\<exists>i < length (freeIndices ps). ps ! (freeIndices ps ! i) = p"
proof -
  from assms(1) obtain k where k: "k < length ps" "ps ! k = p" by (auto simp: in_set_conv_nth)
  with assms(2) have "k \<in> set (freeIndices ps)" by (simp add: freeIndices_def)
  then obtain i where "i < length (freeIndices ps)" "freeIndices ps ! i = k"
    by (auto simp: in_set_conv_nth)
  with k show ?thesis by auto
qed

lemma trialMaps_bounded:
  assumes "cx_params cx = ps" and "cx_fitIndices cx = freeIndices ps"
    and "distinct (map (\<lambda>i. name (ps ! i)) (freeIndices ps))"
    and "\<forall>p \<in> set ps. isFit p \<and> name p \<noteq> ''LfD'' \<longrightarrow> min' p \<le> max' p"
  shows "free_within_bounds_or_projected ps (snd (trialMaps cx H g st))"
proof -
  let ?idxs = "freeIndices ps"
  let ?delta = "solveLinearSystem (cx_ldlt cx) (damped H (lambda st) (length ?idxs))
                  (map (\<lambda>i. - (g ! i)) [0..<length ?idxs])"
  let ?maps = "foldl (trial_update ps ?idxs ?delta) (currentParamMap st, currentParamMap st)
                 [0..<length ?idxs]"
  have d: "distinct (map (\<lambda>i. name (ps ! (?idxs ! i))) [0..<length ?idxs])"
  proof -
    have "map (\<lambda>i. name (ps ! (?idxs ! i))) [0..<length ?idxs] = map (\<lambda>i. name (ps ! i)) ?idxs"
      by (rule nth_equalityI) simp_all
    with assms(3) show ?thesis by simp
  qed
  have "\<forall>p \<in> set ps. isFit p \<and> name p \<noteq> ''LfD'' \<longrightarrow>
             (\<exists>v. snd ?maps (name p) = Some v \<and> min' p \<le> v \<and> v \<le> max' p)"
  proof (intro ballI impI)
    fix p assume p: "p \<in> set ps" and free: "isFit p \<and> name p \<noteq> ''LfD''"
    from free_parameter_index [OF p free] obtain i where
      i: "i < length ?idxs" "ps ! (?idxs ! i) = p" by blast
    from snd_foldl_trial_update [OF d i(1), of ?delta "currentParamMap st" "currentParamMap st"]
    obtain x where "snd ?maps (name p) = Some (max (min' p) (min x (max' p)))"
      unfolding i(2) by blast
    moreover have "min' p \<le> max' p" using assms(4) p free by blast
    ultimately show "\<exists>v. snd ?maps (name p) = Some v \<and> min' p \<le> v \<and> v \<le> max' p"
      by auto
  qed
  from projections_keep_bounds [OF this] show ?thesis
    by (simp add: trialMaps_def Let_def assms(1,2))
qed


lemma free_names_present:
  assumes "name ` set ps \<subseteq> dom m"
  shows "(\<lambda>i. name (ps ! i)) ` set (freeIndices ps) \<subseteq> dom m"
  using assms by (auto simp: freeIndices_def image_subset_iff)

lemma lm_try_invariant:
  assumes "cx_params cx = ps" and "cx_fitIndices cx = freeIndices ps"
    and "distinct (map (\<lambda>i. name (ps ! i)) (freeIndices ps))"
    and "\<forall>p \<in> set ps. isFit p \<and> name p \<noteq> ''LfD'' \<longrightarrow> min' p \<le> max' p"
    and "lm_invariant ps (currentParamMap st)"
  shows "lm_invariant ps (currentParamMap (fst (snd (lm_try cx H g nRes st))))
       \<and> list_all (free_within_bounds_or_projected ps) (snapshotMaps (snd (snd (lm_try cx H g nRes st))))"
proof (cases "trialSSE cx H g st < currentSSE st")
  case True
  have b: "free_within_bounds_or_projected ps (snd (trialMaps cx H g st))"
    by (rule trialMaps_bounded [OF assms(1-4)])
  have "name ` set ps \<subseteq> dom (currentParamMap st)"
    using assms(5) by (simp add: lm_invariant_def)
  then have "name ` set ps \<subseteq> dom (snd (trialMaps cx H g st))"
    using dom_snd_trialMaps [of st cx H g] by (rule order_trans)
  with b show ?thesis by (simp add: lm_try_accepted [OF True] lm_invariant_def)
next
  case False
  have names: "(\<lambda>i. name (cx_params cx ! i)) ` set (cx_fitIndices cx) \<subseteq> dom (currentParamMap st)"
    unfolding assms(1,2) using assms(5) by (intro free_names_present) (simp add: lm_invariant_def)
  show ?thesis using assms(5) by (simp add: lm_try_rejected [OF names False])
qed

lemma damping_search_invariant:
  assumes "cx_params cx = ps" and "cx_fitIndices cx = freeIndices ps"
    and "distinct (map (\<lambda>i. name (ps ! i)) (freeIndices ps))"
    and "\<forall>p \<in> set ps. isFit p \<and> name p \<noteq> ''LfD'' \<longrightarrow> min' p \<le> max' p"
    and "lm_invariant ps (currentParamMap st)"
  shows "lm_invariant ps (currentParamMap (fst (snd (damping_search cx H g nRes tryIter st))))
       \<and> list_all (free_within_bounds_or_projected ps)
            (snapshotMaps (snd (snd (damping_search cx H g nRes tryIter st))))"
proof -
  have names: "(\<lambda>i. name (cx_params cx ! i)) ` set (cx_fitIndices cx) \<subseteq> dom (currentParamMap st)"
    unfolding assms(1,2) using assms(5) by (intro free_names_present) (simp add: lm_invariant_def)
  from damping_search_char [OF names refl, of tryIter H g nRes]
  obtain k where
    "damping_search cx H g nRes tryIter st = lm_try cx H g nRes (st\<lparr>lambda := lambda st * 10 ^ k\<rparr>)
     \<or> damping_search cx H g nRes tryIter st = (False, st\<lparr>lambda := lambda st * 10 ^ k\<rparr>, [])"
    by (metis (no_types, lifting))
  then show ?thesis
  proof
    assume eq: "damping_search cx H g nRes tryIter st
                  = lm_try cx H g nRes (st\<lparr>lambda := lambda st * 10 ^ k\<rparr>)"
    have "lm_invariant ps (currentParamMap (st\<lparr>lambda := lambda st * 10 ^ k\<rparr>))"
      using assms(5) by simp
    from lm_try_invariant [OF assms(1-4) this] show ?thesis unfolding eq .
  next
    assume "damping_search cx H g nRes tryIter st = (False, st\<lparr>lambda := lambda st * 10 ^ k\<rparr>, [])"
    then show ?thesis using assms(5) by simp
  qed
qed

lemma lm_loop_invariant:
  assumes "cx_params cx = ps" and "cx_fitIndices cx = freeIndices ps"
    and "distinct (map (\<lambda>i. name (ps ! i)) (freeIndices ps))"
    and "\<forall>p \<in> set ps. isFit p \<and> name p \<noteq> ''LfD'' \<longrightarrow> min' p \<le> max' p"
    and "lm_invariant ps (currentParamMap st)"
    and "n = 50 - iter"
  shows "lm_invariant ps (currentParamMap (fst (lm_loop cx iter st)))
       \<and> list_all (free_within_bounds_or_projected ps) (snapshotMaps (snd (lm_loop cx iter st)))"
  using assms(5,6)
proof (induction n arbitrary: iter st)
  case 0
  then have "\<not> iter < 50" by simp
  then show ?case using "0.prems"(1) by (simp add: lm_loop.simps [of cx iter st])
next
  case (Suc n)
  then have lt: "iter < 50" by simp
  let ?ds = "damping_search cx (fst (normalEquations cx st)) (snd (normalEquations cx st))
               (length (residuals st)) 0 st"
  obtain acc st' evs where ds: "?ds = (acc, st', evs)" by (cases ?ds) auto
  from damping_search_invariant [OF assms(1-4) Suc.prems(1),
      of "fst (normalEquations cx st)" "snd (normalEquations cx st)" "length (residuals st)" 0]
  have inv': "lm_invariant ps (currentParamMap st')"
    and evs: "list_all (free_within_bounds_or_projected ps) (snapshotMaps evs)"
    unfolding ds by simp_all
  have n: "n = 50 - Suc iter" using Suc.prems(2) by simp
  note IH = Suc.IH [OF inv' n]
  obtain st'' evs' where rec: "lm_loop cx (Suc iter) st' = (st'', evs')"
    by (cases "lm_loop cx (Suc iter) st'") auto
  show ?case
    using lt Suc.prems(1) inv' evs IH
    by (simp add: lm_loop.simps [of cx iter st] Let_def ds rec snapshotMaps_append)
qed


lemma dom_foldl_insert:
  "dom (foldl (\<lambda>m p. m(name p \<mapsto> value' p)) m0 ps) = dom m0 \<union> name ` set ps"
  by (induction ps arbitrary: m0) auto

lemma dom_initialParamMap: "dom (initialParamMap ps) = name ` set ps"
  by (simp add: initialParamMap_def dom_foldl_insert)

lemma lm_invariant_initial: "lm_invariant ps (projectedInitialMap ps)"
proof -
  have "name ` set ps \<subseteq> dom (constrain_kf (initialParamMap ps))"
    using dom_constrain_kf [of "initialParamMap ps"] by (simp add: dom_initialParamMap)
  also have "\<dots> \<subseteq> dom (constrain_omega (constrain_kf (initialParamMap ps)))"
    by (rule dom_constrain_omega)
  also have "\<dots> \<subseteq> dom (projectedInitialMap ps)"
    unfolding projectedInitialMap_def by (rule dom_updateDeps)
  finally show ?thesis by (simp add: lm_invariant_def)
qed

lemma list_all_weaken:
  "list_all P xs \<Longrightarrow> list_all (\<lambda>x. x = a \<or> P x) xs"
  by (induction xs) auto

subsection \<open>Two sessions, evaluated\<close>

text \<open>A session that is stopped at the first poll emits the baseline and the final snapshot.\<close>

lemma ex_free_stopped: "freeIndices [ex_kf, ex_km, ex_C] = [0, 2]"
  by (simp add: freeIndices_def ex_kf_def ex_km_def ex_C_def upt_rec)

lemma ex_initial_stopped:
  "projectedInitialMap [ex_kf, ex_km, ex_C] = [''kf'' \<mapsto> 1, ''km'' \<mapsto> 2, ''C'' \<mapsto> 5, ''kf'' \<mapsto> 2.02]"
  by (simp add: projectedInitialMap_def initialParamMap_def ex_kf_def ex_km_def ex_C_def
      constrain_kf_def constrain_omega_def updateDeps_def qmap_contains_def qmap_value_def)

lemma ex_sampled_empty: "getLogSampledData ex_core_stopped [] [] [] = ([], [], [])"
  by (simp add: getLogSampledData_def)

lemma ex_run_stopped:
  "runLevenbergMarquardtOptimization ex_core_stopped (\<lambda>A b i. 0) () [ex_kf, ex_km, ex_C] 1 =
     Some [sigIterationUpdated 0 [''kf'' \<mapsto> 1, ''km'' \<mapsto> 2, ''C'' \<mapsto> 5, ''kf'' \<mapsto> 2.02] [] [] [],
           sigIterationUpdated 0 [''kf'' \<mapsto> 1, ''km'' \<mapsto> 2, ''C'' \<mapsto> 5, ''kf'' \<mapsto> 2.02] [] [] []]"
proof -
  have mm: "m_modelManager ex_core_stopped = Some ex_eval_none"
    and obs: "m_obsTime ex_core_stopped = []" "m_obsDeltaP ex_core_stopped = []"
      "m_obsDerivative ex_core_stopped = []"
    and stop: "m_stopRequested ex_core_stopped = (\<lambda>i. True)"
    by (simp_all add: ex_core_stopped_def)
  show ?thesis
    unfolding runLevenbergMarquardtOptimization_def Let_def ex_free_stopped mm obs
      ex_sampled_empty ex_initial_stopped stop
    by (simp add: lm_loop.simps calculateResiduals_def calculateSumSquaredError_def
        ex_eval_none_def)
qed

text \<open>
  A session with one accepted step: the solver's step \<open>-10\<close> is clamped to the lower bound
  \<open>-5\<close> of the skin, the residual vanishes there, the step is accepted and the next
  iteration leaves the loop at the convergence gate.
\<close>

lemma ex_search_run:
  "damping_search ex_cx_run H g nRes 0 ex_st_run =
    (True, \<lparr>lambda = 1 / 1000, currentSSE = 0, currentParamMap = [''S'' \<mapsto> - 5], residuals = [0]\<rparr>,
     [sigIterationUpdated 0 [''S'' \<mapsto> - 5] [] [- 2] []])"
proof -
  have m: "currentParamMap ex_st_run = [''S'' \<mapsto> 0]" by (simp add: ex_st_run_def)
  have acc: "trialSSE ex_cx_run H g ex_st_run < currentSSE ex_st_run"
    by (simp add: ex_trialSSE_run [OF m]) (simp add: ex_st_run_def ex_ln3_sq)
  show ?thesis
    unfolding damping_search_accept [OF _ acc, of 0, simplified] lm_try_accepted [OF acc]
      ex_trialSSE_run [OF m] ex_trialMaps_run [OF m]
    by (simp add: ex_st_run_def ex_cx_run_def ex_eval_skin_def qmap_value_def)
qed

lemma ex_loop_run:
  "lm_loop ex_cx_run 0 ex_st_run =
    (\<lparr>lambda = 1 / 1000, currentSSE = 0, currentParamMap = [''S'' \<mapsto> - 5], residuals = [0]\<rparr>,
     [sigProgress 0, sigIterationUpdated 0 [''S'' \<mapsto> - 5] [] [- 2] []])"
proof -
  have res: "residuals ex_st_run = [- ln 3]" "currentSSE ex_st_run = (ln 3)\<^sup>2"
    by (simp_all add: ex_st_run_def)
  have stop: "cx_stopRequested ex_cx_run = (\<lambda>i. False)" by (simp add: ex_cx_run_def)
  have next_iter: "lm_loop ex_cx_run (Suc 0)
           \<lparr>lambda = 1 / 1000, currentSSE = 0, currentParamMap = [''S'' \<mapsto> - 5], residuals = [0]\<rparr>
         = (\<lparr>lambda = 1 / 1000, currentSSE = 0, currentParamMap = [''S'' \<mapsto> - 5], residuals = [0]\<rparr>, [])"
    by (simp add: lm_loop.simps stop)
  show ?thesis
    by (subst lm_loop.simps) (simp add: res stop Let_def ex_search_run ex_ln3_sq next_iter)
qed

lemma ex_cx_run_fields:
  "cx_calc ex_cx_run = ex_eval_skin" "cx_modelType ex_cx_run = ()" "cx_weight ex_cx_run = 1"
  "cx_fitT ex_cx_run = [1]" "cx_fitP ex_cx_run = [1]" "cx_fitD ex_cx_run = []"
  by (simp_all add: ex_cx_run_def)

lemma ex_run_skin:
  "runLevenbergMarquardtOptimization ex_core_skin (\<lambda>A b i. - 10) () [ex_S] 1 =
     Some [sigIterationUpdated ((ln 3)\<^sup>2) [''S'' \<mapsto> 0] [] [3] [],
           sigProgress 0,
           sigIterationUpdated 0 [''S'' \<mapsto> - 5] [] [- 2] [],
           sigIterationUpdated 0 [''S'' \<mapsto> - 5] [] [- 2] []]"
proof -
  have mm: "m_modelManager ex_core_skin = Some ex_eval_skin"
    and obs: "m_obsTime ex_core_skin = [1]" "m_obsDeltaP ex_core_skin = [1]"
      "m_obsDerivative ex_core_skin = []"
    and stop: "m_stopRequested ex_core_skin = (\<lambda>i. False)"
    by (simp_all add: ex_core_skin_def)
  have sse: "calculateSumSquaredError [- ln 3] = (ln 3)\<^sup>2"
    by (simp add: calculateSumSquaredError_def power2_eq_square)
  show ?thesis
    unfolding runLevenbergMarquardtOptimization_def Let_def ex_free_skin mm obs
      ex_sampled_skin ex_initial_skin stop
    by (simp add: ex_cx_run_def [symmetric] ex_cx_run_fields ex_residuals_skin sse
        ex_st_run_def [symmetric] ex_loop_run)
       (simp add: ex_eval_skin_def qmap_value_def)
qed


subsection \<open>Claim C1\<close>

text \<open>
  Claim C1, as stated, fails. With \<open>kf = 1\<close> in \<open>[0, 1.5]\<close>, \<open>km = 2\<close> and \<open>C = 5\<close> with
  bounds \<open>[0, 1]\<close>, the initial projection sets \<open>kf\<close> to \<open>2.02\<close>, nothing clamps the
  initial values, and both the baseline and the final snapshot of a session stopped at
  once carry \<open>kf = 2.02\<close> and \<open>C = 5\<close>, outside their bounds.
\<close>

theorem C1_free_parameters_within_bounds_counterexample:
  "runLevenbergMarquardtOptimization ex_core_stopped (\<lambda>A b i. 0) () [ex_kf, ex_km, ex_C] 1 \<noteq> None
   \<and> map (\<lambda>m. (m ''kf'', m ''C''))
        (snapshotMaps (the (runLevenbergMarquardtOptimization ex_core_stopped (\<lambda>A b i. 0) ()
           [ex_kf, ex_km, ex_C] 1)))
      = [(Some 2.02, Some 5), (Some 2.02, Some 5)]
   \<and> \<not> list_all (free_within_bounds [ex_kf, ex_km, ex_C])
        (snapshotMaps (the (runLevenbergMarquardtOptimization ex_core_stopped (\<lambda>A b i. 0) ()
           [ex_kf, ex_km, ex_C] 1)))"
  unfolding ex_run_stopped
  by (simp add: free_within_bounds_def ex_kf_def ex_km_def ex_C_def)


text \<open>
  Claim C1, amended. When the free parameters have distinct names and \<open>min \<le> max\<close>, the
  map of every snapshot of a session is either the initial map after its projections
  (the baseline, which is not clamped, and the final snapshot when no step was
  accepted) or a map in which every free parameter is within its bounds, except that
  \<open>kf\<close> may instead equal \<open>1.01 km\<close> and \<open>omega1\<close> may instead equal \<open>1.01 omega2\<close>.
\<close>

theorem C1_snapshots_bounded_or_initial:
  assumes "distinct (map (\<lambda>i. name (ps ! i)) (freeIndices ps))"
    and "\<forall>p \<in> set ps. isFit p \<and> name p \<noteq> ''LfD'' \<longrightarrow> min' p \<le> max' p"
    and "runLevenbergMarquardtOptimization core solver mt ps w = Some evs"
  shows "list_all (\<lambda>m. m = projectedInitialMap ps \<or> free_within_bounds_or_projected ps m)
           (snapshotMaps evs)"
proof (cases "length (freeIndices ps) = 0")
  case True
  with assms(3) have "evs = [sigFitFinished]"
    by (simp add: runLevenbergMarquardtOptimization_def)
  then show ?thesis by simp
next
  case False
  with assms(3) obtain ev where ev: "m_modelManager core = Some ev"
    by (cases "m_modelManager core") (simp_all add: runLevenbergMarquardtOptimization_def Let_def)
  define sampled where "sampled = getLogSampledData core (m_obsTime core) (m_obsDeltaP core)
                               (m_obsDerivative core)"
  define cx where "cx = \<lparr>cx_calc = ev, cx_ldlt = solver, cx_stopRequested = m_stopRequested core,
                         cx_modelType = mt, cx_params = ps, cx_weight = w,
                         cx_fitIndices = freeIndices ps,
                         cx_fitT = fst sampled, cx_fitP = fst (snd sampled),
                         cx_fitD = snd (snd sampled)\<rparr>"
  define res0 where "res0 = calculateResiduals (Some ev) False (projectedInitialMap ps) mt w
                            (cx_fitT cx) (cx_fitP cx) (cx_fitD cx)"
  define st0 where "st0 = \<lparr>lambda = 0.01, currentSSE = calculateSumSquaredError res0,
                          currentParamMap = projectedInitialMap ps, residuals = res0\<rparr>"
  obtain st loop_evs where loop: "lm_loop cx 0 st0 = (st, loop_evs)"
    by (cases "lm_loop cx 0 st0") auto
  have maps: "snapshotMaps evs = projectedInitialMap ps # snapshotMaps loop_evs @ [currentParamMap st]"
    using assms(3) False loop
    by (auto simp: runLevenbergMarquardtOptimization_def Let_def ev sampled_def cx_def res0_def
        st0_def snapshotMaps_append)
  have inv0: "lm_invariant ps (currentParamMap st0)"
    by (simp add: st0_def lm_invariant_initial)
  have "lm_invariant ps (currentParamMap (fst (lm_loop cx 0 st0)))
       \<and> list_all (free_within_bounds_or_projected ps) (snapshotMaps (snd (lm_loop cx 0 st0)))"
    by (rule lm_loop_invariant [OF _ _ assms(1,2) inv0 refl]) (simp_all add: cx_def)
  then have "lm_invariant ps (currentParamMap st)"
    and "list_all (free_within_bounds_or_projected ps) (snapshotMaps loop_evs)"
    unfolding loop by simp_all
  then show ?thesis
    unfolding maps by (simp add: lm_invariant_def list_all_weaken)
qed

theorem C1_snapshots_bounded_or_initial_witness:
  "distinct (map (\<lambda>i. name ([ex_S] ! i)) (freeIndices [ex_S]))
   \<and> min' ex_S \<le> max' ex_S
   \<and> map (\<lambda>m. m ''S'')
        (snapshotMaps (the (runLevenbergMarquardtOptimization ex_core_skin (\<lambda>A b i. - 10) () [ex_S] 1)))
      = [Some 0, Some (- 5), Some (- 5)]
   \<and> list_all (\<lambda>m. m = projectedInitialMap [ex_S] \<or> free_within_bounds_or_projected [ex_S] m)
        (snapshotMaps (the (runLevenbergMarquardtOptimization ex_core_skin (\<lambda>A b i. - 10) () [ex_S] 1)))"
proof -
  have d: "distinct (map (\<lambda>i. name ([ex_S] ! i)) (freeIndices [ex_S]))"
    by (simp add: ex_free_skin)
  have b: "\<forall>p \<in> set [ex_S]. isFit p \<and> name p \<noteq> ''LfD'' \<longrightarrow> min' p \<le> max' p"
    by (simp add: ex_S_def)
  from C1_snapshots_bounded_or_initial [OF d b ex_run_skin] d
  show ?thesis unfolding ex_run_skin by (simp add: ex_S_def)
qed

subsection \<open>The finished signal\<close>

text \<open>
  The loops emit no \<open>sigFitFinished\<close>. With a free parameter the only one of a session is
  the forwarded signal of the watcher, after every other signal.
\<close>

lemma lm_try_no_finished: "sigFitFinished \<notin> set (snd (snd (lm_try cx H g nRes st)))"
  by (simp add: lm_try_def Let_def)

lemma damping_search_no_finished:
  "n = 5 - tryIter \<Longrightarrow> sigFitFinished \<notin> set (snd (snd (damping_search cx H g nRes tryIter st)))"
proof (induction n arbitrary: tryIter st)
  case 0
  then show ?case by (simp add: damping_search.simps [of cx H g nRes tryIter st])
next
  case (Suc n)
  obtain acc st' evs where t: "lm_try cx H g nRes st = (acc, st', evs)"
    by (cases "lm_try cx H g nRes st") auto
  have evs: "sigFitFinished \<notin> set evs" using lm_try_no_finished [of cx H g nRes st] t by simp
  have n: "n = 5 - Suc tryIter" using Suc.prems by simp
  obtain acc' st'' evs' where r: "damping_search cx H g nRes (Suc tryIter) st' = (acc', st'', evs')"
    by (cases "damping_search cx H g nRes (Suc tryIter) st'") auto
  have "sigFitFinished \<notin> set evs'" using Suc.IH [OF n, of st'] r by simp
  with evs show ?case
    by (cases acc) (simp_all add: damping_search.simps [of cx H g nRes tryIter st] t r)
qed

lemma lm_loop_no_finished:
  "n = 50 - iter \<Longrightarrow> sigFitFinished \<notin> set (snd (lm_loop cx iter st))"
proof (induction n arbitrary: iter st)
  case 0
  then show ?case by (simp add: lm_loop.simps [of cx iter st])
next
  case (Suc n)
  let ?ds = "damping_search cx (fst (normalEquations cx st)) (snd (normalEquations cx st))
               (length (residuals st)) 0 st"
  obtain acc st' evs where ds: "?ds = (acc, st', evs)" by (cases ?ds) auto
  have evs: "sigFitFinished \<notin> set evs"
    using damping_search_no_finished [OF refl, of cx "fst (normalEquations cx st)"
        "snd (normalEquations cx st)" "length (residuals st)" 0 st] ds by simp
  have n: "n = 50 - Suc iter" using Suc.prems by simp
  obtain st'' evs' where rec: "lm_loop cx (Suc iter) st' = (st'', evs')"
    by (cases "lm_loop cx (Suc iter) st'") auto
  have "sigFitFinished \<notin> set evs'" using Suc.IH [OF n, of st'] rec by simp
  with evs show ?case
    by (simp add: lm_loop.simps [of cx iter st] Let_def ds rec)
qed

lemma startFit_finished_once:
  assumes "freeIndices ps \<noteq> []"
    and "startFit False core solver mt ps w = Some evs"
  shows "count_list evs sigFitFinished = 1 \<and> last evs = sigFitFinished"
proof -
  from assms obtain ev where ev: "m_modelManager core = Some ev"
    by (cases "m_modelManager core")
       (simp_all add: startFit_def runOptimizationTask_def
         runLevenbergMarquardtOptimization_def Let_def)
  define sampled where "sampled = getLogSampledData core (m_obsTime core) (m_obsDeltaP core)
                               (m_obsDerivative core)"
  define cx where "cx = \<lparr>cx_calc = ev, cx_ldlt = solver, cx_stopRequested = m_stopRequested core,
                         cx_modelType = mt, cx_params = ps, cx_weight = w,
                         cx_fitIndices = freeIndices ps,
                         cx_fitT = fst sampled, cx_fitP = fst (snd sampled),
                         cx_fitD = snd (snd sampled)\<rparr>"
  define res0 where "res0 = calculateResiduals (Some ev) False (projectedInitialMap ps) mt w
                            (cx_fitT cx) (cx_fitP cx) (cx_fitD cx)"
  define st0 where "st0 = \<lparr>lambda = 0.01, currentSSE = calculateSumSquaredError res0,
                          currentParamMap = projectedInitialMap ps, residuals = res0\<rparr>"
  obtain st loop_evs where loop: "lm_loop cx 0 st0 = (st, loop_evs)"
    by (cases "lm_loop cx 0 st0") auto
  have nf: "sigFitFinished \<notin> set loop_evs"
    using lm_loop_no_finished [OF refl, of cx 0 st0] loop by simp
  have "\<exists>e1 e2. evs = e1 # loop_evs @ [e2, sigFitFinished] \<and> e1 \<noteq> sigFitFinished
          \<and> e2 \<noteq> sigFitFinished"
    using assms loop
    by (auto simp: startFit_def runOptimizationTask_def runLevenbergMarquardtOptimization_def
        Let_def ev sampled_def cx_def res0_def st0_def)
  then obtain e1 e2 where evs: "evs = e1 # loop_evs @ [e2, sigFitFinished]"
    and ne: "e1 \<noteq> sigFitFinished" "e2 \<noteq> sigFitFinished" by blast
  have "count_list loop_evs sigFitFinished = 0" using nf by (simp add: count_list_0_iff)
  then show ?thesis using ne unfolding evs by simp
qed

lemma startFit_no_free_parameters:
  assumes "freeIndices ps = []"
  shows "startFit False core solver mt ps w = Some [sigFitFinished, sigFitFinished]"
  using assms
  by (simp add: startFit_def runOptimizationTask_def runLevenbergMarquardtOptimization_def)

text \<open>
  Claim C7 at a parameter list without a free parameter: the driver emits
  \<open>sigFitFinished\<close> itself and returns, and the watcher's signal is forwarded when the
  task has returned, so the session emits \<open>sigFitFinished\<close> twice; no
  \<open>sigIterationUpdated\<close> is emitted and the trace does not depend on the evaluator.
\<close>

theorem C7_finished_twice_without_free_parameters:
  "startFit False ex_core_skin (\<lambda>A b i. 0) () [ex_km] 1 = Some [sigFitFinished, sigFitFinished]
   \<and> count_list (the (startFit False ex_core_skin (\<lambda>A b i. 0) () [ex_km] 1)) sigFitFinished = 2"
proof -
  have "freeIndices [ex_km] = []" by (simp add: freeIndices_def ex_km_def)
  from startFit_no_free_parameters [OF this, of ex_core_skin "\<lambda>A b i. 0" "()" 1]
  show ?thesis by simp
qed

section \<open>Properties of the resampler\<close>

lemma set_unique_from: "set (unique_from k xs) \<subseteq> insert k (set xs)"
  by (induction xs arbitrary: k) auto

lemma hd_unique_from: "hd (unique_from k xs) = k"
  by (induction xs arbitrary: k) auto

lemma unique_from_apart:
  assumes "sorted (map fst (k # xs))"
  shows "strictly_ascending_apart (map fst (unique_from k xs))"
  using assms
proof (induction xs arbitrary: k)
  case Nil
  then show ?case by (simp add: strictly_ascending_apart_def)
next
  case (Cons x xs)
  show ?case
  proof (cases "\<bar>fst k - fst x\<bar> < 1 / 10 ^ 9")
    case True
    have "sorted (map fst (k # xs))" using Cons.prems by auto
    from Cons.IH [OF this] True show ?thesis by simp
  next
    case False
    have sx: "sorted (map fst (x # xs))" using Cons.prems by simp
    have kx: "fst k \<le> fst x" using Cons.prems by simp
    have later: "fst x \<le> fst y" if "y \<in> set (unique_from x xs)" for y
      using that set_unique_from [of x xs] sx by auto
    have "fst k < fst y \<and> \<not> \<bar>fst k - fst y\<bar> < 1 / 10 ^ 9" if "y \<in> set (unique_from x xs)" for y
      using later [OF that] kx False by auto
    with Cons.IH [OF sx] False show ?thesis
      by (auto simp: strictly_ascending_apart_def)
  qed
qed

lemma apart_Nil: "strictly_ascending_apart []"
  by (simp add: strictly_ascending_apart_def)

lemma std_unique_apart:
  assumes "sorted (map fst xs)"
  shows "strictly_ascending_apart (map fst (std_unique xs))"
proof (cases xs)
  case Nil
  then show ?thesis by (simp add: apart_Nil)
next
  case (Cons x xs')
  with assms have "sorted (map fst (x # xs'))" by simp
  from unique_from_apart [OF this] Cons show ?thesis by simp
qed

lemma sampled_apart:
  "strictly_ascending_apart (map fst (std_unique (sort_key fst xs)))"
  by (rule std_unique_apart) simp

text \<open>
  Claim C3, as stated, fails in the passthrough cases: the non-decreasing positive
  series \<open>[1, 1]\<close> is returned unchanged in the default mode, with its duplicate.
\<close>

theorem C3_resampler_ascending_counterexample:
  "sorted [1, 1 :: real] \<and> list_all (\<lambda>t. 0 < t) [1, 1 :: real]
   \<and> \<not> strictly_ascending_apart (fst (getLogSampledData ex_core_default [1, 1] [2, 3] [4, 5]))"
  by (simp add: getLogSampledData_def ex_core_default_def strictly_ascending_apart_def)


text \<open>
  Claim C3, amended. In the passthrough cases the resampler returns its input unchanged
  (the empty result for an empty input), so the output is strictly ascending only when
  the input is; in every other case, for every input, the returned time sequence is
  strictly ascending with no duplicates within \<open>1e-9\<close>.
\<close>

theorem C3_resampler_ascending:
  "(is_passthrough core srcT \<longrightarrow> getLogSampledData core srcT srcP srcD
       = (if srcT = [] then ([], [], []) else (srcT, srcP, srcD)))
   \<and> (\<not> is_passthrough core srcT \<longrightarrow>
        strictly_ascending_apart (fst (getLogSampledData core srcT srcP srcD)))"
  by (simp add: getLogSampledData_def is_passthrough_def Let_def sampled_apart apart_Nil)

text \<open>The custom plan on a series with a repeated time.\<close>

lemma ex_bounds: "lower_bound [1, 2, 2, 4] 1 = 0" "upper_bound [1, 2, 2, 4] 4 = 4"
  by (simp_all add: lower_bound_def upper_bound_def)

lemma ex_scan_first:
  "scan_nearest [1, 2, 2, 4] 4 1 0 1000000000000000000000000000000 0 = 0"
  by (simp add: scan_nearest.simps)

lemma ex_scan_second:
  "scan_nearest [1, 2, 2, 4] 4 4 0 1000000000000000000000000000000 0 = 1"
  by (simp add: scan_nearest.simps)

lemma ex_interval_points:
  "interval_points [1, 2, 2, 4] [10, 20, 30, 40] [5, 6, 7, 8] []
     \<lparr>tStart = 1, tEnd = 4, count = 2\<rparr> = [(1, 10, 5), (2, 20, 6)]"
  by (simp add: interval_points_def ex_bounds Let_def custom_pick_def upt_rec ex_scan_first
      ex_scan_second dataPoint_def)

lemma ex_custom_sampled:
  "getLogSampledData ex_core_custom [1, 2, 2, 4] [10, 20, 30, 40] [5, 6, 7, 8]
     = ([1, 2], [10, 20], [5, 6])"
  by (simp add: getLogSampledData_def ex_core_custom_def ex_interval_points)

theorem C3_resampler_ascending_witness:
  "is_passthrough ex_core_default [1, 1]
   \<and> getLogSampledData ex_core_default [1, 1] [2, 3] [4, 5] = ([1, 1], [2, 3], [4, 5])
   \<and> \<not> is_passthrough ex_core_custom [1, 2, 2, 4]
   \<and> fst (getLogSampledData ex_core_custom [1, 2, 2, 4] [10, 20, 30, 40] [5, 6, 7, 8]) = [1, 2]
   \<and> strictly_ascending_apart [1, 2]"
proof -
  have p: "is_passthrough ex_core_default [1, 1]"
    by (simp add: is_passthrough_def ex_core_default_def)
  have n: "\<not> is_passthrough ex_core_custom [1, 2, 2, 4]"
    by (simp add: is_passthrough_def ex_core_custom_def)
  from C3_resampler_ascending [of ex_core_default "[1, 1]" "[2, 3]" "[4, 5]"] p
  have a: "getLogSampledData ex_core_default [1, 1] [2, 3] [4, 5] = ([1, 1], [2, 3], [4, 5])"
    by simp
  from C3_resampler_ascending [of ex_core_custom "[1, 2, 2, 4]" "[10, 20, 30, 40]" "[5, 6, 7, 8]"] n
  have "strictly_ascending_apart [1, 2]" by (simp add: ex_custom_sampled)
  with p n a show ?thesis by (simp add: ex_custom_sampled)
qed

section \<open>Properties of the Horner regressor\<close>

lemma floor_three_tenths: "\<lfloor>real N * 3 / 10\<rfloor> = int (3 * N div 10)"
proof -
  have "real N * 3 / 10 = real (3 * N) / real 10" by (simp add: mult.commute)
  then have "\<lfloor>real N * 3 / 10\<rfloor> = \<lfloor>real (3 * N) / real 10\<rfloor>" by (rule arg_cong)
  also have "\<dots> = int (3 * N div 10)" by (rule floor_divide_of_nat_eq)
  finally show ?thesis .
qed

lemma horner_fitCount_div: "horner_fitCount N = (if 3 * N div 10 < 3 then N else 3 * N div 10)"
  by (simp add: horner_fitCount_def Let_def floor_three_tenths)

lemma spec_fit_count_div: "spec_fit_count N = max (3 * N div 10) 3"
proof -
  have "\<lfloor>3 * real N / 10\<rfloor> = int (3 * N div 10)"
    using floor_three_tenths [of N] by (simp add: mult.commute)
  then show ?thesis by (simp add: spec_fit_count_def)
qed

lemma horner_fitCount_eq:
  "horner_fitCount N = (if 10 \<le> N then spec_fit_count N else N)"
  unfolding horner_fitCount_div spec_fit_count_div by auto

lemma foldl_horner_accumulate:
  "foldl (horner_accumulate X Y) (sx, sy, sxy, sxx, c) [a..<b] =
    (sx + (\<Sum>i\<leftarrow>[a..<b]. X ! i), sy + (\<Sum>i\<leftarrow>[a..<b]. Y ! i),
     sxy + (\<Sum>i\<leftarrow>[a..<b]. X ! i * Y ! i), sxx + (\<Sum>i\<leftarrow>[a..<b]. X ! i * X ! i),
     c + (b - a))"
proof (induction b)
  case 0
  then show ?case by simp
next
  case (Suc b)
  show ?case
  proof (cases "a \<le> b")
    case True
    then show ?thesis using Suc by (simp add: horner_accumulate_def Suc_diff_le)
  next
    case False
    then show ?thesis by simp
  qed
qed

lemma map_nth_drop:
  assumes "\<And>p. f p = g p"
  shows "map (\<lambda>i. f (xs ! i)) [a..<length xs] = map g (drop a xs)"
proof -
  have "map g (drop a xs) = map g (drop a (map ((!) xs) [0..<length xs]))"
    by (simp add: map_nth)
  also have "\<dots> = map (\<lambda>i. g (xs ! i)) [a..<length xs]"
    by (simp add: drop_map)
  finally show ?thesis using assms by simp
qed


lemma horner_samples_nonempty:
  assumes "horner_samples obsT obsRawP tp \<noteq> []"
  shows "obsT \<noteq> [] \<and> obsRawP \<noteq> []"
proof -
  have "horner_samples [] obsRawP tp = []" by (simp add: horner_samples_def)
  moreover have "horner_samples obsT [] tp = []" by (simp add: horner_samples_def)
  ultimately show ?thesis using assms by auto
qed

lemma horner_sums:
  fixes XY :: "(real \<times> real) list"
  assumes "a \<le> length XY"
  shows "foldl (horner_accumulate (map fst XY) (map snd XY)) (0, 0, 0, 0, 0) [a..<length XY] =
    (sum_list (map fst (drop a XY)), sum_list (map snd (drop a XY)),
     sum_list (map (\<lambda>p. fst p * snd p) (drop a XY)),
     sum_list (map (\<lambda>p. fst p * fst p) (drop a XY)), length (drop a XY))"
proof -
  have i: "map (\<lambda>i. f (map fst XY ! i) (map snd XY ! i)) [a..<length XY]
            = map (\<lambda>i. f (fst (XY ! i)) (snd (XY ! i))) [a..<length XY]" for f :: "real \<Rightarrow> real \<Rightarrow> real"
    by (rule map_cong) simp_all
  have x: "map ((!) (map fst XY)) [a..<length XY] = map fst (drop a XY)"
    using i [of "\<lambda>x y. x"] map_nth_drop [of fst fst XY a] by simp
  have y: "map ((!) (map snd XY)) [a..<length XY] = map snd (drop a XY)"
    using i [of "\<lambda>x y. y"] map_nth_drop [of snd snd XY a] by simp
  have xy: "map (\<lambda>i. map fst XY ! i * map snd XY ! i) [a..<length XY]
              = map (\<lambda>p. fst p * snd p) (drop a XY)"
    using i [of "\<lambda>x y. x * y"] map_nth_drop [of "\<lambda>p. fst p * snd p" "\<lambda>p. fst p * snd p" XY a]
    by simp
  have xx: "map (\<lambda>i. map fst XY ! i * map fst XY ! i) [a..<length XY]
              = map (\<lambda>p. fst p * fst p) (drop a XY)"
    using i [of "\<lambda>x y. x * x"] map_nth_drop [of "\<lambda>p. fst p * fst p" "\<lambda>p. fst p * fst p" XY a]
    by simp
  show ?thesis
    unfolding foldl_horner_accumulate x y xy xx by simp
qed

lemma ex_logs:
  "log 10 (10::real) = 1" "log 10 (100::real) = 2" "log 10 (1000::real) = 3"
  "log 10 (10000::real) = 4" "log 10 (100000::real) = 5"
  using log_pow_cancel [of "10::real" 1] log_pow_cancel [of "10::real" 2]
    log_pow_cancel [of "10::real" 3] log_pow_cancel [of "10::real" 4]
    log_pow_cancel [of "10::real" 5]
  by simp_all

lemma ex_samples:
  "horner_samples ex_shut_in_times ex_pressures 9 = [(5, 0), (4, 0), (3, 4), (2, 3), (1, 2)]"
  by (simp add: horner_samples_def ex_shut_in_times_def ex_pressures_def upt_rec ex_logs)

lemma ex_horner: "calculateHornerPressure ex_shut_in_times ex_pressures 9 = 39 / 10"
  unfolding calculateHornerPressure_def Let_def ex_samples
  by (simp add: ex_shut_in_times_def ex_pressures_def horner_fitCount_div upt_rec
      horner_accumulate_def)

text \<open>
  Claim C2, as stated, fails for five filtered points: \<open>\<lfloor>0.3 * 5\<rfloor> = 1\<close> is below 3, the
  code then regresses on all five points and returns \<open>3.9\<close>, while the intercept of the
  regression on the last \<open>max(1, 3) = 3\<close> points is \<open>1\<close>.
\<close>

theorem C2_horner_tail_regression_counterexample:
  "length (horner_samples ex_shut_in_times ex_pressures 9) = 5
   \<and> calculateHornerPressure ex_shut_in_times ex_pressures 9 = 39 / 10
   \<and> ols_intercept (drop (5 - spec_fit_count 5) (horner_samples ex_shut_in_times ex_pressures 9)) = 1"
  by (simp add: ex_horner ex_samples spec_fit_count_div ols_intercept_def ols_denominator_def)

text \<open>
  Claim C2, amended. For a positive producing time and \<open>N \<ge> 5\<close> filtered points the sums
  range over the last \<open>max(\<lfloor>0.3 N\<rfloor>, 3)\<close> filtered points when \<open>N \<ge> 10\<close> and over all \<open>N\<close>
  points when \<open>N < 10\<close>; the returned value is the y-intercept of the least-squares line
  through these points, or \<open>0\<close> when the denominator of the slope is below \<open>1e-9\<close> in
  magnitude.
\<close>

theorem C2_horner_tail_regression:
  assumes "0 < tp" and "5 \<le> length (horner_samples obsT obsRawP tp)"
  shows "calculateHornerPressure obsT obsRawP tp =
    (let XY = horner_samples obsT obsRawP tp;
         N = length XY;
         fit_count = (if 10 \<le> N then spec_fit_count N else N);
         tail = drop (N - fit_count) XY
     in if \<bar>ols_denominator tail\<bar> < 1 / 10 ^ 9 then 0 else ols_intercept tail)"
proof -
  define XY where "XY = horner_samples obsT obsRawP tp"
  define a where "a = length XY - horner_fitCount (length XY)"
  have "horner_samples obsT obsRawP tp \<noteq> []" using assms(2) by auto
  from horner_samples_nonempty [OF this] have ne: "obsT \<noteq> []" "obsRawP \<noteq> []"
    by simp_all
  have a: "a \<le> length XY" by (simp add: a_def)
  have len: "\<not> length XY < 5" using assms(2) by (simp add: XY_def)
  have "calculateHornerPressure obsT obsRawP tp =
      (if \<bar>ols_denominator (drop a XY)\<bar> < 1 / 10 ^ 9 then 0 else ols_intercept (drop a XY))"
    using ne assms(1) len
    unfolding calculateHornerPressure_def Let_def XY_def [symmetric] length_map
      a_def [symmetric] horner_sums [OF a]
    by (simp add: ols_denominator_def ols_intercept_def Let_def)
  then show ?thesis
    by (simp add: Let_def XY_def [symmetric] a_def horner_fitCount_eq)
qed


lemma ex_long_samples:
  "horner_samples ex_long_times ex_long_pressures 9 =
     [(5, 7), (5, 7), (5, 7), (5, 7), (5, 7), (5, 7), (5, 7), (3, 4), (2, 3), (1, 2)]"
  by (simp add: horner_samples_def ex_long_times_def ex_long_pressures_def upt_rec ex_logs
      numeral_eq_Suc)

theorem C2_horner_tail_regression_witness:
  "(0::real) < 9 \<and> 5 \<le> length (horner_samples ex_long_times ex_long_pressures 9)
   \<and> drop (10 - spec_fit_count 10) (horner_samples ex_long_times ex_long_pressures 9)
       = [(3, 4), (2, 3), (1, 2)]
   \<and> calculateHornerPressure ex_long_times ex_long_pressures 9 = 1"
proof -
  have l: "5 \<le> length (horner_samples ex_long_times ex_long_pressures 9)"
    by (simp add: ex_long_samples)
  have "(0::real) < 9" by simp
  from C2_horner_tail_regression [OF this l] l
  show ?thesis
    by (simp add: ex_long_samples spec_fit_count_div ols_intercept_def ols_denominator_def)
qed

section \<open>The default plan on ten thousand linearly spaced times\<close>

subsection \<open>The cursor scan\<close>

lemma scan_nearest_stop:
  "\<not> currentIndex < bound \<Longrightarrow> scan_nearest srcT bound targetT currentIndex minDiff bestIdx = bestIdx"
  by (simp add: scan_nearest.simps [of srcT bound targetT currentIndex minDiff bestIdx])

subsection \<open>Ten thousand linearly spaced times\<close>

lemma ex_times_length: "length ex_times = 10000"
  by (simp add: ex_times_def)

lemma ex_times_nth: "i < 10000 \<Longrightarrow> ex_times ! i = real i + 1"
  by (simp add: ex_times_def)

lemma ex_times_hd: "hd ex_times = 1"
proof -
  have "ex_times \<noteq> []" using ex_times_length by auto
  then have "hd ex_times = ex_times ! 0" by (rule hd_conv_nth)
  then show ?thesis by (simp add: ex_times_nth)
qed

lemma ex_times_last: "last ex_times = 10000"
proof -
  have "ex_times \<noteq> []" using ex_times_length by auto
  then have "last ex_times = ex_times ! (length ex_times - 1)" by (rule last_conv_nth)
  then show ?thesis by (simp add: ex_times_length ex_times_nth)
qed

lemma ex_log_10000: "log 10 (10000::real) = 4"
  using log_pow_cancel [of "10::real" 4] by simp

lemma ex_default_points:
  "default_points ex_times srcP srcD =
     snd (foldl (default_pick ex_times srcP srcD 0 (4 / 199)) (0, []) [0..<200])"
  by (simp add: default_points_def Let_def ex_times_hd ex_times_last ex_log_10000
      del: upt_rec_numeral)

lemma ex_pick_first:
  "default_pick ex_times srcP srcD 0 (4 / 199) (0, []) 0 = (0, [dataPoint ex_times srcP srcD 0])"
proof -
  have "scan_nearest ex_times 10000 1 0 (10 ^ 30) 0 = scan_nearest ex_times 10000 1 (Suc 0) 0 0"
    by (simp add: scan_nearest.simps [of ex_times 10000 1 0] ex_times_nth)
  also have "\<dots> = 0"
    by (simp add: scan_nearest.simps [of ex_times 10000 1 "Suc 0"] ex_times_nth)
  finally show ?thesis by (simp add: default_pick_def Let_def ex_times_length)
qed

subsection \<open>Bounds of the ratio of consecutive targets\<close>

lemma pow_up_sq:
  fixes x :: real
  assumes "x ^ n \<le> real u / 10 ^ 30" and "0 \<le> x" and "m = 2 * n" and "u * u \<le> u' * 10 ^ 30"
  shows "x ^ m \<le> real u' / 10 ^ 30"
proof -
  have "x ^ m = x ^ n * x ^ n" using assms(3) by (simp add: mult_2 power_add)
  also have "\<dots> \<le> (real u / 10 ^ 30) * (real u / 10 ^ 30)"
    by (intro mult_mono assms(1)) (use assms(2) in simp_all)
  also have "\<dots> = real (u * u) / 10 ^ 60" by simp
  also have "\<dots> \<le> real (u' * 10 ^ 30) / 10 ^ 60"
    using assms(4) by (intro divide_right_mono) (simp_all only: of_nat_le_iff zero_le_power zero_le_numeral)
  also have "\<dots> = real u' / 10 ^ 30" by simp
  finally show ?thesis .
qed

lemma pow_lo_sq:
  fixes x :: real
  assumes "real l / 10 ^ 30 \<le> x ^ n" and "0 \<le> x" and "m = 2 * n" and "l' * 10 ^ 30 \<le> l * l"
  shows "real l' / 10 ^ 30 \<le> x ^ m"
proof -
  have "real l' / 10 ^ 30 = real (l' * 10 ^ 30) / 10 ^ 60" by simp
  also have "\<dots> \<le> real (l * l) / 10 ^ 60"
    using assms(4) by (intro divide_right_mono) (simp_all only: of_nat_le_iff zero_le_power zero_le_numeral)
  also have "\<dots> = (real l / 10 ^ 30) * (real l / 10 ^ 30)" by simp
  also have "\<dots> \<le> x ^ n * x ^ n"
    by (intro mult_mono assms(1)) (use assms(2) in simp_all)
  also have "\<dots> = x ^ m" using assms(3) by (simp add: mult_2 power_add)
  finally show ?thesis .
qed

lemma pow_up_mul:
  assumes "(real A / 10 ^ 15) ^ n \<le> real u / 10 ^ 30" and "m = Suc n" and "u * A \<le> u' * 10 ^ 15"
  shows "(real A / 10 ^ 15) ^ m \<le> real u' / 10 ^ 30"
proof -
  have "(real A / 10 ^ 15) ^ m = (real A / 10 ^ 15) ^ n * (real A / 10 ^ 15)"
    using assms(2) by simp
  also have "\<dots> \<le> (real u / 10 ^ 30) * (real A / 10 ^ 15)"
    by (intro mult_right_mono assms(1)) simp
  also have "\<dots> = real (u * A) / 10 ^ 45" by simp
  also have "\<dots> \<le> real (u' * 10 ^ 15) / 10 ^ 45"
    using assms(3) by (intro divide_right_mono) (simp_all only: of_nat_le_iff zero_le_power zero_le_numeral)
  also have "\<dots> = real u' / 10 ^ 30" by simp
  finally show ?thesis .
qed

lemma pow_lo_mul:
  assumes "real l / 10 ^ 30 \<le> (real A / 10 ^ 15) ^ n" and "m = Suc n" and "l' * 10 ^ 15 \<le> l * A"
  shows "real l' / 10 ^ 30 \<le> (real A / 10 ^ 15) ^ m"
proof -
  have "real l' / 10 ^ 30 = real (l' * 10 ^ 15) / 10 ^ 45" by simp
  also have "\<dots> \<le> real (l * A) / 10 ^ 45"
    using assms(3) by (intro divide_right_mono) (simp_all only: of_nat_le_iff zero_le_power zero_le_numeral)
  also have "\<dots> = (real l / 10 ^ 30) * (real A / 10 ^ 15)" by simp
  also have "\<dots> \<le> (real A / 10 ^ 15) ^ n * (real A / 10 ^ 15)"
    by (intro mult_right_mono assms(1)) simp
  also have "\<dots> = (real A / 10 ^ 15) ^ m" using assms(2) by simp
  finally show ?thesis .
qed

lemma ex_ratio_power_lower:
  fixes A :: nat
  assumes A: "A = 1047370897959449"
  shows "(real A / 10 ^ 15) ^ 199 < 10 ^ 4"
proof -
  let ?x = "real A / 10 ^ 15"
  have x0: "0 \<le> ?x" by simp
  have s1: "?x ^ 1 \<le> real (A * 10 ^ 15) / 10 ^ 30" by simp
  have s2: "?x ^ 2 \<le> real 1096985797892382529432048383601 / 10 ^ 30"
    by (rule pow_up_sq [OF s1 x0]) (simp_all add: A)
  have s3: "?x ^ 3 \<le> real 1148951000187307326120421941561 / 10 ^ 30"
    by (rule pow_up_mul [OF s2]) (simp_all add: A)
  have s6: "?x ^ 6 \<le> real 1320088400831413879341853854776 / 10 ^ 30"
    by (rule pow_up_sq [OF s3 x0]) (simp_all add: A)
  have s12: "?x ^ 12 \<le> real 1742633386009639636127610855133 / 10 ^ 30"
    by (rule pow_up_sq [OF s6 x0]) (simp_all add: A)
  have s24: "?x ^ 24 \<le> real 3036771118035421699489825787727 / 10 ^ 30"
    by (rule pow_up_sq [OF s12 x0]) (simp_all add: A)
  have s48: "?x ^ 48 \<le> real 9221978823334105111923611270837 / 10 ^ 30"
    by (rule pow_up_sq [OF s24 x0]) (simp_all add: A)
  have s49: "?x ^ 49 \<le> real 9658832241158464561836801947746 / 10 ^ 30"
    by (rule pow_up_mul [OF s48]) (simp_all add: A)
  have s98: "?x ^ 98 \<le> real 93293040262842247318875592683800 / 10 ^ 30"
    by (rule pow_up_sq [OF s49 x0]) (simp_all add: A)
  have s99: "?x ^ 99 \<le> real 97712415353460114531010305888487 / 10 ^ 30"
    by (rule pow_up_mul [OF s98]) (simp_all add: A)
  have s198: "?x ^ 198 \<le> real 9547716114207107918937271320780494 / 10 ^ 30"
    by (rule pow_up_sq [OF s99 x0]) (simp_all add: A)
  have s199: "?x ^ 199 \<le> real 9999999999998999742893028635694687 / 10 ^ 30"
    by (rule pow_up_mul [OF s198]) (simp_all add: A)
  have "real 9999999999998999742893028635694687 / 10 ^ 30 < (10::real) ^ 4" by simp
  with s199 show ?thesis by linarith
qed

lemma ex_ratio_power_upper:
  fixes A :: nat
  assumes A: "A = 1047370897959450"
  shows "10 ^ 4 < (real A / 10 ^ 15) ^ 199"
proof -
  let ?x = "real A / 10 ^ 15"
  have x0: "0 \<le> ?x" by simp
  have s1: "real (A * 10 ^ 15) / 10 ^ 30 \<le> ?x ^ 1" by simp
  have s2: "real 1096985797892384624173844302500 / 10 ^ 30 \<le> ?x ^ 2"
    by (rule pow_lo_sq [OF s1 x0]) (simp_all add: A)
  have s3: "real 1148951000187310617077815618711 / 10 ^ 30 \<le> ?x ^ 3"
    by (rule pow_lo_mul [OF s2]) (simp_all add: A)
  have s6: "real 1320088400831421441639431933137 / 10 ^ 30 \<le> ?x ^ 6"
    by (rule pow_lo_sq [OF s3 x0]) (simp_all add: A)
  have s12: "real 1742633386009659601930243768665 / 10 ^ 30 \<le> ?x ^ 12"
    by (rule pow_lo_sq [OF s6 x0]) (simp_all add: A)
  have s24: "real 3036771118035491285638318976697 / 10 ^ 30 \<le> ?x ^ 24"
    by (rule pow_lo_sq [OF s12 x0]) (simp_all add: A)
  have s48: "real 9221978823334527746335530156365 / 10 ^ 30 \<le> ?x ^ 48"
    by (rule pow_lo_sq [OF s24 x0]) (simp_all add: A)
  have s49: "real 9658832241158916438799145329064 / 10 ^ 30 \<le> ?x ^ 49"
    by (rule pow_lo_mul [OF s48]) (simp_all add: A)
  have s98: "real 93293040262850976526421430889736 / 10 ^ 30 \<le> ?x ^ 98"
    by (rule pow_lo_sq [OF s49 x0]) (simp_all add: A)
  have s99: "real 97712415353469350541996327699281 / 10 ^ 30 \<le> ?x ^ 99"
    by (rule pow_lo_mul [OF s98]) (simp_all add: A)
  have s198: "real 9547716114208912864820621973836960 / 10 ^ 30 \<le> ?x ^ 198"
    by (rule pow_lo_sq [OF s99 x0]) (simp_all add: A)
  have s199: "real 10000000000000899738399756028987673 / 10 ^ 30 \<le> ?x ^ 199"
    by (rule pow_lo_mul [OF s198]) (simp_all add: A)
  have "(10::real) ^ 4 < real 10000000000000899738399756028987673 / 10 ^ 30" by simp
  with s199 show ?thesis by linarith
qed

lemma ex_ratio_power: "((10::real) powr (4 / 199)) ^ 199 = 10 ^ 4"
proof -
  have "((10::real) powr (4 / 199)) ^ 199 = (10 powr (4 / 199)) powr (real 199)"
    by (rule powr_realpow [symmetric]) simp
  also have "\<dots> = 10 powr 4" by (simp add: powr_powr)
  also have "\<dots> = 10 ^ 4" using powr_realpow [of "10::real" 4] by simp
  finally show ?thesis .
qed

lemma ex_ratio_bounds:
  "real 1047370897959449 / 10 ^ 15 \<le> 10 powr (4 / 199)"
  "10 powr (4 / 199) \<le> real 1047370897959450 / 10 ^ 15"
proof -
  have "(real 1047370897959449 / 10 ^ 15) ^ 199 < ((10::real) powr (4 / 199)) ^ 199"
    unfolding ex_ratio_power by (rule ex_ratio_power_lower [OF refl])
  then have "real 1047370897959449 / 10 ^ 15 < 10 powr (4 / 199)"
    by (rule power_less_imp_less_base) simp
  then show "real 1047370897959449 / 10 ^ 15 \<le> 10 powr (4 / 199)" by (rule less_imp_le)
  have "((10::real) powr (4 / 199)) ^ 199 < (real 1047370897959450 / 10 ^ 15) ^ 199"
    unfolding ex_ratio_power by (rule ex_ratio_power_upper [OF refl])
  then have "10 powr (4 / 199) < real 1047370897959450 / 10 ^ 15"
    by (rule power_less_imp_less_base) (simp only: of_nat_0_le_iff zero_le_power zero_le_numeral divide_nonneg_nonneg)
  then show "10 powr (4 / 199) \<le> real 1047370897959450 / 10 ^ 15" by (rule less_imp_le)
qed

subsection \<open>The scan on the linear times\<close>

lemma scan_linear_from:
  assumes "k < 10000" and "real k + 1 / 2 < T" and "T \<le> real k + 3 / 2"
    and "j \<le> k" and "n = k - j"
  shows "scan_nearest ex_times 10000 T (Suc j) \<bar>real j + 1 - T\<bar> j = k"
  using assms(4,5)
proof (induction n arbitrary: j)
  case 0
  then have jk: "j = k" by simp
  show ?case
  proof (cases "Suc j < 10000")
    case True
    have "\<not> \<bar>ex_times ! Suc j - T\<bar> < \<bar>real j + 1 - T\<bar>"
      using assms(2,3) True unfolding jk by (simp add: ex_times_nth)
    with True show ?thesis unfolding jk
      by (simp add: scan_nearest.simps [of ex_times 10000 T "Suc k"])
  next
    case False
    then show ?thesis by (simp add: scan_nearest_stop jk)
  qed
next
  case (Suc n)
  then have lt: "j < k" and le: "Suc j \<le> k" and n: "n = k - Suc j" by simp_all
  from le assms(1) have b: "Suc j < 10000" by simp
  have "real j + 3 / 2 \<le> real k + 1 / 2" using le by simp
  with assms(2) have T: "real j + 3 / 2 < T" by linarith
  have d: "\<bar>ex_times ! Suc j - T\<bar> < \<bar>real j + 1 - T\<bar>"
    using T b by (simp add: ex_times_nth)
  have e: "\<bar>ex_times ! Suc j - T\<bar> = \<bar>real (Suc j) + 1 - T\<bar>"
    using b by (simp add: ex_times_nth)
  have "scan_nearest ex_times 10000 T (Suc j) \<bar>real j + 1 - T\<bar> j =
        scan_nearest ex_times 10000 T (Suc (Suc j)) \<bar>real (Suc j) + 1 - T\<bar> (Suc j)"
    using b d unfolding e [symmetric]
    by (simp add: scan_nearest.simps [of ex_times 10000 T "Suc j"])
  also have "\<dots> = k" by (rule Suc.IH [OF le n])
  finally show ?case .
qed

lemma scan_linear:
  assumes "c \<le> k" and "k < 10000" and "real k + 1 / 2 < T" and "T \<le> real k + 3 / 2"
  shows "scan_nearest ex_times 10000 T c (10 ^ 30) c = k"
proof -
  from assms(1,2) have c: "c < 10000" by simp
  have "real k < 10000" using assms(2) by simp
  with assms(3,4) c have "\<bar>real c + 1 - T\<bar> < 10 ^ 30" by simp
  then have "scan_nearest ex_times 10000 T c (10 ^ 30) c =
        scan_nearest ex_times 10000 T (Suc c) \<bar>real c + 1 - T\<bar> c"
    using c by (simp add: scan_nearest.simps [of ex_times 10000 T c] ex_times_nth)
  also have "\<dots> = k" by (rule scan_linear_from [OF assms(2-4) assms(1) refl])
  finally show ?thesis .
qed

lemma default_pick_linear:
  assumes "c \<le> k" and "k < 10000"
    and "real k + 1 / 2 < (10 powr (4 / 199)) ^ i" and "(10 powr (4 / 199)) ^ i \<le> real k + 3 / 2"
  shows "default_pick ex_times srcP srcD 0 (4 / 199) (c, pts) i
           = (k, pts @ [dataPoint ex_times srcP srcD k])"
proof -
  have "(10::real) powr (0 + real i * (4 / 199)) = (10 powr (4 / 199)) powr real i"
    by (simp add: powr_powr mult.commute)
  also have "\<dots> = (10 powr (4 / 199)) ^ i" by (rule powr_realpow) simp
  finally have T: "(10::real) powr (0 + real i * (4 / 199)) = (10 powr (4 / 199)) ^ i" .
  have s: "scan_nearest ex_times 10000 ((10 powr (4 / 199)) ^ i) c (10 ^ 30) c = k"
    by (rule scan_linear [OF assms])
  show ?thesis
    unfolding default_pick_def Let_def T ex_times_length fst_conv snd_conv s ..
qed

subsection \<open>The certificate\<close>

lemma certified_picks_sound:
  assumes "real A / 10 ^ 15 \<le> 10 powr (4 / 199)" and "10 powr (4 / 199) \<le> real B / 10 ^ 15"
    and "certified_picks A B L H c cert"
    and "real L / 10 ^ 12 \<le> (10 powr (4 / 199)) ^ n" and "(10 powr (4 / 199)) ^ n \<le> real H / 10 ^ 12"
  shows "foldl (default_pick ex_times srcP srcD 0 (4 / 199)) (c, pts) [Suc n..<Suc n + length cert]
         = (last (c # map fst cert), pts @ map (\<lambda>e. dataPoint ex_times srcP srcD (fst e)) cert)"
  using assms(3-5)
proof (induction cert arbitrary: L H c pts n)
  case Nil
  then show ?case by simp
next
  case (Cons e cert)
  obtain k L' H' where e: "e = (k, L', H')" by (cases e) auto
  let ?r = "(10::real) powr (4 / 199)"
  from Cons.prems(1) have lo: "L' * 10 ^ 15 \<le> L * A" and hi: "H * B \<le> H' * 10 ^ 15"
    and ck: "c \<le> k" and k: "k < 10000"
    and near_lo: "(2 * k + 1) * 10 ^ 12 < 2 * L'" and near_hi: "2 * H' \<le> (2 * k + 3) * 10 ^ 12"
    and rest: "certified_picks A B L' H' k cert"
    unfolding e by simp_all
  have r0: "0 \<le> ?r" by simp
  have "real L' / 10 ^ 12 = real (L' * 10 ^ 15) / 10 ^ 27" by simp
  also have "\<dots> \<le> real (L * A) / 10 ^ 27"
    using lo by (intro divide_right_mono) (simp_all only: of_nat_le_iff zero_le_power zero_le_numeral)
  also have "\<dots> = (real L / 10 ^ 12) * (real A / 10 ^ 15)" by simp
  also have "\<dots> \<le> ?r ^ n * ?r"
    by (intro mult_mono Cons.prems(2) assms(1)) simp_all
  finally have L': "real L' / 10 ^ 12 \<le> ?r ^ Suc n" by (simp add: mult.commute)
  have "?r ^ Suc n = ?r ^ n * ?r" by simp
  also have "\<dots> \<le> (real H / 10 ^ 12) * (real B / 10 ^ 15)"
    by (intro mult_mono Cons.prems(3) assms(2)) simp_all
  also have "\<dots> = real (H * B) / 10 ^ 27" by simp
  also have "\<dots> \<le> real (H' * 10 ^ 15) / 10 ^ 27"
    using hi by (intro divide_right_mono) (simp_all only: of_nat_le_iff zero_le_power zero_le_numeral)
  also have "\<dots> = real H' / 10 ^ 12" by simp
  finally have H': "?r ^ Suc n \<le> real H' / 10 ^ 12" .
  have "real ((2 * k + 1) * 10 ^ 12) < real (2 * L')" using near_lo by (simp only: of_nat_less_iff)
  then have "real k + 1 / 2 < real L' / 10 ^ 12" by simp
  with L' have t_lo: "real k + 1 / 2 < ?r ^ Suc n" by linarith
  have "real (2 * H') \<le> real ((2 * k + 3) * 10 ^ 12)" using near_hi by (simp only: of_nat_le_iff)
  then have "real H' / 10 ^ 12 \<le> real k + 3 / 2" by simp
  with H' have t_hi: "?r ^ Suc n \<le> real k + 3 / 2" by linarith
  have pick: "default_pick ex_times srcP srcD 0 (4 / 199) (c, pts) (Suc n)
                = (k, pts @ [dataPoint ex_times srcP srcD k])"
    by (rule default_pick_linear [OF ck k t_lo t_hi])
  have len: "Suc n + length (e # cert) = Suc (Suc n) + length cert" by simp
  have upt: "[Suc n..<Suc n + length (e # cert)] = Suc n # [Suc (Suc n)..<Suc (Suc n) + length cert]"
    unfolding len by (rule upt_conv_Cons) simp
  show ?case
    unfolding upt foldl_Cons pick Cons.IH [OF rest L' H']
    by (simp add: e)
qed

lemma certified_picks_sorted:
  "certified_picks A B L H c cert \<Longrightarrow>
     sorted (c # map fst cert) \<and> (\<forall>k \<in> set (map fst cert). k < 10000)"
proof (induction cert arbitrary: L H c)
  case Nil
  then show ?case by simp
next
  case (Cons e cert)
  obtain k L' H' where e: "e = (k, L', H')" by (cases e) auto
  from Cons.prems have ck: "c \<le> k" and k: "k < 10000" and rest: "certified_picks A B L' H' k cert"
    unfolding e by simp_all
  from Cons.IH [OF rest] have s: "sorted (k # map fst cert)"
    and b: "\<forall>k \<in> set (map fst cert). k < 10000" by simp_all
  from s ck have "sorted (c # k # map fst cert)" by auto
  with b k show ?case by (simp add: e)
qed

lemma ex_certificate_checked:
  "certified_picks 1047370897959449 1047370897959450 (10 ^ 12) (10 ^ 12) 0 ex_certificate"
  unfolding ex_certificate_def by simp

lemma ex_certificate_length: "length ex_certificate = 199"
  by (simp add: ex_certificate_def)

lemma ex_picks_bounds: "sorted ex_picks" "\<forall>k \<in> set ex_picks. k < 10000"
  using certified_picks_sorted [OF ex_certificate_checked] by (simp_all add: ex_picks_def)

lemma ex_picks_count: "length (remdups_adj ex_picks) = 154"
  by (simp add: ex_picks_def ex_certificate_def)

lemma ex_picks_ends: "ex_picks \<noteq> []" "hd ex_picks = 0" "last ex_picks = 9999"
  by (simp_all add: ex_picks_def ex_certificate_def)

lemma ex_default_points_linear:
  "default_points ex_times srcP srcD = map (dataPoint ex_times srcP srcD) ex_picks"
proof -
  let ?pick = "default_pick ex_times srcP srcD 0 (4 / 199)"
  let ?dp = "dataPoint ex_times srcP srcD"
  have "[0..<200] = 0 # [Suc 0..<200]" by (rule upt_conv_Cons) simp
  then have upt: "[0..<200] = 0 # [Suc 0..<Suc 0 + length ex_certificate]"
    by (simp add: ex_certificate_length)
  have lo: "real (10 ^ 12) / 10 ^ 12 \<le> ((10::real) powr (4 / 199)) ^ 0"
    and hi: "((10::real) powr (4 / 199)) ^ 0 \<le> real (10 ^ 12) / 10 ^ 12" by simp_all
  have "foldl ?pick (0, []) [0..<200] =
        foldl ?pick (0, [?dp 0]) [Suc 0..<Suc 0 + length ex_certificate]"
    unfolding upt foldl_Cons ex_pick_first ..
  also have "\<dots> = (last (0 # map fst ex_certificate), [?dp 0] @ map (\<lambda>e. ?dp (fst e)) ex_certificate)"
    by (rule certified_picks_sound [OF ex_ratio_bounds ex_certificate_checked lo hi])
  finally show ?thesis
    unfolding ex_default_points by (simp add: ex_picks_def comp_def)
qed

subsection \<open>Sorting and removing duplicates\<close>

lemma nat_times_apart:
  "\<bar>(real j + 1) - (real k + 1)\<bar> < 1 / 10 ^ 9 \<Longrightarrow> j = k"
  by (cases j k rule: linorder_cases) auto

lemma ex_dataPoint_time: "j < 10000 \<Longrightarrow> fst (dataPoint ex_times srcP srcD j) = real j + 1"
  by (simp add: dataPoint_def ex_times_nth)

lemma unique_from_linear:
  assumes "\<forall>j \<in> set (k # ks). j < 10000"
  shows "map fst (unique_from (dataPoint ex_times srcP srcD k) (map (dataPoint ex_times srcP srcD) ks))
         = map (\<lambda>j. real j + 1) (remdups_adj (k # ks))"
  using assms
proof (induction ks arbitrary: k)
  case Nil
  then show ?case by (simp add: ex_dataPoint_time)
next
  case (Cons x ks)
  let ?dp = "dataPoint ex_times srcP srcD"
  from Cons.prems have k: "k < 10000" and x: "x < 10000"
    and rest: "\<forall>j \<in> set (x # ks). j < 10000" and rest': "\<forall>j \<in> set (k # ks). j < 10000"
    by simp_all
  have near: "\<bar>fst (?dp k) - fst (?dp x)\<bar> < 1 / 10 ^ 9 \<longleftrightarrow> k = x"
    unfolding ex_dataPoint_time [OF k] ex_dataPoint_time [OF x]
    using nat_times_apart [of k x] by auto
  show ?case
  proof (cases "k = x")
    case True
    have "map fst (unique_from (?dp k) (map ?dp (x # ks))) = map fst (unique_from (?dp k) (map ?dp ks))"
      using near True by simp
    also have "\<dots> = map (\<lambda>j. real j + 1) (remdups_adj (k # ks))" by (rule Cons.IH [OF rest'])
    finally show ?thesis using True by simp
  next
    case False
    have "map fst (unique_from (?dp k) (map ?dp (x # ks)))
            = fst (?dp k) # map fst (unique_from (?dp x) (map ?dp ks))"
      using near False by simp
    also have "\<dots> = (real k + 1) # map (\<lambda>j. real j + 1) (remdups_adj (x # ks))"
      unfolding Cons.IH [OF rest] ex_dataPoint_time [OF k] ..
    finally show ?thesis using False by simp
  qed
qed

subsection \<open>The default plan on the linear times\<close>

lemma ex_sampled_default:
  "fst (getLogSampledData ex_core_default ex_times srcP srcD) =
     map fst (std_unique (sort_key fst (default_points ex_times srcP srcD)))"
proof -
  have "ex_times \<noteq> []" "\<not> length ex_times \<le> 200" using ex_times_length by auto
  then show ?thesis by (simp add: getLogSampledData_def ex_core_default_def Let_def)
qed

lemma ex_sampled_times:
  "fst (getLogSampledData ex_core_default ex_times srcP srcD)
     = map (\<lambda>j. real j + 1) (remdups_adj ex_picks)"
proof -
  let ?dp = "dataPoint ex_times srcP srcD"
  have times: "map fst (map ?dp ex_picks) = map (\<lambda>j. real j + 1) ex_picks"
    using ex_picks_bounds(2) by (simp add: ex_dataPoint_time)
  have "sorted (map (\<lambda>j. real j + 1) ex_picks)"
    using ex_picks_bounds(1) unfolding sorted_map
    by (rule sorted_wrt_mono_rel [rotated]) simp
  then have "sorted (map fst (map ?dp ex_picks))" unfolding times .
  then have id: "sort_key fst (map ?dp ex_picks) = map ?dp ex_picks"
    by (rule sort_key_id_if_sorted)
  have "map fst (std_unique (map ?dp ex_picks))
          = map fst (unique_from (?dp 0) (map ?dp (map fst ex_certificate)))"
    by (simp add: ex_picks_def)
  also have "\<dots> = map (\<lambda>j. real j + 1) (remdups_adj (0 # map fst ex_certificate))"
    by (rule unique_from_linear) (use ex_picks_bounds(2) in \<open>simp add: ex_picks_def\<close>)
  finally show ?thesis
    unfolding ex_sampled_default ex_default_points_linear id by (simp add: ex_picks_def)
qed

text \<open>
  Claim C8, as stated, fails: on the times \<open>1, ..., 10000\<close> the default plan does not
  return 200 points. Several of the 200 log-spaced targets select the same time (the first
  nine, from \<open>1\<close> to \<open>10^(32/199) < 1.5\<close>, all select the time \<open>1\<close>), and duplicates are
  removed.
\<close>

theorem C8_default_plan_on_linear_times_counterexample:
  "length (fst (getLogSampledData ex_core_default ex_times ex_times ex_times)) \<noteq> 200"
  unfolding ex_sampled_times by (simp add: ex_picks_count)

text \<open>
  Claim C8, amended: on these times the default plan returns exactly 154 points, strictly
  ascending with no duplicates within \<open>1e-9\<close>, the first time being \<open>1\<close> and the last
  \<open>10000\<close>, whatever the other two series are.
\<close>

theorem C8_default_plan_on_linear_times:
  "length (fst (getLogSampledData ex_core_default ex_times srcP srcD)) = 154
   \<and> strictly_ascending_apart (fst (getLogSampledData ex_core_default ex_times srcP srcD))
   \<and> hd (fst (getLogSampledData ex_core_default ex_times srcP srcD)) = 1
   \<and> last (fst (getLogSampledData ex_core_default ex_times srcP srcD)) = 10000"
proof (intro conjI)
  have ne: "remdups_adj ex_picks \<noteq> []" using ex_picks_ends(1) by simp
  show "length (fst (getLogSampledData ex_core_default ex_times srcP srcD)) = 154"
    unfolding ex_sampled_times by (simp add: ex_picks_count)
  show "strictly_ascending_apart (fst (getLogSampledData ex_core_default ex_times srcP srcD))"
    unfolding ex_sampled_default by (rule sampled_apart)
  show "hd (fst (getLogSampledData ex_core_default ex_times srcP srcD)) = 1"
    unfolding ex_sampled_times using ne by (simp add: hd_map ex_picks_ends)
  show "last (fst (getLogSampledData ex_core_default ex_times srcP srcD)) = 10000"
    unfolding ex_sampled_times using ne by (simp add: last_map ex_picks_ends)
qed

theorem C8_default_plan_on_linear_times_witness:
  "length (fst (getLogSampledData ex_core_default ex_times ex_times ex_times)) = 154
   \<and> hd (fst (getLogSampledData ex_core_default ex_times ex_times ex_times)) = 1
   \<and> last (fst (getLogSampledData ex_core_default ex_times ex_times ex_times)) = 10000"
  using C8_default_plan_on_linear_times [of ex_times ex_times] by simp

end
